theory Spec2Isabelle
  imports Complex_Main
begin

section \<open>JavaScript values\<close>

text \<open>
  The orchestrator is TypeScript that inspects untyped values: tool arguments arrive as
  \<^verbatim>\<open>Record<string, unknown>\<close> and gateway replies are cast from \<^verbatim>\<open>unknown\<close>. The
  model keeps such values as a datatype, so that every \<^verbatim>\<open>typeof\<close> test of the source
  is a case distinction here.

  A finite number is a rational (every finite double is one); \<^verbatim>\<open>Math.floor\<close>,
  \<^verbatim>\<open>Math.round\<close>, \<^verbatim>\<open>Math.max\<close> and the comparisons are exact on doubles, so they are
  the mathematical functions. Sums and products of whole numbers are rounded to the
  nearest double (\<open>dbl\<close> below). Arithmetic on fractions is not modelled: the estimated
  cost and \<^verbatim>\<open>toFixed\<close> are parameters of the model, and the run time
  \<^verbatim>\<open>endedAt - startedAt\<close> and its division by 1000 are computed exactly.

  A string is its UTF-8 text, one \<^typ>\<open>char\<close> per byte.
\<close>

datatype jsnum = Finite rat | NaN | PosInfinity | NegInfinity

datatype jsval =
    JUndefined
  | JNull
  | JBool bool
  | JNum jsnum
  | JStr string
  | JObj "(string \<times> jsval) list"

text \<open>The optional property read \<^verbatim>\<open>v?.k\<close>.\<close>

fun getProp :: "jsval \<Rightarrow> string \<Rightarrow> jsval" where
  "getProp (JObj fs) k = (case map_of fs k of Some v \<Rightarrow> v | None \<Rightarrow> JUndefined)"
| "getProp _ k = JUndefined"

text \<open>\<^verbatim>\<open>typeof v === "string" ? v : undefined\<close> and its sibling for numbers.\<close>

fun asString :: "jsval \<Rightarrow> string option" where
  "asString (JStr s) = Some s"
| "asString _ = None"

fun asNumber :: "jsval \<Rightarrow> jsnum option" where
  "asNumber (JNum n) = Some n"
| "asNumber _ = None"

text \<open>Truthiness of a \<^verbatim>\<open>string | undefined\<close>: defined and not empty.\<close>

fun truthy :: "string option \<Rightarrow> bool" where
  "truthy None = False"
| "truthy (Some s) = (s \<noteq> [])"

text \<open>
  What a \<^verbatim>\<open>catch (err)\<close> receives: an \<^verbatim>\<open>Error\<close> object with its message, or any other
  thrown value. Every catch block of the orchestrator reads it the same way:
  \<^verbatim>\<open>err instanceof Error ? err.message : typeof err === "string" ? err : "error"\<close>.
\<close>

datatype thrown = ErrorObject string | ThrownValue jsval

fun messageText :: "thrown \<Rightarrow> string" where
  "messageText (ErrorObject m) = m"
| "messageText (ThrownValue (JStr s)) = s"
| "messageText (ThrownValue _) = ''error''"

text \<open>\<^verbatim>\<open>s.includes(sub)\<close>: \<open>sub\<close> occurs in \<open>s\<close> as a contiguous run.\<close>

fun includesStr :: "string \<Rightarrow> string \<Rightarrow> bool" where
  "includesStr [] sub = (sub = [])"
| "includesStr (c # cs) sub = (take (length sub) (c # cs) = sub \<or> includesStr cs sub)"

text \<open>
  \<^verbatim>\<open>s.trim()\<close> removes white space and line terminators at both ends. In UTF-8 these
  are the one-byte characters TAB, LF, VT, FF, CR, SP, the two-byte U+00A0 and the
  three-byte U+1680, U+2000 to U+200A, U+2028, U+2029, U+202F, U+205F, U+3000, U+FEFF.
\<close>

definition isWs1 :: "char \<Rightarrow> bool" where
  "isWs1 a = (a \<in> {CHR 0x09, CHR 0x0A, CHR 0x0B, CHR 0x0C, CHR 0x0D, CHR 0x20})"

definition isWs2 :: "char \<Rightarrow> char \<Rightarrow> bool" where
  "isWs2 a b = (a = CHR 0xC2 \<and> b = CHR 0xA0)"

definition isWs3 :: "char \<Rightarrow> char \<Rightarrow> char \<Rightarrow> bool" where
  "isWs3 a b c =
     ((a = CHR 0xE1 \<and> b = CHR 0x9A \<and> c = CHR 0x80)
    \<or> (a = CHR 0xE2 \<and> b = CHR 0x80 \<and>
         c \<in> {CHR 0x80, CHR 0x81, CHR 0x82, CHR 0x83, CHR 0x84, CHR 0x85, CHR 0x86,
              CHR 0x87, CHR 0x88, CHR 0x89, CHR 0x8A, CHR 0xA8, CHR 0xA9, CHR 0xAF})
    \<or> (a = CHR 0xE2 \<and> b = CHR 0x81 \<and> c = CHR 0x9F)
    \<or> (a = CHR 0xE3 \<and> b = CHR 0x80 \<and> c = CHR 0x80)
    \<or> (a = CHR 0xEF \<and> b = CHR 0xBB \<and> c = CHR 0xBF))"

fun trimStart :: "string \<Rightarrow> string" where
  "trimStart (a # b # c # cs) =
     (if isWs1 a then trimStart (b # c # cs)
      else if isWs2 a b then trimStart (c # cs)
      else if isWs3 a b c then trimStart cs
      else a # b # c # cs)"
| "trimStart [a, b] =
     (if isWs1 a then trimStart [b] else if isWs2 a b then [] else [a, b])"
| "trimStart [a] = (if isWs1 a then [] else [a])"
| "trimStart [] = []"

text \<open>The same scan from the end, on the reversed string (bytes arrive last first).\<close>

fun trimStartRev :: "string \<Rightarrow> string" where
  "trimStartRev (c # b # a # cs) =
     (if isWs1 c then trimStartRev (b # a # cs)
      else if isWs2 b c then trimStartRev (a # cs)
      else if isWs3 a b c then trimStartRev cs
      else c # b # a # cs)"
| "trimStartRev [b, a] =
     (if isWs1 b then trimStartRev [a] else if isWs2 a b then [] else [b, a])"
| "trimStartRev [a] = (if isWs1 a then [] else [a])"
| "trimStartRev [] = []"

definition trim :: "string \<Rightarrow> string" where
  "trim s = rev (trimStartRev (rev (trimStart s)))"

text \<open>\<^verbatim>\<open>String(n)\<close> for an integer \<open>n\<close>: its decimal numeral.\<close>

function digits :: "nat \<Rightarrow> string" where
  "digits n =
     (if n < 10 then [''0123456789'' ! n]
      else digits (n div 10) @ [''0123456789'' ! (n mod 10)])"
  by pat_completeness auto
termination
  by (relation "measure (\<lambda>n. n)") auto

declare digits.simps [simp del]

definition showInt :: "int \<Rightarrow> string" where
  "showInt i = (if i < 0 then CHR ''-'' # digits (nat (- i)) else digits (nat i))"

text \<open>
  Numbers are IEEE 754 doubles. \<open>dbl n\<close> is the double nearest to the whole number
  \<open>n\<close>, ties to even: a double has 53 significant bits, the largest finite one is
  \<open>(2^53 - 1) * 2^971\<close>, and what would round to \<open>2^1024\<close> or beyond is infinite. It is
  what \<^verbatim>\<open>a * b\<close> and \<^verbatim>\<open>a + b\<close> evaluate to for doubles \<open>a\<close>, \<open>b\<close> that are whole numbers
  with exact product or sum \<open>n\<close>. \<open>bitLength a\<close> is the number of binary digits of \<open>a\<close>;
  \<open>roundNat a\<close> is \<open>None\<close> when \<open>a\<close> rounds to infinity.
\<close>

function bitLength :: "nat \<Rightarrow> nat" where
  "bitLength n = (if n = 0 then 0 else Suc (bitLength (n div 2)))"
  by pat_completeness auto
termination
  by (relation "measure (\<lambda>n. n)") auto

declare bitLength.simps [simp del]

definition roundNat :: "nat \<Rightarrow> nat option" where
  "roundNat a =
     (if a < 2 ^ 53 then Some a
      else
        (let e = bitLength a - 53;
             m = a div 2 ^ e;
             r = a mod 2 ^ e;
             rounded = (if 2 * r > 2 ^ e \<or> (2 * r = 2 ^ e \<and> odd m) then m + 1 else m)
         in if rounded * 2 ^ e \<ge> 2 ^ 1024 then None else Some (rounded * 2 ^ e)))"

definition dbl :: "int \<Rightarrow> jsnum" where
  "dbl n =
     (case roundNat (nat \<bar>n\<bar>) of
        None \<Rightarrow> (if n < 0 then NegInfinity else PosInfinity)
      | Some a \<Rightarrow> Finite (of_int (if n < 0 then - int a else int a)))"

text \<open>\<^verbatim>\<open>x + n\<close> for a double \<open>x\<close> that is a whole number, or is not finite.\<close>

definition jsAddInt :: "jsnum \<Rightarrow> int \<Rightarrow> jsnum" where
  "jsAddInt x n =
     (case x of
        Finite q \<Rightarrow> dbl (\<lfloor>q\<rfloor> + n)
      | NaN \<Rightarrow> NaN
      | PosInfinity \<Rightarrow> PosInfinity
      | NegInfinity \<Rightarrow> NegInfinity)"

text \<open>\<^verbatim>\<open>parts.join(sep)\<close>.\<close>

fun joinWith :: "string \<Rightarrow> string list \<Rightarrow> string" where
  "joinWith sep [] = []"
| "joinWith sep [p] = p"
| "joinWith sep (p # q # ps) = p @ sep @ joinWith sep (q # ps)"

section \<open>Subagent Registry\<close>

datatype cleanup_policy = Keep | Delete

record subagent_run =
  run_runId :: string
  run_childSessionKey :: string
  run_requesterSessionKey :: string
  run_requesterProvider :: "string option"
  run_requesterDisplayKey :: string
  run_task :: string
  run_cleanup :: cleanup_policy

text \<open>
  The registry is process-wide state of \<^verbatim>\<open>subagent-registry.ts\<close>, a file that is not
  among the sources; the orchestrator only imports \<^verbatim>\<open>registerSubagentRun\<close> and
  \<^verbatim>\<open>beginSubagentAnnounce\<close> from it. Its state follows the specification's data model:
  the run metadata keyed by \<open>runId\<close>, and the AnnounceClaim, ``a single-acquisition flag
  keyed by \<open>runId\<close>''.
\<close>

record registry =
  runs :: "string \<rightharpoonup> subagent_run"
  claimed :: "string set"

definition emptyRegistry :: registry where
  "emptyRegistry = \<lparr>runs = Map.empty, claimed = {}\<rparr>"

text \<open>
  Modelled from the spec: \<^verbatim>\<open>registerSubagentRun\<close> (subagent-registry.ts is missing).
  ``\<open>register(run)\<close>: records metadata keyed by \<open>runId\<close>; idempotent overwrite if called
  twice for the same id.''
\<close>

definition registerSubagentRun :: "registry \<Rightarrow> subagent_run \<Rightarrow> registry" where
  "registerSubagentRun reg run = reg\<lparr>runs := (runs reg)(run_runId run \<mapsto> run)\<rparr>"

text \<open>
  Modelled from the spec: \<^verbatim>\<open>beginSubagentAnnounce\<close> (subagent-registry.ts is missing).
  ``\<open>claimAnnounce(runId) -> bool\<close>: atomic compare-and-set; returns true exactly once
  per \<open>runId\<close>, false on every subsequent call.'' The call is synchronous, so on the
  single-threaded event loop it runs to completion between any two other calls: the
  compare and the set are one step of the model.
\<close>

definition beginSubagentAnnounce :: "registry \<Rightarrow> string \<Rightarrow> bool \<times> registry" where
  "beginSubagentAnnounce reg runId =
     (if runId \<in> claimed reg then (False, reg)
      else (True, reg\<lparr>claimed := insert runId (claimed reg)\<rparr>))"

text \<open>
  Call paths reach the registry in some order. An interleaving is a list of registry
  operations; \<open>claimResults\<close> runs it and returns what each claim call answered.
\<close>

datatype registry_op = Register subagent_run | ClaimAnnounce string

fun claimResults :: "registry \<Rightarrow> registry_op list \<Rightarrow> (string \<times> bool) list" where
  "claimResults reg [] = []"
| "claimResults reg (Register run # ops) = claimResults (registerSubagentRun reg run) ops"
| "claimResults reg (ClaimAnnounce runId # ops) =
     (case beginSubagentAnnounce reg runId of
        (won, reg') \<Rightarrow> (runId, won) # claimResults reg' ops)"

text \<open>The answers given to the claim calls for one \<open>runId\<close>, in call order.\<close>

definition answersFor :: "string \<Rightarrow> (string \<times> bool) list \<Rightarrow> bool list" where
  "answersFor runId rs = map snd (filter (\<lambda>r. fst r = runId) rs)"

definition claimCalls :: "string \<Rightarrow> registry_op list \<Rightarrow> nat" where
  "claimCalls runId ops = length (filter (\<lambda>op. op = ClaimAnnounce runId) ops)"

section \<open>The world outside the orchestrator\<close>

text \<open>
  Everything the two modelled files (\<^verbatim>\<open>sessions-spawn-tool.ts\<close> and
  \<^verbatim>\<open>subagent-announce.ts\<close>) import from elsewhere is a field of the environment \<open>env\<close>;
  none of it is among the sources. What lies beyond the process (the gateway, the
  session store on disk, the clock, the random source) has a state of an arbitrary type
  \<open>'x\<close>; an operation that touches it takes that state and returns the next one, and
  an operation that can throw returns \<open>Inl\<close> of what it threw.
\<close>

record request =
  rq_method :: string
  rq_params :: "(string \<times> jsval) list"
  rq_timeoutMs :: jsnum

record announce_target =
  tg_provider :: string
  tg_to :: string
  tg_accountId :: "string option"

record agent_step =
  st_sessionKey :: string
  st_message :: string
  st_extraSystemPrompt :: string
  st_timeoutMs :: int
  st_lane :: string

text \<open>
  A session store entry, as far as the usage resolver reads it. A count that is
  \<open>None\<close> fails the test \<^verbatim>\<open>typeof x === "number"\<close>; counts are whole numbers of tokens.
\<close>

record session_entry =
  se_totalTokens :: "int option"
  se_inputTokens :: "int option"
  se_outputTokens :: "int option"
  se_model :: "string option"
  se_modelProvider :: "string option"
  se_sessionId :: "string option"

record model_cost =
  mc_input :: rat
  mc_output :: rat
  mc_cacheRead :: rat
  mc_cacheWrite :: rat

record model_def =
  md_id :: string
  md_cost :: "model_cost option"

text \<open>
  The fields, by the import they stand for:
  \<^item> \<open>callGateway\<close>: the gateway client, one RPC;
  \<^item> \<open>randomUUID\<close>: \<^verbatim>\<open>crypto.randomUUID()\<close>;
  \<^item> \<open>mainKey\<close>, \<open>mainAlias\<close>: \<^verbatim>\<open>resolveMainSessionAlias(loadConfig())\<close>;
  \<^item> \<open>parseAgentSessionKey\<close>: the \<open>agentId\<close> of the parsed key, if it parses;
  \<^item> \<open>sessionStoreCfg\<close>: \<^verbatim>\<open>cfg.session?.store\<close>;
  \<^item> \<open>modelsOfProvider\<close>: \<^verbatim>\<open>cfg.models?.providers?.[provider]?.models ?? []\<close>;
  \<^item> \<open>sleep\<close>: \<^verbatim>\<open>await new Promise((resolve) => setTimeout(resolve, ms))\<close>;
  \<^item> \<open>toFixed\<close>: \<^verbatim>\<open>x.toFixed(d)\<close>, of the double nearest to the quotient it is given;
  \<^item> \<open>numberToString\<close>: \<^verbatim>\<open>String(x)\<close> of a whole number beyond \<open>2^53\<close> in magnitude, which
    is written with the fewest digits that read back as the same double;
  \<^item> \<open>transcriptPathFor\<close>: \<^verbatim>\<open>path.join(path.dirname(storePath), name)\<close>;
  \<^item> \<open>readRequiredStringParam\<close> and \<open>readStringParam\<close>:
    \<^verbatim>\<open>readStringParam(params, key, { required: true })\<close>, which returns a string or throws,
    and \<^verbatim>\<open>readStringParam(params, key)\<close>, which may return \<^verbatim>\<open>undefined\<close>;
  \<^item> \<open>loadConfig\<close>: what \<^verbatim>\<open>loadConfig()\<close> throws, if it throws; what the configuration
    holds is in the fields \<open>mainKey\<close>, \<open>mainAlias\<close>, \<open>sessionStoreCfg\<close> and
    \<open>modelsOfProvider\<close>;
  \<^item> \<open>estimateUsd\<close>: the double that
    \<^verbatim>\<open>(input * costConfig.input + output * costConfig.output) / 1_000_000\<close> evaluates to;
  \<^item> the others carry the name of the function they stand for.
\<close>

record 'x env =
  callGateway :: "request \<Rightarrow> 'x \<Rightarrow> (thrown + jsval) \<times> 'x"
  randomUUID :: "'x \<Rightarrow> string \<times> 'x"
  mainKey :: string
  mainAlias :: string
  isSubagentSessionKey :: "string \<Rightarrow> bool"
  resolveInternalSessionKey :: "string \<Rightarrow> string \<Rightarrow> string \<Rightarrow> string"
  resolveDisplaySessionKey :: "string \<Rightarrow> string \<Rightarrow> string \<Rightarrow> string"
  parseAgentSessionKey :: "string \<Rightarrow> string option"
  normalizeAgentId :: "string option \<Rightarrow> string"
  readLatestAssistantReply :: "string \<Rightarrow> 'x \<Rightarrow> (thrown + string option) \<times> 'x"
  runAgentStep :: "agent_step \<Rightarrow> 'x \<Rightarrow> (thrown + string option) \<times> 'x"
  resolveAnnounceTarget ::
    "string \<Rightarrow> string \<Rightarrow> 'x \<Rightarrow> (thrown + announce_target option) \<times> 'x"
  isAnnounceSkip :: "string \<Rightarrow> bool"
  sessionStoreCfg :: "string option"
  resolveAgentIdFromSessionKey :: "string \<Rightarrow> string"
  resolveStorePath :: "string option \<Rightarrow> string \<Rightarrow> string"
  loadSessionStore :: "string \<Rightarrow> 'x \<Rightarrow> (thrown + (string \<rightharpoonup> session_entry)) \<times> 'x"
  sleep :: "int \<Rightarrow> 'x \<Rightarrow> 'x"
  modelsOfProvider :: "string \<Rightarrow> model_def list"
  toFixed :: "rat \<Rightarrow> nat \<Rightarrow> string"
  numberToString :: "rat \<Rightarrow> string"
  transcriptPathFor :: "string \<Rightarrow> string \<Rightarrow> string"
  readRequiredStringParam :: "(string \<times> jsval) list \<Rightarrow> string \<Rightarrow> thrown + string"
  readStringParam :: "(string \<times> jsval) list \<Rightarrow> string \<Rightarrow> thrown + string option"
  loadConfig :: "'x \<Rightarrow> thrown option"
  estimateUsd :: "int \<Rightarrow> int \<Rightarrow> model_cost \<Rightarrow> jsnum"

text \<open>The parameters of one detached announce flow (\<^verbatim>\<open>runSubagentAnnounceFlow\<close>).\<close>

record announce_params =
  ap_childSessionKey :: string
  ap_childRunId :: string
  ap_requesterSessionKey :: string
  ap_requesterProvider :: "string option"
  ap_requesterDisplayKey :: string
  ap_task :: string
  ap_timeoutMs :: int
  ap_cleanup :: cleanup_policy
  ap_roundOneReply :: "string option"
  ap_waitForCompletion :: "bool option"
  ap_startedAt :: "jsnum option"
  ap_endedAt :: "jsnum option"

text \<open>
  The state the model threads through. \<open>calls\<close> is the log of the \<^verbatim>\<open>callGateway\<close>
  invocations written in the two modelled files, each with how it settled (what it
  returned, or what it threw), oldest first. Every one of them is awaited, so a call
  has settled before the statement after it runs: the log lists the calls in the order
  in which they were issued and in which they settled. What a helper of another file
  does on the gateway is part of that helper's effect on \<open>ext\<close>. \<open>steps\<close> logs the
  \<^verbatim>\<open>runAgentStep\<close> invocations in the same way. \<open>detached\<close> lists the announce flows
  started with \<^verbatim>\<open>void runSubagentAnnounceFlow(...)\<close>. \<open>timeline\<close> logs the reads of the
  session store and the delays between them. \<open>registryOps\<close> logs the calls of
  \<^verbatim>\<open>registerSubagentRun\<close> and \<^verbatim>\<open>beginSubagentAnnounce\<close> written in the modelled files,
  oldest first: \<open>registry\<close> is the state they act on, the log is what this code did to
  it, whatever else may act on the registry between two of its steps.
\<close>

datatype poll_event = StoreRead string | Delay int

type_synonym gateway_call = "request \<times> (thrown + jsval)"

record 'x world =
  ext :: 'x
  calls :: "gateway_call list"
  steps :: "(agent_step \<times> (thrown + string option)) list"
  registry :: registry
  detached :: "announce_params list"
  timeline :: "poll_event list"
  registryOps :: "registry_op list"

definition outside :: "('x \<Rightarrow> 'a \<times> 'x) \<Rightarrow> 'x world \<Rightarrow> 'a \<times> 'x world" where
  "outside f w = (case f (ext w) of (a, x) \<Rightarrow> (a, w\<lparr>ext := x\<rparr>))"

definition gatewayCall :: "'x env \<Rightarrow> request \<Rightarrow> 'x world \<Rightarrow> (thrown + jsval) \<times> 'x world" where
  "gatewayCall env req w =
     (case callGateway env req (ext w) of
        (r, x) \<Rightarrow> (r, w\<lparr>ext := x, calls := calls w @ [(req, r)]\<rparr>))"

definition agentStep ::
  "'x env \<Rightarrow> agent_step \<Rightarrow> 'x world \<Rightarrow> (thrown + string option) \<times> 'x world" where
  "agentStep env st w =
     (case runAgentStep env st (ext w) of
        (r, x) \<Rightarrow> (r, w\<lparr>ext := x, steps := steps w @ [(st, r)]\<rparr>))"

text \<open>
  What was logged between an earlier world and a later one, and the methods of a list
  of logged calls.
\<close>

definition newCalls :: "'x world \<Rightarrow> 'x world \<Rightarrow> gateway_call list" where
  "newCalls w w' = drop (length (calls w)) (calls w')"


definition newTimeline :: "'x world \<Rightarrow> 'x world \<Rightarrow> poll_event list" where
  "newTimeline w w' = drop (length (timeline w)) (timeline w')"



definition methods :: "gateway_call list \<Rightarrow> string list" where
  "methods cs = map (\<lambda>c. rq_method (fst c)) cs"

definition jsInt :: "int \<Rightarrow> jsval" where
  "jsInt i = JNum (Finite (of_int i))"

section \<open>Spawn Orchestrator: \<^verbatim>\<open>createSessionsSpawnTool(opts).execute\<close>\<close>

record spawn_opts =
  agentSessionKey :: "string option"
  agentProvider :: "string option"
  sandboxed :: "bool option"

text \<open>
  The tool arguments, once they are read (\<open>readArgs\<close> below). \<open>a_task\<close> and \<open>a_model\<close>
  are what \<^verbatim>\<open>readStringParam(params, "task", { required: true })\<close> and
  \<^verbatim>\<open>readStringParam(params, "model")\<close> returned (that helper is in another file); the
  other three are the raw values the orchestrator coerces itself.
\<close>

record spawn_args =
  a_task :: string
  a_label :: jsval
  a_model :: "string option"
  a_timeoutSeconds :: jsval
  a_cleanup :: jsval

text \<open>The object handed to \<^verbatim>\<open>jsonResult\<close>; an absent property is \<open>None\<close>.\<close>

record spawn_result =
  res_status :: string
  res_error :: "string option"
  res_childSessionKey :: "string option"
  res_runId :: "string option"
  res_reply :: "string option"
  res_modelApplied :: "bool option"
  res_warning :: "string option"

text \<open>Lines 53 to 64: the coercions of \<open>label\<close>, \<open>cleanup\<close> and \<open>timeoutSeconds\<close>.\<close>

definition labelOf :: "jsval \<Rightarrow> string" where
  "labelOf v = (case v of JStr s \<Rightarrow> trim s | _ \<Rightarrow> [])"

definition cleanupOf :: "jsval \<Rightarrow> cleanup_policy" where
  "cleanupOf v = (if v = JStr ''delete'' then Delete else Keep)"

definition timeoutSecondsOf :: "jsval \<Rightarrow> int" where
  "timeoutSecondsOf v = (case v of JNum (Finite q) \<Rightarrow> max 0 \<lfloor>q\<rfloor> | _ \<Rightarrow> 0)"

text \<open>The requests the orchestrator and the announce flow send.\<close>

definition spawnedByPatch :: "string \<Rightarrow> string \<Rightarrow> request" where
  "spawnedByPatch childSessionKey requesterInternalKey =
     \<lparr>rq_method = ''sessions.patch'',
      rq_params = [(''key'', JStr childSessionKey), (''spawnedBy'', JStr requesterInternalKey)],
      rq_timeoutMs = Finite 10000\<rparr>"

definition modelPatch :: "string \<Rightarrow> string \<Rightarrow> request" where
  "modelPatch childSessionKey model =
     \<lparr>rq_method = ''sessions.patch'',
      rq_params = [(''key'', JStr childSessionKey), (''model'', JStr model)],
      rq_timeoutMs = Finite 10000\<rparr>"

definition agentStart :: "string \<Rightarrow> string \<Rightarrow> string \<Rightarrow> string \<Rightarrow> request" where
  "agentStart task childSessionKey childIdem childSystemPrompt =
     \<lparr>rq_method = ''agent'',
      rq_params = [(''message'', JStr task), (''sessionKey'', JStr childSessionKey),
                   (''idempotencyKey'', JStr childIdem), (''deliver'', JBool False),
                   (''lane'', JStr ''subagent''),
                   (''extraSystemPrompt'', JStr childSystemPrompt)],
      rq_timeoutMs = Finite 10000\<rparr>"

text \<open>
  The \<^verbatim>\<open>agent.wait\<close> request of lines 201 to 207 and of lines 550 to 557:
  \<^verbatim>\<open>params: { runId, timeoutMs }\<close> and \<^verbatim>\<open>timeoutMs: timeoutMs + 2000\<close>, the sum being a
  sum of doubles. \<open>agentWait\<close> is the request for a \<open>timeoutMs\<close> that is a whole number
  of milliseconds.
\<close>

definition agentWaitFor :: "string \<Rightarrow> jsnum \<Rightarrow> request" where
  "agentWaitFor childRunId timeoutMs =
     \<lparr>rq_method = ''agent.wait'',
      rq_params = [(''runId'', JStr childRunId), (''timeoutMs'', JNum timeoutMs)],
      rq_timeoutMs = jsAddInt timeoutMs 2000\<rparr>"

definition agentWait :: "string \<Rightarrow> int \<Rightarrow> request" where
  "agentWait childRunId waitMs = agentWaitFor childRunId (Finite (of_int waitMs))"

definition chatAbort :: "string \<Rightarrow> string \<Rightarrow> request" where
  "chatAbort childSessionKey childRunId =
     \<lparr>rq_method = ''chat.abort'',
      rq_params = [(''sessionKey'', JStr childSessionKey), (''runId'', JStr childRunId)],
      rq_timeoutMs = Finite 5000\<rparr>"

definition sendMessage :: "announce_target \<Rightarrow> string \<Rightarrow> string \<Rightarrow> request" where
  "sendMessage target message idem =
     \<lparr>rq_method = ''send'',
      rq_params = [(''to'', JStr (tg_to target)), (''message'', JStr message),
                   (''provider'', JStr (tg_provider target)),
                   (''accountId'',
                      (case tg_accountId target of None \<Rightarrow> JUndefined | Some a \<Rightarrow> JStr a)),
                   (''idempotencyKey'', JStr idem)],
      rq_timeoutMs = Finite 10000\<rparr>"

definition sessionsDelete :: "string \<Rightarrow> request" where
  "sessionsDelete childSessionKey =
     \<lparr>rq_method = ''sessions.delete'',
      rq_params = [(''key'', JStr childSessionKey), (''deleteTranscript'', JBool True)],
      rq_timeoutMs = Finite 10000\<rparr>"

text \<open>\<^verbatim>\<open>lines.filter(Boolean)\<close>: the lines that are defined and not empty.\<close>

fun keepTruthy :: "string option list \<Rightarrow> string list" where
  "keepTruthy [] = []"
| "keepTruthy (None # ls) = keepTruthy ls"
| "keepTruthy (Some l # ls) = (if l = [] then keepTruthy ls else l # keepTruthy ls)"

definition newline :: string where
  "newline = [CHR 0x0A]"

definition buildSubagentSystemPrompt ::
  "string option \<Rightarrow> string option \<Rightarrow> string \<Rightarrow> string option \<Rightarrow> string" where
  "buildSubagentSystemPrompt requesterSessionKey requesterProvider childSessionKey label =
     joinWith newline (keepTruthy
       [Some ''Sub-agent context:'',
        (case label of
           Some l \<Rightarrow> if l \<noteq> [] then Some (''Label: '' @ l) else None
         | None \<Rightarrow> None),
        (case requesterSessionKey of
           Some k \<Rightarrow> if k \<noteq> [] then Some (''Requester session: '' @ k @ ''.'') else None
         | None \<Rightarrow> None),
        (case requesterProvider of
           Some v \<Rightarrow> if v \<noteq> [] then Some (''Requester provider: '' @ v @ ''.'') else None
         | None \<Rightarrow> None),
        Some (''Your session: '' @ childSessionKey @ ''.''),
        Some ''Run the task. Provide a clear final answer (plain text).'',
        Some (''After you finish, you may be asked to produce an '' @ [CHR 0x22] @ ''announce''
              @ [CHR 0x22] @ '' message to post back to the requester chat.'')])"

text \<open>Lines 75 to 78: the result of a spawn requested from a sub-agent session.\<close>

definition forbiddenResult :: spawn_result where
  "forbiddenResult =
     \<lparr>res_status = ''forbidden'',
      res_error = Some ''sessions_spawn is not allowed from sub-agent sessions'',
      res_childSessionKey = None, res_runId = None, res_reply = None,
      res_modelApplied = None, res_warning = None\<rparr>"

text \<open>
  Lines 80 to 107: the requester's keys, the fresh child session key, and in a sandbox
  the best-effort patch that records who spawned the child.
\<close>

record spawn_ctx =
  cx_requesterInternalKey :: string
  cx_requesterDisplayKey :: string
  cx_childSessionKey :: string

definition spawnPrepare :: "'x env \<Rightarrow> spawn_opts \<Rightarrow> 'x world \<Rightarrow> spawn_ctx \<times> 'x world" where
  "spawnPrepare env opts w =
     (let requesterInternalKey =
            (case agentSessionKey opts of
               Some k \<Rightarrow>
                 if k \<noteq> [] then resolveInternalSessionKey env k (mainAlias env) (mainKey env)
                 else mainAlias env
             | None \<Rightarrow> mainAlias env);
          requesterDisplayKey =
            resolveDisplaySessionKey env requesterInternalKey (mainAlias env) (mainKey env);
          requesterAgentId = normalizeAgentId env (parseAgentSessionKey env requesterInternalKey)
      in case outside (randomUUID env) w of
           (uuid, w1) \<Rightarrow>
             let childSessionKey = ''agent:'' @ requesterAgentId @ '':subagent:'' @ uuid;
                 cx = \<lparr>cx_requesterInternalKey = requesterInternalKey,
                       cx_requesterDisplayKey = requesterDisplayKey,
                       cx_childSessionKey = childSessionKey\<rparr>
             in if sandboxed opts = Some True
                then (case gatewayCall env (spawnedByPatch childSessionKey requesterInternalKey) w1 of
                        (outcome, w2) \<Rightarrow> (cx, w2))
                else (cx, w1))"

text \<open>
  Lines 108 to 135: the model override. \<open>Inl\<close> is the result returned at line 127;
  \<open>Inr\<close> carries \<open>modelApplied\<close> and \<open>modelWarning\<close> on to the run start.
\<close>

definition recoverable :: "string \<Rightarrow> bool" where
  "recoverable msg =
     (includesStr msg ''invalid model'' \<or> includesStr msg ''model not allowed'')"

definition spawnApplyModel ::
  "'x env \<Rightarrow> string option \<Rightarrow> string \<Rightarrow> 'x world
     \<Rightarrow> (spawn_result + bool \<times> string option) \<times> 'x world" where
  "spawnApplyModel env model childSessionKey w =
     (case model of
        None \<Rightarrow> (Inr (False, None), w)
      | Some m \<Rightarrow>
          if m = [] then (Inr (False, None), w)
          else (case gatewayCall env (modelPatch childSessionKey m) w of
                  (Inr ack, w1) \<Rightarrow> (Inr (True, None), w1)
                | (Inl err, w1) \<Rightarrow>
                    if \<not> recoverable (messageText err)
                    then (Inl \<lparr>res_status = ''error'', res_error = Some (messageText err),
                               res_childSessionKey = Some childSessionKey, res_runId = None,
                               res_reply = None, res_modelApplied = None,
                               res_warning = None\<rparr>, w1)
                    else (Inr (False, Some (messageText err)), w1)))"

text \<open>
  Lines 136 to 174: the run start. \<open>Inl\<close> is the result returned at line 168; \<open>Inr\<close> is
  \<open>childRunId\<close>, the gateway's \<open>runId\<close> when it is a non-empty string and the idempotency
  key otherwise.
\<close>

definition spawnStartRun ::
  "'x env \<Rightarrow> spawn_opts \<Rightarrow> string \<Rightarrow> string \<Rightarrow> string \<Rightarrow> 'x world
     \<Rightarrow> (spawn_result + string) \<times> 'x world" where
  "spawnStartRun env opts task label childSessionKey w =
     (let childSystemPrompt =
            buildSubagentSystemPrompt (agentSessionKey opts) (agentProvider opts) childSessionKey
              (if label \<noteq> [] then Some label else None)
      in case outside (randomUUID env) w of
           (childIdem, w1) \<Rightarrow>
             (case gatewayCall env (agentStart task childSessionKey childIdem childSystemPrompt) w1 of
                (Inr response, w2) \<Rightarrow>
                  (Inr (case asString (getProp response ''runId'') of
                          Some r \<Rightarrow> if r \<noteq> [] then r else childIdem
                        | None \<Rightarrow> childIdem), w2)
              | (Inl err, w2) \<Rightarrow>
                  (Inl \<lparr>res_status = ''error'', res_error = Some (messageText err),
                        res_childSessionKey = Some childSessionKey, res_runId = Some childIdem,
                        res_reply = None, res_modelApplied = None, res_warning = None\<rparr>, w2)))"

text \<open>
  Lines 196 to 233: the bounded wait. \<open>Inl\<close> is the result returned at line 227, when
  the call itself failed; \<open>Inr\<close> is what was read from the gateway's answer.
\<close>

record wait_info =
  wi_status :: "string option"
  wi_error :: "string option"
  wi_startedAt :: "jsnum option"
  wi_endedAt :: "jsnum option"

definition spawnAwait ::
  "'x env \<Rightarrow> string \<Rightarrow> string \<Rightarrow> jsnum \<Rightarrow> 'x world \<Rightarrow> (spawn_result + wait_info) \<times> 'x world" where
  "spawnAwait env childSessionKey childRunId timeoutMs w =
     (case gatewayCall env (agentWaitFor childRunId timeoutMs) w of
        (Inr wait, w1) \<Rightarrow>
          (Inr \<lparr>wi_status = asString (getProp wait ''status''),
                wi_error = asString (getProp wait ''error''),
                wi_startedAt = asNumber (getProp wait ''startedAt''),
                wi_endedAt = asNumber (getProp wait ''endedAt'')\<rparr>, w1)
      | (Inl err, w1) \<Rightarrow>
          (Inl \<lparr>res_status =
                  (if includesStr (messageText err) ''gateway timeout'' then ''timeout''
                   else ''error''),
                res_error = Some (messageText err),
                res_childSessionKey = Some childSessionKey, res_runId = Some childRunId,
                res_reply = None, res_modelApplied = None, res_warning = None\<rparr>, w1))"

text \<open>
  Lines 235 to 292: after the wait returned. On \<open>timeout\<close> a best-effort abort, on
  \<open>error\<close> an error result; otherwise the reply is read (outside any \<^verbatim>\<open>try\<close>: what the
  read throws leaves \<open>execute\<close>), the announce gate is tried, and the flow is detached
  only if the gate was won.
\<close>

definition spawnComplete ::
  "'x env \<Rightarrow> spawn_opts \<Rightarrow> spawn_ctx \<Rightarrow> string \<Rightarrow> cleanup_policy \<Rightarrow> bool option
     \<Rightarrow> string option \<Rightarrow> string \<Rightarrow> wait_info \<Rightarrow> 'x world
     \<Rightarrow> (thrown + spawn_result) \<times> 'x world" where
  "spawnComplete env opts cx task cleanup modelStatus modelWarning childRunId wi w =
     (if wi_status wi = Some ''timeout'' then
        (case gatewayCall env (chatAbort (cx_childSessionKey cx) childRunId) w of
           (outcome, w1) \<Rightarrow>
             (Inr \<lparr>res_status = ''timeout'', res_error = wi_error wi,
                   res_childSessionKey = Some (cx_childSessionKey cx),
                   res_runId = Some childRunId, res_reply = None,
                   res_modelApplied = modelStatus, res_warning = modelWarning\<rparr>, w1))
      else if wi_status wi = Some ''error'' then
        (Inr \<lparr>res_status = ''error'',
              res_error = (case wi_error wi of Some e \<Rightarrow> Some e | None \<Rightarrow> Some ''agent error''),
              res_childSessionKey = Some (cx_childSessionKey cx),
              res_runId = Some childRunId, res_reply = None,
              res_modelApplied = modelStatus, res_warning = modelWarning\<rparr>, w)
      else
        (case outside (readLatestAssistantReply env (cx_childSessionKey cx)) w of
           (Inl err, w1) \<Rightarrow> (Inl err, w1)
         | (Inr replyText, w1) \<Rightarrow>
             (case beginSubagentAnnounce (registry w1) childRunId of
                (won, reg) \<Rightarrow>
                  (Inr \<lparr>res_status = ''ok'', res_error = None,
                        res_childSessionKey = Some (cx_childSessionKey cx),
                        res_runId = Some childRunId, res_reply = replyText,
                        res_modelApplied = modelStatus, res_warning = modelWarning\<rparr>,
                   if won
                   then w1\<lparr>registry := reg,
                           registryOps := registryOps w1 @ [ClaimAnnounce childRunId],
                           detached := detached w1 @
                             [\<lparr>ap_childSessionKey = cx_childSessionKey cx,
                               ap_childRunId = childRunId,
                               ap_requesterSessionKey = cx_requesterInternalKey cx,
                               ap_requesterProvider = agentProvider opts,
                               ap_requesterDisplayKey = cx_requesterDisplayKey cx,
                               ap_task = task, ap_timeoutMs = 30000, ap_cleanup = cleanup,
                               ap_roundOneReply = replyText, ap_waitForCompletion = None,
                               ap_startedAt = wi_startedAt wi,
                               ap_endedAt = wi_endedAt wi\<rparr>]\<rparr>
                   else w1\<lparr>registry := reg,
                           registryOps := registryOps w1 @ [ClaimAnnounce childRunId]\<rparr>))))"

text \<open>
  Lines 80 to 292, everything after the guard against nested spawning: prepare, apply
  the model, start the run, register it (lines 176 to 184), return at once when
  \<open>timeoutSeconds\<close> is 0 (lines 186 to 194), otherwise wait and complete.
\<close>

definition spawnRun ::
  "'x env \<Rightarrow> spawn_opts \<Rightarrow> spawn_args \<Rightarrow> 'x world \<Rightarrow> (thrown + spawn_result) \<times> 'x world" where
  "spawnRun env opts args w =
     (let task = a_task args;
          label = labelOf (a_label args);
          model = a_model args;
          cleanup = cleanupOf (a_cleanup args);
          timeoutSeconds = timeoutSecondsOf (a_timeoutSeconds args);
          timeoutMs = dbl (timeoutSeconds * 1000)
      in case spawnPrepare env opts w of
           (cx, w1) \<Rightarrow>
             (case spawnApplyModel env model (cx_childSessionKey cx) w1 of
                (Inl res, w2) \<Rightarrow> (Inr res, w2)
              | (Inr (modelApplied, modelWarning), w2) \<Rightarrow>
                  (case spawnStartRun env opts task label (cx_childSessionKey cx) w2 of
                     (Inl res, w3) \<Rightarrow> (Inr res, w3)
                   | (Inr childRunId, w3) \<Rightarrow>
                       let run = \<lparr>run_runId = childRunId,
                                  run_childSessionKey = cx_childSessionKey cx,
                                  run_requesterSessionKey = cx_requesterInternalKey cx,
                                  run_requesterProvider = agentProvider opts,
                                  run_requesterDisplayKey = cx_requesterDisplayKey cx,
                                  run_task = task, run_cleanup = cleanup\<rparr>;
                           w4 = w3\<lparr>registry := registerSubagentRun (registry w3) run,
                                  registryOps := registryOps w3 @ [Register run]\<rparr>;
                           modelStatus = (if truthy model then Some modelApplied else None)
                       in if timeoutSeconds = 0
                          then (Inr \<lparr>res_status = ''accepted'', res_error = None,
                                     res_childSessionKey = Some (cx_childSessionKey cx),
                                     res_runId = Some childRunId, res_reply = None,
                                     res_modelApplied = modelStatus,
                                     res_warning = modelWarning\<rparr>, w4)
                          else (case spawnAwait env (cx_childSessionKey cx) childRunId timeoutMs w4 of
                                  (Inl res, w5) \<Rightarrow> (Inr res, w5)
                                | (Inr wi, w5) \<Rightarrow>
                                    spawnComplete env opts cx task cleanup modelStatus
                                      modelWarning childRunId wi w5))))"

text \<open>
  \<^verbatim>\<open>execute\<close> from the guard of line 70 on, to line 292, entered with the parameters
  read at lines 51 to 63 and the configuration loaded at lines 68 and 69: what the
  function does once those lines have not thrown. \<open>Inr\<close> is the result it returns,
  \<open>Inl\<close> what it throws.
\<close>

definition execute ::
  "'x env \<Rightarrow> spawn_opts \<Rightarrow> spawn_args \<Rightarrow> 'x world \<Rightarrow> (thrown + spawn_result) \<times> 'x world" where
  "execute env opts args w =
     (if (case agentSessionKey opts of Some k \<Rightarrow> isSubagentSessionKey env k | None \<Rightarrow> False)
      then (Inr forbiddenResult, w)
      else spawnRun env opts args w)"

text \<open>
  Lines 51 to 63: the parameters are read. \<open>task\<close> and \<open>model\<close> go through
  \<^verbatim>\<open>readStringParam\<close>, which may throw (line 52 asks for a required parameter);
  \<open>label\<close>, \<open>cleanup\<close> and \<open>timeoutSeconds\<close> are taken as they are found and coerced where
  they are used.
\<close>

definition readArgs :: "'x env \<Rightarrow> (string \<times> jsval) list \<Rightarrow> thrown + spawn_args" where
  "readArgs env params =
     (case readRequiredStringParam env params ''task'' of
        Inl err \<Rightarrow> Inl err
      | Inr task \<Rightarrow>
          (case readStringParam env params ''model'' of
             Inl err \<Rightarrow> Inl err
           | Inr model \<Rightarrow>
               Inr \<lparr>a_task = task, a_label = getProp (JObj params) ''label'', a_model = model,
                    a_timeoutSeconds = getProp (JObj params) ''timeoutSeconds'',
                    a_cleanup = getProp (JObj params) ''cleanup''\<rparr>))"

text \<open>
  The tool \<open>sessions_spawn\<close> as it is called,
  \<^verbatim>\<open>createSessionsSpawnTool(opts).execute(toolCallId, args)\<close>: the whole of \<^verbatim>\<open>execute\<close>,
  lines 50 to 293, on the raw parameters. What reading the parameters or loading the
  configuration throws leaves the function, before the guard of line 71 is reached.
\<close>

definition sessions_spawn ::
  "'x env \<Rightarrow> spawn_opts \<Rightarrow> (string \<times> jsval) list \<Rightarrow> 'x world
     \<Rightarrow> (thrown + spawn_result) \<times> 'x world" where
  "sessions_spawn env opts params w =
     (case readArgs env params of
        Inl err \<Rightarrow> (Inl err, w)
      | Inr args \<Rightarrow>
          (case loadConfig env (ext w) of
             Some err \<Rightarrow> (Inl err, w)
           | None \<Rightarrow> execute env opts args w))"

section \<open>Usage Resolver: \<^verbatim>\<open>waitForSessionUsage\<close> and \<^verbatim>\<open>buildSubagentStatsLine\<close>\<close>

text \<open>\<^verbatim>\<open>formatDurationShort\<close>; \<^verbatim>\<open>Math.round\<close> of a positive number is \<open>\<lfloor>x + 1/2\<rfloor>\<close>.\<close>

definition formatDurationShort :: "jsnum option \<Rightarrow> string option" where
  "formatDurationShort valueMs =
     (case valueMs of
        Some (Finite q) \<Rightarrow>
          if q \<le> 0 then None
          else
            (let totalSeconds = \<lfloor>q / 1000 + 1 / 2\<rfloor>;
                 hours = totalSeconds div 3600;
                 minutes = (totalSeconds mod 3600) div 60;
                 seconds = totalSeconds mod 60
             in Some (if hours > 0 then showInt hours @ ''h'' @ showInt minutes @ ''m''
                      else if minutes > 0 then showInt minutes @ ''m'' @ showInt seconds @ ''s''
                      else showInt seconds @ ''s''))
      | _ \<Rightarrow> None)"

text \<open>
  \<^verbatim>\<open>formatTokenCount\<close>, of a value that is a number; \<^verbatim>\<open>Math.round(x)\<close> is
  \<open>\<lfloor>x + 1/2\<rfloor>\<close>, and \<^verbatim>\<open>String\<close> writes a whole number of magnitude up to \<open>2^53\<close> with
  all its digits. A double below \<open>- 2^53\<close> is a whole number already.
\<close>

definition formatTokenCount :: "'x env \<Rightarrow> jsnum \<Rightarrow> string" where
  "formatTokenCount env v =
     (case v of
        Finite q \<Rightarrow>
          if q = 0 then ''0''
          else if q \<ge> 1000000 then toFixed env (q / 1000000) 1 @ ''m''
          else if q \<ge> 1000 then toFixed env (q / 1000) 1 @ ''k''
          else if q \<ge> - 9007199254740992 then showInt \<lfloor>q + 1 / 2\<rfloor>
          else numberToString env q
      | _ \<Rightarrow> ''0'')"

text \<open>
  \<^verbatim>\<open>formatUsd\<close>. The literal \<^verbatim>\<open>0.01\<close> is the double \<open>5764607523034235 / 2^59\<close>.
\<close>

definition formatUsd :: "'x env \<Rightarrow> jsnum option \<Rightarrow> string option" where
  "formatUsd env v =
     (case v of
        Some (Finite c) \<Rightarrow>
          Some (if c \<ge> 1 then ''$'' @ toFixed env c 2
                else if c \<ge> 5764607523034235 / 576460752303423488 then ''$'' @ toFixed env c 2
                else ''$'' @ toFixed env c 4)
      | _ \<Rightarrow> None)"

definition resolveModelCost :: "'x env \<Rightarrow> string option \<Rightarrow> string option \<Rightarrow> model_cost option" where
  "resolveModelCost env provider model =
     (case (map_option trim provider, map_option trim model) of
        (Some pr, Some m) \<Rightarrow>
          if pr = [] \<or> m = [] then None
          else (case find (\<lambda>candidate. md_id candidate = m) (modelsOfProvider env pr) of
                  Some e \<Rightarrow> md_cost e
                | None \<Rightarrow> None)
      | _ \<Rightarrow> None)"

text \<open>\<^verbatim>\<open>hasTokens\<close>: the entry exists and one of its three counts is a number.\<close>

definition hasTokens :: "session_entry option \<Rightarrow> bool" where
  "hasTokens entry =
     (case entry of
        None \<Rightarrow> False
      | Some e \<Rightarrow> se_totalTokens e \<noteq> None \<or> se_inputTokens e \<noteq> None \<or> se_outputTokens e \<noteq> None)"

text \<open>One read of the store, \<^verbatim>\<open>loadSessionStore(storePath)[sessionKey]\<close>, and one delay.\<close>

definition readEntry ::
  "'x env \<Rightarrow> string \<Rightarrow> string \<Rightarrow> 'x world \<Rightarrow> (thrown + session_entry option) \<times> 'x world" where
  "readEntry env storePath sessionKey w =
     (case loadSessionStore env storePath (ext w) of
        (r, x) \<Rightarrow>
          ((case r of Inl err \<Rightarrow> Inl err | Inr store \<Rightarrow> Inr (store sessionKey)),
           w\<lparr>ext := x, timeline := timeline w @ [StoreRead storePath]\<rparr>))"

definition pause :: "'x env \<Rightarrow> int \<Rightarrow> 'x world \<Rightarrow> 'x world" where
  "pause env ms w = w\<lparr>ext := sleep env ms (ext w), timeline := timeline w @ [Delay ms]\<rparr>"

text \<open>
  The loop \<^verbatim>\<open>for (let attempt = 0; attempt < 4; attempt += 1)\<close> of
  \<^verbatim>\<open>waitForSessionUsage\<close>, entered at \<open>attempt\<close> with the entry read last.
\<close>

function pollUsage ::
  "'x env \<Rightarrow> string \<Rightarrow> string \<Rightarrow> nat \<Rightarrow> session_entry option \<Rightarrow> 'x world
     \<Rightarrow> (thrown + session_entry option) \<times> 'x world" where
  "pollUsage env storePath sessionKey attempt entry w =
     (if attempt < 4 then
        (case readEntry env storePath sessionKey (pause env 200 w) of
           (Inl err, w1) \<Rightarrow> (Inl err, w1)
         | (Inr entry', w1) \<Rightarrow>
             if hasTokens entry' then (Inr entry', w1)
             else pollUsage env storePath sessionKey (attempt + 1) entry' w1)
      else (Inr entry, w))"
  by pat_completeness auto
termination
  by (relation "measure (\<lambda>(env, storePath, sessionKey, attempt, entry, w). 4 - attempt)") auto

declare pollUsage.simps [simp del]

definition storePathOf :: "'x env \<Rightarrow> string \<Rightarrow> string" where
  "storePathOf env sessionKey =
     resolveStorePath env (sessionStoreCfg env) (resolveAgentIdFromSessionKey env sessionKey)"

definition waitForSessionUsage ::
  "'x env \<Rightarrow> string \<Rightarrow> 'x world \<Rightarrow> (thrown + session_entry option \<times> string) \<times> 'x world" where
  "waitForSessionUsage env sessionKey w =
     (case loadConfig env (ext w) of
        Some err \<Rightarrow> (Inl err, w)
      | None \<Rightarrow>
          (let storePath = storePathOf env sessionKey
           in case readEntry env storePath sessionKey w of
                (Inl err, w1) \<Rightarrow> (Inl err, w1)
              | (Inr entry, w1) \<Rightarrow>
                  if entry = None then (Inr (entry, storePath), w1)
                  else if hasTokens entry then (Inr (entry, storePath), w1)
                  else (case pollUsage env storePath sessionKey 0 entry w1 of
                          (Inl err, w2) \<Rightarrow> (Inl err, w2)
                        | (Inr entry', w2) \<Rightarrow> (Inr (entry', storePath), w2))))"

text \<open>
  The reads of the store in the order the resolver makes them, for as long as it goes
  on reading: read 0 is the one of line 410, and read \<open>k + 1\<close> follows read \<open>k\<close> after
  200 ms (lines 419 and 420). \<open>storeRead env storePath sessionKey k w\<close> is what read \<open>k\<close>
  finds and the world after it.
\<close>

fun storeRead ::
  "'x env \<Rightarrow> string \<Rightarrow> string \<Rightarrow> nat \<Rightarrow> 'x world
     \<Rightarrow> (thrown + session_entry option) \<times> 'x world" where
  "storeRead env storePath sessionKey 0 w = readEntry env storePath sessionKey w"
| "storeRead env storePath sessionKey (Suc k) w =
     readEntry env storePath sessionKey
       (pause env 200 (snd (storeRead env storePath sessionKey k w)))"

declare storeRead.simps [simp del]

text \<open>\<^verbatim>\<open>endedAt - startedAt\<close> and \<^verbatim>\<open>Math.max(0, x)\<close> on numbers.\<close>

fun jsSub :: "jsnum \<Rightarrow> jsnum \<Rightarrow> jsnum" where
  "jsSub (Finite a) (Finite b) = Finite (a - b)"
| "jsSub NaN y = NaN"
| "jsSub x NaN = NaN"
| "jsSub PosInfinity PosInfinity = NaN"
| "jsSub NegInfinity NegInfinity = NaN"
| "jsSub PosInfinity y = PosInfinity"
| "jsSub NegInfinity y = NegInfinity"
| "jsSub (Finite a) PosInfinity = NegInfinity"
| "jsSub (Finite a) NegInfinity = PosInfinity"

fun jsMax0 :: "jsnum \<Rightarrow> jsnum" where
  "jsMax0 (Finite a) = Finite (max 0 a)"
| "jsMax0 NaN = NaN"
| "jsMax0 PosInfinity = PosInfinity"
| "jsMax0 NegInfinity = Finite 0"

definition bullet :: string where
  "bullet = [CHR 0x20, CHR 0xE2, CHR 0x80, CHR 0xA2, CHR 0x20]"

text \<open>
  Lines 442 to 447: \<open>total\<close> is the entry's \<open>totalTokens\<close>, or else the sum (of two
  doubles) of its \<open>inputTokens\<close> and \<open>outputTokens\<close> when both are numbers.
\<close>

definition tokenTotal :: "session_entry option \<Rightarrow> jsnum option" where
  "tokenTotal entry =
     (case Option.bind entry se_totalTokens of
        Some t \<Rightarrow> Some (Finite (of_int t))
      | None \<Rightarrow>
          (case (Option.bind entry se_inputTokens, Option.bind entry se_outputTokens) of
             (Some i, Some out) \<Rightarrow> Some (dbl (i + out))
           | _ \<Rightarrow> None))"

text \<open>Lines 463 to 473: the token part of the summary.\<close>

definition tokensPart :: "'x env \<Rightarrow> jsnum option \<Rightarrow> int option \<Rightarrow> int option \<Rightarrow> string" where
  "tokensPart env totalTokens input output =
     (case totalTokens of
        Some t \<Rightarrow>
          ''tokens '' @ formatTokenCount env t
            @ '' (in ''
            @ (case input of
                 Some i \<Rightarrow> formatTokenCount env (Finite (of_int i)) | None \<Rightarrow> ''n/a'')
            @ '' / out ''
            @ (case output of
                 Some out \<Rightarrow> formatTokenCount env (Finite (of_int out)) | None \<Rightarrow> ''n/a'')
            @ '')''
      | None \<Rightarrow> ''tokens n/a'')"

text \<open>
  Lines 436 to 481 of \<^verbatim>\<open>buildSubagentStatsLine\<close>: the parts of the summary, from the
  entry and store path that \<^verbatim>\<open>waitForSessionUsage\<close> returned.
\<close>

definition statsParts ::
  "'x env \<Rightarrow> string \<Rightarrow> jsnum option \<Rightarrow> jsnum option \<Rightarrow> session_entry option \<Rightarrow> string
     \<Rightarrow> string list" where
  "statsParts env sessionKey startedAt endedAt entry storePath =
     (let sessionId = Option.bind entry se_sessionId;
          transcriptPath =
            (case sessionId of
               Some sid \<Rightarrow>
                 if sid \<noteq> [] \<and> storePath \<noteq> []
                 then Some (transcriptPathFor env storePath (sid @ ''.jsonl''))
                 else None
             | None \<Rightarrow> None);
          input = Option.bind entry se_inputTokens;
          output = Option.bind entry se_outputTokens;
          total = tokenTotal entry;
          runtimeMs =
            (case (startedAt, endedAt) of
               (Some s, Some e) \<Rightarrow> Some (jsMax0 (jsSub e s))
             | _ \<Rightarrow> None);
          costConfig =
            resolveModelCost env (Option.bind entry se_modelProvider) (Option.bind entry se_model);
          cost =
            (case (costConfig, input, output) of
               (Some c, Some i, Some out) \<Rightarrow> Some (estimateUsd env i out c)
             | _ \<Rightarrow> None)
      in [''runtime '' @ (case formatDurationShort runtimeMs of Some r \<Rightarrow> r | None \<Rightarrow> ''n/a'')]
         @ [tokensPart env total input output]
         @ (case formatUsd env cost of
              Some costText \<Rightarrow> if costText \<noteq> [] then [''est '' @ costText] else []
            | None \<Rightarrow> [])
         @ [''sessionKey '' @ sessionKey]
         @ (case sessionId of
              Some sid \<Rightarrow> if sid \<noteq> [] then [''sessionId '' @ sid] else []
            | None \<Rightarrow> [])
         @ (case transcriptPath of
              Some tp \<Rightarrow> if tp \<noteq> [] then [''transcript '' @ tp] else []
            | None \<Rightarrow> []))"

definition buildSubagentStatsLine ::
  "'x env \<Rightarrow> string \<Rightarrow> jsnum option \<Rightarrow> jsnum option \<Rightarrow> 'x world
     \<Rightarrow> (thrown + string) \<times> 'x world" where
  "buildSubagentStatsLine env sessionKey startedAt endedAt w =
     (case loadConfig env (ext w) of
        Some err \<Rightarrow> (Inl err, w)
      | None \<Rightarrow>
          (case waitForSessionUsage env sessionKey w of
             (Inl err, w1) \<Rightarrow> (Inl err, w1)
           | (Inr (entry, storePath), w1) \<Rightarrow>
               (Inr (''Stats: '' @
                     joinWith bullet
                       (statsParts env sessionKey startedAt endedAt entry storePath)),
                w1)))"

section \<open>Announce Flow: \<^verbatim>\<open>runSubagentAnnounceFlow\<close>\<close>

definition buildSubagentAnnouncePrompt ::
  "string \<Rightarrow> string option \<Rightarrow> string \<Rightarrow> string \<Rightarrow> string option \<Rightarrow> string" where
  "buildSubagentAnnouncePrompt requesterSessionKey requesterProvider announceChannel task
       subagentReply =
     joinWith newline (keepTruthy
       [Some ''Sub-agent announce step:'',
        (if requesterSessionKey \<noteq> []
         then Some (''Requester session: '' @ requesterSessionKey @ ''.'') else None),
        (case requesterProvider of
           Some v \<Rightarrow> if v \<noteq> [] then Some (''Requester provider: '' @ v @ ''.'') else None
         | None \<Rightarrow> None),
        Some (''Post target provider: '' @ announceChannel @ ''.''),
        Some (''Original task: '' @ task),
        (case subagentReply of
           Some r \<Rightarrow>
             if r \<noteq> [] then Some (''Sub-agent result: '' @ r)
             else Some ''Sub-agent result: (not available).''
         | None \<Rightarrow> Some ''Sub-agent result: (not available).''),
        Some (''Reply exactly '' @ [CHR 0x22] @ ''ANNOUNCE_SKIP'' @ [CHR 0x22]
              @ '' to stay silent.''),
        Some ''Any other reply will be posted to the requester chat provider.''])"

text \<open>
  A step inside the \<^verbatim>\<open>try\<close> block ends in one of three ways: it threw, it left the
  function with \<^verbatim>\<open>return\<close>, or it goes on with a value.
\<close>

datatype 'a step = Threw thrown | Returned | Next 'a

text \<open>Lines 564 to 568: one more direct read when the reply is still empty.\<close>

definition announceReread ::
  "'x env \<Rightarrow> announce_params \<Rightarrow> string option \<Rightarrow> 'x world \<Rightarrow> string option step \<times> 'x world" where
  "announceReread env p reply w =
     (if \<not> truthy reply then
        (case outside (readLatestAssistantReply env (ap_childSessionKey p)) w of
           (Inl err, w1) \<Rightarrow> (Threw err, w1)
         | (Inr r, w1) \<Rightarrow> (Next r, w1))
      else (Next reply, w))"

text \<open>Lines 547 to 568: the sub-agent's final reply.\<close>

definition announceRound ::
  "'x env \<Rightarrow> announce_params \<Rightarrow> 'x world \<Rightarrow> string option step \<times> 'x world" where
  "announceRound env p w =
     (if \<not> truthy (ap_roundOneReply p) \<and> ap_waitForCompletion p \<noteq> Some False then
        (let waitMs = min (ap_timeoutMs p) 60000
         in case gatewayCall env (agentWait (ap_childRunId p) waitMs) w of
              (Inl err, w1) \<Rightarrow> (Threw err, w1)
            | (Inr wait, w1) \<Rightarrow>
                if getProp wait ''status'' \<noteq> JStr ''ok'' then (Returned, w1)
                else (case outside (readLatestAssistantReply env (ap_childSessionKey p)) w1 of
                        (Inl err, w2) \<Rightarrow> (Threw err, w2)
                      | (Inr r, w2) \<Rightarrow> announceReread env p r w2))
      else announceReread env p (ap_roundOneReply p) w)"

text \<open>Lines 547 to 574: the reply and the announce target.\<close>

definition announcePrelude ::
  "'x env \<Rightarrow> announce_params \<Rightarrow> 'x world
     \<Rightarrow> (string option \<times> announce_target) step \<times> 'x world" where
  "announcePrelude env p w =
     (case announceRound env p w of
        (Threw err, w1) \<Rightarrow> (Threw err, w1)
      | (Returned, w1) \<Rightarrow> (Returned, w1)
      | (Next reply, w1) \<Rightarrow>
          (case outside (resolveAnnounceTarget env (ap_requesterSessionKey p)
                           (ap_requesterDisplayKey p)) w1 of
             (Inl err, w2) \<Rightarrow> (Threw err, w2)
           | (Inr None, w2) \<Rightarrow> (Returned, w2)
           | (Inr (Some target), w2) \<Rightarrow> (Next (reply, target), w2)))"

text \<open>Lines 576 to 590: the announce step asked of the child session.\<close>

definition announceStep :: "announce_params \<Rightarrow> announce_target \<Rightarrow> string option \<Rightarrow> agent_step" where
  "announceStep p target reply =
     \<lparr>st_sessionKey = ap_childSessionKey p,
      st_message = ''Sub-agent announce step.'',
      st_extraSystemPrompt =
        buildSubagentAnnouncePrompt (ap_requesterSessionKey p) (ap_requesterProvider p)
          (tg_provider target) (ap_task p) reply,
      st_timeoutMs = ap_timeoutMs p,
      st_lane = ''nested''\<rparr>"

text \<open>
  Lines 592 to 597:
  \<^verbatim>\<open>!announceReply || !announceReply.trim() || isAnnounceSkip(announceReply)\<close>.
\<close>

definition suppressed :: "'x env \<Rightarrow> string option \<Rightarrow> bool" where
  "suppressed env announceReply =
     (case announceReply of
        None \<Rightarrow> True
      | Some r \<Rightarrow> r = [] \<or> trim r = [] \<or> isAnnounceSkip env r)"

text \<open>Lines 599 to 618: the summary is appended and the message sent.\<close>

definition announceDeliver ::
  "'x env \<Rightarrow> announce_params \<Rightarrow> announce_target \<Rightarrow> string \<Rightarrow> 'x world
     \<Rightarrow> (thrown + unit) \<times> 'x world" where
  "announceDeliver env p target announceReply w =
     (case buildSubagentStatsLine env (ap_childSessionKey p) (ap_startedAt p) (ap_endedAt p) w of
        (Inl err, w1) \<Rightarrow> (Inl err, w1)
      | (Inr statsLine, w1) \<Rightarrow>
          (let message =
                 (if statsLine \<noteq> [] then trim announceReply @ newline @ newline @ statsLine
                  else trim announceReply)
           in case outside (randomUUID env) w1 of
                (idem, w2) \<Rightarrow>
                  (case gatewayCall env (sendMessage target message idem) w2 of
                     (Inl err, w3) \<Rightarrow> (Inl err, w3)
                   | (Inr ack, w3) \<Rightarrow> (Inr (), w3))))"

text \<open>
  The \<^verbatim>\<open>try\<close> block, lines 546 to 618: \<open>Inl\<close> when it threw, \<open>Inr ()\<close> when it ran to
  its end or left with \<^verbatim>\<open>return\<close>.
\<close>

definition announceBody ::
  "'x env \<Rightarrow> announce_params \<Rightarrow> 'x world \<Rightarrow> (thrown + unit) \<times> 'x world" where
  "announceBody env p w =
     (case announcePrelude env p w of
        (Threw err, w1) \<Rightarrow> (Inl err, w1)
      | (Returned, w1) \<Rightarrow> (Inr (), w1)
      | (Next (reply, target), w1) \<Rightarrow>
          (case agentStep env (announceStep p target reply) w1 of
             (Inl err, w2) \<Rightarrow> (Inl err, w2)
           | (Inr announceReply, w2) \<Rightarrow>
               if suppressed env announceReply then (Inr (), w2)
               else (case announceReply of
                       None \<Rightarrow> (Inr (), w2)
                     | Some r \<Rightarrow> announceDeliver env p target r w2)))"

text \<open>
  The \<^verbatim>\<open>finally\<close> block, lines 621 to 633: \<open>Inl\<close> if the block itself threw. Its only
  statement that can throw, the delete, sits in a \<^verbatim>\<open>try\<close> with an empty \<^verbatim>\<open>catch\<close>.
\<close>

definition announceCleanup ::
  "'x env \<Rightarrow> announce_params \<Rightarrow> 'x world \<Rightarrow> (thrown + unit) \<times> 'x world" where
  "announceCleanup env p w =
     (if ap_cleanup p = Delete then
        (case gatewayCall env (sessionsDelete (ap_childSessionKey p)) w of
           (Inl err, w1) \<Rightarrow> (Inr (), w1)
         | (Inr ack, w1) \<Rightarrow> (Inr (), w1))
      else (Inr (), w))"

text \<open>
  \<^verbatim>\<open>runSubagentAnnounceFlow\<close>: \<^verbatim>\<open>try { body } catch { } finally { cleanup }\<close>. What the
  body threw is dropped by the empty \<^verbatim>\<open>catch\<close>; the \<^verbatim>\<open>finally\<close> block runs in every
  case, and the function throws only what that block throws.
\<close>

definition runSubagentAnnounceFlow ::
  "'x env \<Rightarrow> announce_params \<Rightarrow> 'x world \<Rightarrow> (thrown + unit) \<times> 'x world" where
  "runSubagentAnnounceFlow env p w =
     (case announceBody env p w of
        (tried, w1) \<Rightarrow>
          (let caught = (case tried of Inl err \<Rightarrow> Inr () | Inr u \<Rightarrow> Inr u)
           in case announceCleanup env p w1 of
                (Inl err, w2) \<Rightarrow> (Inl err, w2)
              | (Inr u, w2) \<Rightarrow> (caught, w2)))"

text \<open>
  What a call of the tool leaves behind: the announce flows it started with
  \<^verbatim>\<open>void runSubagentAnnounceFlow(...)\<close>, run to their end in the order in which they were
  started. The tool makes no gateway call and no registry operation after starting a
  flow, so every call and operation of a flow comes after all of the tool's own. No
  other statement of the modelled files starts a flow, and once \<^verbatim>\<open>execute\<close> has returned
  nothing else of it runs.
\<close>

definition runDetached :: "'x env \<Rightarrow> announce_params list \<Rightarrow> 'x world \<Rightarrow> 'x world" where
  "runDetached env flows w = fold (\<lambda>p w1. snd (runSubagentAnnounceFlow env p w1)) flows w"

section \<open>A gateway stub\<close>

text \<open>
  A concrete environment in the manner of the repository's tests
  (\<^verbatim>\<open>clawdbot-tools.subagents.test.ts\<close>): the gateway accepts every run as \<open>run-1\<close>,
  \<^verbatim>\<open>agent.wait\<close> answers \<open>ok\<close>, every other method answers an empty object; the main
  session key and its alias are both \<open>main\<close>. The outside state is a counter of the
  UUIDs drawn so far. A string parameter is read trimmed; one that is missing, is not a
  string or is blank reads as \<^verbatim>\<open>undefined\<close>, and makes the read throw
  \<open>key required\<close> when it is required. The configuration always loads. The theorems
  below are stated for every environment; this one is where they are instantiated.
\<close>

definition stubGateway :: "request \<Rightarrow> nat \<Rightarrow> (thrown + jsval) \<times> nat" where
  "stubGateway req n =
     (if rq_method req = ''agent''
      then (Inr (JObj [(''runId'', JStr ''run-1''), (''status'', JStr ''accepted'')]), n)
      else if rq_method req = ''agent.wait''
      then (Inr (JObj [(''runId'', JStr ''run-1''), (''status'', JStr ''ok'')]), n)
      else (Inr (JObj []), n))"

definition stubTarget :: announce_target where
  "stubTarget = \<lparr>tg_provider = ''discord'', tg_to = ''channel:req'', tg_accountId = None\<rparr>"

definition stubEnv :: "nat env" where
  "stubEnv =
     \<lparr>callGateway = stubGateway,
      randomUUID = (\<lambda>n. (''uuid-'' @ [''0123456789'' ! (n mod 10)], n + 1)),
      mainKey = ''main'',
      mainAlias = ''main'',
      isSubagentSessionKey = (\<lambda>k. includesStr k ''subagent:''),
      resolveInternalSessionKey = (\<lambda>k a m. if k = m then a else k),
      resolveDisplaySessionKey = (\<lambda>k a m. if k = a then m else k),
      parseAgentSessionKey = (\<lambda>k. None),
      normalizeAgentId = (\<lambda>a. case a of None \<Rightarrow> ''main'' | Some i \<Rightarrow> i),
      readLatestAssistantReply = (\<lambda>k n. (Inr (Some ''result''), n)),
      runAgentStep = (\<lambda>st n. (Inr (Some ''announce now''), n)),
      resolveAnnounceTarget = (\<lambda>k d n. (Inr (Some stubTarget), n)),
      isAnnounceSkip = (\<lambda>t. t = ''ANNOUNCE_SKIP''),
      sessionStoreCfg = None,
      resolveAgentIdFromSessionKey = (\<lambda>k. ''main''),
      resolveStorePath = (\<lambda>c a. ''/state/sessions.json''),
      loadSessionStore = (\<lambda>sp n. (Inr Map.empty, n)),
      sleep = (\<lambda>ms n. n),
      modelsOfProvider = (\<lambda>pr. []),
      toFixed = (\<lambda>q d. ''#''),
      numberToString = (\<lambda>q. ''#''),
      transcriptPathFor = (\<lambda>sp name. ''/state/'' @ name),
      readRequiredStringParam =
        (\<lambda>params key.
           case getProp (JObj params) key of
             JStr s \<Rightarrow> if trim s = [] then Inl (ErrorObject (key @ '' required''))
                       else Inr (trim s)
           | _ \<Rightarrow> Inl (ErrorObject (key @ '' required''))),
      readStringParam =
        (\<lambda>params key.
           case getProp (JObj params) key of
             JStr s \<Rightarrow> Inr (if trim s = [] then None else Some (trim s))
           | _ \<Rightarrow> Inr None),
      loadConfig = (\<lambda>n. None),
      estimateUsd = (\<lambda>i out c. NaN)\<rparr>"

definition world0 :: "nat world" where
  "world0 = \<lparr>ext = 0, calls = [], steps = [], registry = emptyRegistry, detached = [],
             timeline = [], registryOps = []\<rparr>"

definition mainOpts :: spawn_opts where
  "mainOpts = \<lparr>agentSessionKey = Some ''main'', agentProvider = Some ''whatsapp'',
               sandboxed = None\<rparr>"

definition subagentOpts :: spawn_opts where
  "subagentOpts = \<lparr>agentSessionKey = Some ''agent:main:subagent:0a1b'',
                   agentProvider = Some ''whatsapp'', sandboxed = None\<rparr>"

definition taskParams :: "jsval \<Rightarrow> (string \<times> jsval) list" where
  "taskParams timeoutSeconds = [(''task'', JStr ''do thing''), (''timeoutSeconds'', timeoutSeconds)]"

definition taskArgs :: "string option \<Rightarrow> jsval \<Rightarrow> spawn_args" where
  "taskArgs model timeoutSeconds =
     \<lparr>a_task = ''do thing'', a_label = JUndefined, a_model = model,
      a_timeoutSeconds = timeoutSeconds, a_cleanup = JUndefined\<rparr>"

text \<open>
  Variations of the stub: what \<^verbatim>\<open>sessions.patch\<close> and \<^verbatim>\<open>agent.wait\<close> answer is
  scripted. The constants after it name the values the stub produces for the task
  \<open>do thing\<close> requested from the main session.
\<close>

definition scriptedGateway ::
  "(thrown + jsval) \<Rightarrow> (thrown + jsval) \<Rightarrow> request \<Rightarrow> nat \<Rightarrow> (thrown + jsval) \<times> nat" where
  "scriptedGateway patched waited req n =
     (if rq_method req = ''sessions.patch'' then (patched, n)
      else if rq_method req = ''agent.wait'' then (waited, n)
      else stubGateway req n)"

definition scriptedEnv :: "(thrown + jsval) \<Rightarrow> (thrown + jsval) \<Rightarrow> nat env" where
  "scriptedEnv patched waited = stubEnv\<lparr>callGateway := scriptedGateway patched waited\<rparr>"

definition stubChild :: string where
  "stubChild = ''agent:main:subagent:uuid-0''"

definition stubStart :: request where
  "stubStart =
     agentStart ''do thing'' stubChild ''uuid-1''
       (buildSubagentSystemPrompt (Some ''main'') (Some ''whatsapp'') stubChild None)"

definition stubAccepted :: jsval where
  "stubAccepted = JObj [(''runId'', JStr ''run-1''), (''status'', JStr ''accepted'')]"

definition stubRun :: subagent_run where
  "stubRun =
     \<lparr>run_runId = ''run-1'', run_childSessionKey = stubChild,
      run_requesterSessionKey = ''main'', run_requesterProvider = Some ''whatsapp'',
      run_requesterDisplayKey = ''main'', run_task = ''do thing'', run_cleanup = Keep\<rparr>"

definition stubResult :: "string \<Rightarrow> spawn_result" where
  "stubResult st =
     \<lparr>res_status = st, res_error = None, res_childSessionKey = Some stubChild,
      res_runId = Some ''run-1'', res_reply = None, res_modelApplied = None,
      res_warning = None\<rparr>"

definition stubWorld :: "gateway_call list \<Rightarrow> 'x \<Rightarrow> 'x world" where
  "stubWorld cs x =
     \<lparr>ext = x, calls = cs, steps = [], registry = registerSubagentRun emptyRegistry stubRun,
      detached = [], timeline = [], registryOps = [Register stubRun]\<rparr>"

text \<open>
  Session stores for the usage resolver. Here the outside counter advances with every
  read of the store, and read number \<open>n\<close> (the first read is number 0) finds for the
  child session what a script says. In the late store the entry is there from the
  start, without token data, and the counts are in it from the read number \<open>ready\<close> on;
  in the absent store there is no entry at the reads 0 and 1, and the entry with its
  counts from read 2 on; in the input-only store the entry gets its \<open>inputTokens\<close>, and
  nothing else, at read 2. \<open>pollWorld n evs\<close> is the initial world after \<open>n\<close> reads, with
  timeline \<open>evs\<close>.
\<close>

definition bareEntry :: session_entry where
  "bareEntry =
     \<lparr>se_totalTokens = None, se_inputTokens = None, se_outputTokens = None,
      se_model = None, se_modelProvider = None, se_sessionId = Some ''sess-1''\<rparr>"

definition countedEntry :: session_entry where
  "countedEntry = bareEntry\<lparr>se_inputTokens := Some 100, se_outputTokens := Some 20\<rparr>"

definition inputOnlyEntry :: session_entry where
  "inputOnlyEntry = bareEntry\<lparr>se_inputTokens := Some 100\<rparr>"

definition scriptedStoreEnv :: "(nat \<Rightarrow> session_entry option) \<Rightarrow> nat env" where
  "scriptedStoreEnv script =
     stubEnv\<lparr>loadSessionStore :=
       (\<lambda>sp n. (Inr (case script n of None \<Rightarrow> Map.empty | Some e \<Rightarrow> [stubChild \<mapsto> e]),
                 n + 1))\<rparr>"

definition lateStoreEnv :: "nat \<Rightarrow> nat env" where
  "lateStoreEnv ready =
     scriptedStoreEnv (\<lambda>n. Some (if n < ready then bareEntry else countedEntry))"

definition absentStoreEnv :: "nat env" where
  "absentStoreEnv = scriptedStoreEnv (\<lambda>n. if n < 2 then None else Some countedEntry)"

definition inputOnlyStoreEnv :: "nat env" where
  "inputOnlyStoreEnv = scriptedStoreEnv (\<lambda>n. Some (if n < 2 then bareEntry else inputOnlyEntry))"

definition stubStorePath :: string where
  "stubStorePath = ''/state/sessions.json''"

definition pollWorld :: "nat \<Rightarrow> poll_event list \<Rightarrow> nat world" where
  "pollWorld n evs = world0\<lparr>ext := n, timeline := evs\<rparr>"

text \<open>
  Announce flows on the stub: the parameters \<^verbatim>\<open>execute\<close> passes for the task
  \<open>do thing\<close>, an environment in which every gateway call and the resolution of the
  announce target throw, and one in which the announce step answers a given reply.
\<close>

definition stubAnnounce :: "cleanup_policy \<Rightarrow> announce_params" where
  "stubAnnounce c =
     \<lparr>ap_childSessionKey = stubChild, ap_childRunId = ''run-1'',
      ap_requesterSessionKey = ''main'', ap_requesterProvider = Some ''whatsapp'',
      ap_requesterDisplayKey = ''main'', ap_task = ''do thing'', ap_timeoutMs = 30000,
      ap_cleanup = c, ap_roundOneReply = Some ''result'', ap_waitForCompletion = None,
      ap_startedAt = None, ap_endedAt = None\<rparr>"




section \<open>Shapes of the call log\<close>

text \<open>
  A request is the model patch when it is a \<^verbatim>\<open>sessions.patch\<close> that carries a
  \<open>model\<close>. \<open>prepCalls\<close> and \<open>modelCalls\<close> describe what lines 97 to 107 and lines 108 to
  135 can have logged; \<open>registered\<close> is the record passed to \<^verbatim>\<open>registerSubagentRun\<close>.
\<close>

definition isModelPatch :: "request \<Rightarrow> bool" where
  "isModelPatch req =
     (rq_method req = ''sessions.patch'' \<and> map_of (rq_params req) ''model'' \<noteq> None)"

definition prepCalls :: "gateway_call list \<Rightarrow> bool" where
  "prepCalls pre = (pre = [] \<or> (\<exists>child owner oc. pre = [(spawnedByPatch child owner, oc)]))"

definition modelCalls ::
  "string option \<Rightarrow> string \<Rightarrow> gateway_call list \<Rightarrow> bool \<Rightarrow> string option \<Rightarrow> bool" where
  "modelCalls model child mp ma mw =
     ((\<not> truthy model \<and> mp = [] \<and> \<not> ma \<and> mw = None)
    \<or> (\<exists>m ack. model = Some m \<and> m \<noteq> [] \<and> mp = [(modelPatch child m, Inr ack)]
          \<and> ma \<and> mw = None)
    \<or> (\<exists>m err. model = Some m \<and> m \<noteq> [] \<and> mp = [(modelPatch child m, Inl err)]
          \<and> recoverable (messageText err) \<and> \<not> ma \<and> mw = Some (messageText err)))"

definition registered :: "spawn_opts \<Rightarrow> spawn_args \<Rightarrow> spawn_ctx \<Rightarrow> string \<Rightarrow> subagent_run" where
  "registered opts args cx rid =
     \<lparr>run_runId = rid, run_childSessionKey = cx_childSessionKey cx,
      run_requesterSessionKey = cx_requesterInternalKey cx,
      run_requesterProvider = agentProvider opts,
      run_requesterDisplayKey = cx_requesterDisplayKey cx,
      run_task = a_task args, run_cleanup = cleanupOf (a_cleanup args)\<rparr>"

section \<open>Exactly-once announce claim\<close>

lemma take_Cons_replicate: "take n (x # replicate n x) = replicate n x"
  using take_replicate[of n "Suc n" x] by simp

lemma claimResults_claimed:
  "runId \<in> claimed reg \<Longrightarrow>
     answersFor runId (claimResults reg ops) = replicate (claimCalls runId ops) False"
proof (induction ops arbitrary: reg)
  case Nil
  then show ?case by (simp add: answersFor_def claimCalls_def)
next
  case (Cons op ops)
  show ?case
  proof (cases op)
    case (Register run)
    have "runId \<in> claimed (registerSubagentRun reg run)"
      using Cons.prems by (simp add: registerSubagentRun_def)
    from Cons.IH[OF this] show ?thesis
      using Register by (simp add: answersFor_def claimCalls_def)
  next
    case (ClaimAnnounce r)
    obtain won reg' where b: "beginSubagentAnnounce reg r = (won, reg')"
      by (cases "beginSubagentAnnounce reg r")
    have c: "runId \<in> claimed reg'"
      using b Cons.prems by (auto simp: beginSubagentAnnounce_def split: if_splits)
    have w: "r = runId \<Longrightarrow> \<not> won"
      using b Cons.prems by (auto simp: beginSubagentAnnounce_def split: if_splits)
    from Cons.IH[OF c] show ?thesis
      using ClaimAnnounce b w by (auto simp: answersFor_def claimCalls_def)
  qed
qed

lemma claimResults_unclaimed:
  "runId \<notin> claimed reg \<Longrightarrow>
     answersFor runId (claimResults reg ops) =
       take (claimCalls runId ops) (True # replicate (claimCalls runId ops) False)"
proof (induction ops arbitrary: reg)
  case Nil
  then show ?case by (simp add: answersFor_def claimCalls_def)
next
  case (Cons op ops)
  show ?case
  proof (cases op)
    case (Register run)
    have "runId \<notin> claimed (registerSubagentRun reg run)"
      using Cons.prems by (simp add: registerSubagentRun_def)
    from Cons.IH[OF this] show ?thesis
      using Register by (simp add: answersFor_def claimCalls_def)
  next
    case (ClaimAnnounce r)
    show ?thesis
    proof (cases "r = runId")
      case True
      have b: "beginSubagentAnnounce reg runId =
                 (True, reg\<lparr>claimed := insert runId (claimed reg)\<rparr>)"
        using Cons.prems by (simp add: beginSubagentAnnounce_def)
      have "runId \<in> claimed (reg\<lparr>claimed := insert runId (claimed reg)\<rparr>)" by simp
      from claimResults_claimed[OF this, of ops] show ?thesis
        using ClaimAnnounce True b
        by (simp add: answersFor_def claimCalls_def take_Cons_replicate)
    next
      case False
      obtain won reg' where b: "beginSubagentAnnounce reg r = (won, reg')"
        by (cases "beginSubagentAnnounce reg r")
      have c: "runId \<notin> claimed reg'"
        using b Cons.prems False by (auto simp: beginSubagentAnnounce_def split: if_splits)
      from Cons.IH[OF c] show ?thesis
        using ClaimAnnounce b False by (auto simp: answersFor_def claimCalls_def)
    qed
  qed
qed

section \<open>What each stage of the orchestrator does to the world\<close>

lemma gatewayCall_fields:
  "gatewayCall env req w = (r, w') \<Longrightarrow>
     calls w' = calls w @ [(req, r)] \<and> registry w' = registry w \<and> detached w' = detached w
     \<and> steps w' = steps w \<and> timeline w' = timeline w"
  by (auto simp: gatewayCall_def split: prod.splits)

lemma outside_fields:
  "outside f w = (a, w') \<Longrightarrow>
     calls w' = calls w \<and> registry w' = registry w \<and> detached w' = detached w
     \<and> steps w' = steps w \<and> timeline w' = timeline w"
  by (auto simp: outside_def split: prod.splits)

lemma spawnPrepare_effect:
  assumes "spawnPrepare env opts w = (cx, w1)"
  shows "registry w1 = registry w \<and> detached w1 = detached w
       \<and> (\<exists>pre. calls w1 = calls w @ pre \<and> prepCalls pre)"
proof -
  obtain uuid w0 where u: "outside (randomUUID env) w = (uuid, w0)"
    by (cases "outside (randomUUID env) w")
  note f0 = outside_fields[OF u]
  have "registry w1 = registry w \<and> detached w1 = detached w
       \<and> (calls w1 = calls w @ []
          \<or> (\<exists>oc. calls w1 = calls w @
              [(spawnedByPatch (cx_childSessionKey cx) (cx_requesterInternalKey cx), oc)]))"
    using assms u f0
    by (auto simp: spawnPrepare_def Let_def dest!: gatewayCall_fields
          split: if_splits prod.splits)
  then show ?thesis unfolding prepCalls_def by blast
qed

lemma spawnApplyModel_effect:
  assumes "spawnApplyModel env model child w1 = (r, w2)"
  shows "registry w2 = registry w1 \<and> detached w2 = detached w1
     \<and> ((\<exists>mp ma mw. calls w2 = calls w1 @ mp \<and> modelCalls model child mp ma mw \<and> r = Inr (ma, mw))
       \<or> (\<exists>m err. model = Some m \<and> m \<noteq> [] \<and> calls w2 = calls w1 @ [(modelPatch child m, Inl err)]
             \<and> \<not> recoverable (messageText err)
             \<and> r = Inl \<lparr>res_status = ''error'', res_error = Some (messageText err),
                        res_childSessionKey = Some child, res_runId = None,
                        res_reply = None, res_modelApplied = None, res_warning = None\<rparr>))"
proof -
  have "registry w2 = registry w1 \<and> detached w2 = detached w1 \<and>
       ((\<not> truthy model \<and> calls w2 = calls w1 @ [] \<and> r = Inr (False, None))
       \<or> (\<exists>m ack. model = Some m \<and> m \<noteq> [] \<and> calls w2 = calls w1 @ [(modelPatch child m, Inr ack)]
             \<and> r = Inr (True, None))
       \<or> (\<exists>m err. model = Some m \<and> m \<noteq> [] \<and> calls w2 = calls w1 @ [(modelPatch child m, Inl err)]
             \<and> recoverable (messageText err) \<and> r = Inr (False, Some (messageText err)))
       \<or> (\<exists>m err. model = Some m \<and> m \<noteq> [] \<and> calls w2 = calls w1 @ [(modelPatch child m, Inl err)]
             \<and> \<not> recoverable (messageText err)
             \<and> r = Inl \<lparr>res_status = ''error'', res_error = Some (messageText err),
                        res_childSessionKey = Some child, res_runId = None,
                        res_reply = None, res_modelApplied = None, res_warning = None\<rparr>))"
    using assms
    by (auto simp: spawnApplyModel_def dest!: gatewayCall_fields
          split: option.splits if_splits prod.splits sum.splits)
  then show ?thesis unfolding modelCalls_def by blast
qed

lemma spawnStartRun_effect:
  assumes "spawnStartRun env opts task label child w2 = (r, w3)"
  shows "registry w3 = registry w2 \<and> detached w3 = detached w2
     \<and> (\<exists>idem prompt.
          (\<exists>response rid. calls w3 = calls w2 @ [(agentStart task child idem prompt, Inr response)]
              \<and> r = Inr rid)
        \<or> (\<exists>err. calls w3 = calls w2 @ [(agentStart task child idem prompt, Inl err)]
              \<and> r = Inl \<lparr>res_status = ''error'', res_error = Some (messageText err),
                        res_childSessionKey = Some child, res_runId = Some idem,
                        res_reply = None, res_modelApplied = None, res_warning = None\<rparr>))"
proof -
  obtain idem w0 where u: "outside (randomUUID env) w2 = (idem, w0)"
    by (cases "outside (randomUUID env) w2")
  note f0 = outside_fields[OF u]
  let ?req = "agentStart task child idem
     (buildSubagentSystemPrompt (agentSessionKey opts) (agentProvider opts) child
              (if label \<noteq> [] then Some label else None))"
  obtain oc w0' where g: "gatewayCall env ?req w0 = (oc, w0')"
    by (cases "gatewayCall env ?req w0")
  note f1 = gatewayCall_fields[OF g]
  show ?thesis
  proof (cases oc)
    case (Inl err)
    then show ?thesis using assms u g f0 f1
      by (auto simp: spawnStartRun_def Let_def)
  next
    case (Inr response)
    then show ?thesis using assms u g f0 f1
      by (auto simp: spawnStartRun_def Let_def)
  qed
qed

lemma spawnAwait_effect:
  assumes "spawnAwait env child rid ms w4 = (r, w5)"
  shows "registry w5 = registry w4 \<and> detached w5 = detached w4
     \<and> ((\<exists>ans. calls w5 = calls w4 @ [(agentWaitFor rid ms, Inr ans)]
            \<and> r = Inr \<lparr>wi_status = asString (getProp ans ''status''),
                       wi_error = asString (getProp ans ''error''),
                       wi_startedAt = asNumber (getProp ans ''startedAt''),
                       wi_endedAt = asNumber (getProp ans ''endedAt'')\<rparr>)
       \<or> (\<exists>err. calls w5 = calls w4 @ [(agentWaitFor rid ms, Inl err)]
            \<and> r = Inl \<lparr>res_status =
                         (if includesStr (messageText err) ''gateway timeout'' then ''timeout''
                          else ''error''),
                       res_error = Some (messageText err),
                       res_childSessionKey = Some child, res_runId = Some rid,
                       res_reply = None, res_modelApplied = None, res_warning = None\<rparr>))"
  using assms
  by (auto simp: spawnAwait_def dest!: gatewayCall_fields split: prod.splits sum.splits)

lemma spawnComplete_effect:
  assumes "spawnComplete env opts cx task cleanup ms mw rid wi w5 = (out, w')"
  shows "(wi_status wi = Some ''timeout''
          \<and> (\<exists>oc. calls w' = calls w5 @ [(chatAbort (cx_childSessionKey cx) rid, oc)])
          \<and> registry w' = registry w5 \<and> detached w' = detached w5
          \<and> out = Inr \<lparr>res_status = ''timeout'', res_error = wi_error wi,
                   res_childSessionKey = Some (cx_childSessionKey cx),
                   res_runId = Some rid, res_reply = None,
                   res_modelApplied = ms, res_warning = mw\<rparr>)
       \<or> (wi_status wi \<noteq> Some ''timeout'' \<and> wi_status wi = Some ''error''
          \<and> calls w' = calls w5 \<and> registry w' = registry w5 \<and> detached w' = detached w5
          \<and> out = Inr \<lparr>res_status = ''error'',
              res_error = (case wi_error wi of Some e \<Rightarrow> Some e | None \<Rightarrow> Some ''agent error''),
              res_childSessionKey = Some (cx_childSessionKey cx),
              res_runId = Some rid, res_reply = None,
              res_modelApplied = ms, res_warning = mw\<rparr>)
       \<or> (wi_status wi \<noteq> Some ''timeout'' \<and> wi_status wi \<noteq> Some ''error''
          \<and> calls w' = calls w5 \<and> registry w' = registry w5 \<and> detached w' = detached w5
          \<and> (\<exists>err. out = Inl err))
       \<or> (wi_status wi \<noteq> Some ''timeout'' \<and> wi_status wi \<noteq> Some ''error''
          \<and> calls w' = calls w5
          \<and> runs (registry w') = runs (registry w5)
          \<and> claimed (registry w') = insert rid (claimed (registry w5))
          \<and> (detached w' = detached w5
               \<or> (\<exists>p. detached w' = detached w5 @ [p] \<and> ap_childRunId p = rid
                     \<and> rid \<notin> claimed (registry w5)))
          \<and> (\<exists>replyText. out = Inr \<lparr>res_status = ''ok'', res_error = None,
                        res_childSessionKey = Some (cx_childSessionKey cx),
                        res_runId = Some rid, res_reply = replyText,
                        res_modelApplied = ms, res_warning = mw\<rparr>))"
proof -
  obtain rr w0 where u: "outside (readLatestAssistantReply env (cx_childSessionKey cx)) w5 = (rr, w0)"
    by (cases "outside (readLatestAssistantReply env (cx_childSessionKey cx)) w5")
  note f0 = outside_fields[OF u]
  show ?thesis
    using assms u f0
    by (auto simp: spawnComplete_def beginSubagentAnnounce_def dest!: gatewayCall_fields
          split: if_splits prod.splits sum.splits)
qed


lemma newCalls_append: "calls w' = calls w @ xs \<Longrightarrow> newCalls w w' = xs"
  by (simp add: newCalls_def)

lemma spawnRun_paths [consumes 1, case_names patch_fatal start_failed accepted wait_failed
    timed_out run_error reply_threw ok]:
  assumes run: "spawnRun env opts args w = (out, w')"
  obtains
    (patch_fatal) child pre m err where
      "newCalls w w' = pre @ [(modelPatch child m, Inl err)]"
      "prepCalls pre" "a_model args = Some m" "m \<noteq> []" "\<not> recoverable (messageText err)"
      "out = Inr \<lparr>res_status = ''error'', res_error = Some (messageText err),
                  res_childSessionKey = Some child, res_runId = None,
                  res_reply = None, res_modelApplied = None, res_warning = None\<rparr>"
      "registry w' = registry w" "detached w' = detached w"
  | (start_failed) child pre mp ma mw idem prompt err where
      "newCalls w w' = pre @ mp @ [(agentStart (a_task args) child idem prompt, Inl err)]"
      "prepCalls pre" "modelCalls (a_model args) child mp ma mw"
      "out = Inr \<lparr>res_status = ''error'', res_error = Some (messageText err),
                  res_childSessionKey = Some child, res_runId = Some idem,
                  res_reply = None, res_modelApplied = None, res_warning = None\<rparr>"
      "registry w' = registry w" "detached w' = detached w"
  | (accepted) cx pre mp ma mw idem prompt response rid where
      "timeoutSecondsOf (a_timeoutSeconds args) = 0"
      "newCalls w w' = pre @ mp @
         [(agentStart (a_task args) (cx_childSessionKey cx) idem prompt, Inr response)]"
      "prepCalls pre" "modelCalls (a_model args) (cx_childSessionKey cx) mp ma mw"
      "out = Inr \<lparr>res_status = ''accepted'', res_error = None,
                  res_childSessionKey = Some (cx_childSessionKey cx),
                  res_runId = Some rid, res_reply = None,
                  res_modelApplied = (if truthy (a_model args) then Some ma else None),
                  res_warning = mw\<rparr>"
      "registry w' = registerSubagentRun (registry w) (registered opts args cx rid)"
      "detached w' = detached w"
  | (wait_failed) child pre mp ma mw idem prompt response rid err where
      "timeoutSecondsOf (a_timeoutSeconds args) \<noteq> 0"
      "newCalls w w' = pre @ mp @
         [(agentStart (a_task args) child idem prompt, Inr response),
          (agentWaitFor rid (dbl (timeoutSecondsOf (a_timeoutSeconds args) * 1000)), Inl err)]"
      "prepCalls pre" "modelCalls (a_model args) child mp ma mw"
      "out = Inr \<lparr>res_status =
                    (if includesStr (messageText err) ''gateway timeout'' then ''timeout''
                     else ''error''),
                  res_error = Some (messageText err),
                  res_childSessionKey = Some child, res_runId = Some rid,
                  res_reply = None, res_modelApplied = None, res_warning = None\<rparr>"
      "claimed (registry w') = claimed (registry w)" "detached w' = detached w"
  | (timed_out) child pre mp ma mw idem prompt response rid ans oc where
      "timeoutSecondsOf (a_timeoutSeconds args) \<noteq> 0"
      "newCalls w w' = pre @ mp @
         [(agentStart (a_task args) child idem prompt, Inr response),
          (agentWaitFor rid (dbl (timeoutSecondsOf (a_timeoutSeconds args) * 1000)), Inr ans),
          (chatAbort child rid, oc)]"
      "prepCalls pre" "modelCalls (a_model args) child mp ma mw"
      "asString (getProp ans ''status'') = Some ''timeout''"
      "out = Inr \<lparr>res_status = ''timeout'', res_error = asString (getProp ans ''error''),
                  res_childSessionKey = Some child, res_runId = Some rid, res_reply = None,
                  res_modelApplied = (if truthy (a_model args) then Some ma else None),
                  res_warning = mw\<rparr>"
      "claimed (registry w') = claimed (registry w)" "detached w' = detached w"
  | (run_error) child pre mp ma mw idem prompt response rid ans where
      "timeoutSecondsOf (a_timeoutSeconds args) \<noteq> 0"
      "newCalls w w' = pre @ mp @
         [(agentStart (a_task args) child idem prompt, Inr response),
          (agentWaitFor rid (dbl (timeoutSecondsOf (a_timeoutSeconds args) * 1000)), Inr ans)]"
      "prepCalls pre" "modelCalls (a_model args) child mp ma mw"
      "asString (getProp ans ''status'') = Some ''error''"
      "out = Inr \<lparr>res_status = ''error'',
                  res_error = (case asString (getProp ans ''error'') of
                                 Some e \<Rightarrow> Some e | None \<Rightarrow> Some ''agent error''),
                  res_childSessionKey = Some child, res_runId = Some rid, res_reply = None,
                  res_modelApplied = (if truthy (a_model args) then Some ma else None),
                  res_warning = mw\<rparr>"
      "claimed (registry w') = claimed (registry w)" "detached w' = detached w"
  | (reply_threw) child pre mp ma mw idem prompt response rid ans err where
      "timeoutSecondsOf (a_timeoutSeconds args) \<noteq> 0"
      "newCalls w w' = pre @ mp @
         [(agentStart (a_task args) child idem prompt, Inr response),
          (agentWaitFor rid (dbl (timeoutSecondsOf (a_timeoutSeconds args) * 1000)), Inr ans)]"
      "prepCalls pre" "modelCalls (a_model args) child mp ma mw"
      "asString (getProp ans ''status'') \<noteq> Some ''timeout''"
      "asString (getProp ans ''status'') \<noteq> Some ''error''"
      "out = Inl err"
      "claimed (registry w') = claimed (registry w)" "detached w' = detached w"
  | (ok) child pre mp ma mw idem prompt response rid ans replyText where
      "timeoutSecondsOf (a_timeoutSeconds args) \<noteq> 0"
      "newCalls w w' = pre @ mp @
         [(agentStart (a_task args) child idem prompt, Inr response),
          (agentWaitFor rid (dbl (timeoutSecondsOf (a_timeoutSeconds args) * 1000)), Inr ans)]"
      "prepCalls pre" "modelCalls (a_model args) child mp ma mw"
      "asString (getProp ans ''status'') \<noteq> Some ''timeout''"
      "asString (getProp ans ''status'') \<noteq> Some ''error''"
      "out = Inr \<lparr>res_status = ''ok'', res_error = None,
                  res_childSessionKey = Some child, res_runId = Some rid,
                  res_reply = replyText,
                  res_modelApplied = (if truthy (a_model args) then Some ma else None),
                  res_warning = mw\<rparr>"
      "claimed (registry w') = insert rid (claimed (registry w))"
      "detached w' = detached w
         \<or> (\<exists>p. detached w' = detached w @ [p] \<and> ap_childRunId p = rid
               \<and> rid \<notin> claimed (registry w))"
proof -
  let ?ts = "timeoutSecondsOf (a_timeoutSeconds args)"
  obtain cx w1 where p: "spawnPrepare env opts w = (cx, w1)"
    by (cases "spawnPrepare env opts w")
  from spawnPrepare_effect[OF p] obtain pre where
    f1: "registry w1 = registry w" "detached w1 = detached w"
        "calls w1 = calls w @ pre" "prepCalls pre"
    by blast
  let ?child = "cx_childSessionKey cx"
  obtain r2 w2 where m: "spawnApplyModel env (a_model args) ?child w1 = (r2, w2)"
    by (cases "spawnApplyModel env (a_model args) ?child w1")
  from spawnApplyModel_effect[OF m] have
    f2: "registry w2 = registry w1" "detached w2 = detached w1" by simp_all
  from spawnApplyModel_effect[OF m] consider
    (go) mp ma mw where "calls w2 = calls w1 @ mp" "modelCalls (a_model args) ?child mp ma mw"
        "r2 = Inr (ma, mw)"
  | (stop) m err where "a_model args = Some m" "m \<noteq> []"
        "calls w2 = calls w1 @ [(modelPatch ?child m, Inl err)]"
        "\<not> recoverable (messageText err)"
        "r2 = Inl \<lparr>res_status = ''error'', res_error = Some (messageText err),
                        res_childSessionKey = Some ?child, res_runId = None,
                        res_reply = None, res_modelApplied = None, res_warning = None\<rparr>"
    by blast
  then show ?thesis
  proof cases
    case stop
    have "out = Inr \<lparr>res_status = ''error'', res_error = Some (messageText err),
                        res_childSessionKey = Some ?child, res_runId = None,
                        res_reply = None, res_modelApplied = None, res_warning = None\<rparr>"
      and "w' = w2"
      using run p m stop(5) by (simp_all add: spawnRun_def Let_def)
    moreover have "newCalls w w2 = pre @ [(modelPatch ?child m, Inl err)]"
      using f1(3) stop(3) by (simp add: newCalls_def)
    ultimately show ?thesis
      using patch_fatal[of pre ?child m err] f1 f2 stop by simp
  next
    case go
    let ?label = "labelOf (a_label args)"
    obtain r3 w3 where s: "spawnStartRun env opts (a_task args) ?label ?child w2 = (r3, w3)"
      by (cases "spawnStartRun env opts (a_task args) ?label ?child w2")
    from spawnStartRun_effect[OF s] have
      f3: "registry w3 = registry w2" "detached w3 = detached w2" by simp_all
    from spawnStartRun_effect[OF s] obtain idem prompt where
      alt: "(\<exists>response rid. calls w3 = calls w2 @
                [(agentStart (a_task args) ?child idem prompt, Inr response)] \<and> r3 = Inr rid)
          \<or> (\<exists>err. calls w3 = calls w2 @ [(agentStart (a_task args) ?child idem prompt, Inl err)]
              \<and> r3 = Inl \<lparr>res_status = ''error'', res_error = Some (messageText err),
                        res_childSessionKey = Some ?child, res_runId = Some idem,
                        res_reply = None, res_modelApplied = None, res_warning = None\<rparr>)"
      by blast
    then consider
      (started) response rid where
        "calls w3 = calls w2 @ [(agentStart (a_task args) ?child idem prompt, Inr response)]"
        "r3 = Inr rid"
    | (failed) err where
        "calls w3 = calls w2 @ [(agentStart (a_task args) ?child idem prompt, Inl err)]"
        "r3 = Inl \<lparr>res_status = ''error'', res_error = Some (messageText err),
                        res_childSessionKey = Some ?child, res_runId = Some idem,
                        res_reply = None, res_modelApplied = None, res_warning = None\<rparr>"
      by blast
    then show ?thesis
    proof cases
      case failed
      have "out = Inr \<lparr>res_status = ''error'', res_error = Some (messageText err),
                        res_childSessionKey = Some ?child, res_runId = Some idem,
                        res_reply = None, res_modelApplied = None, res_warning = None\<rparr>"
        and "w' = w3"
        using run p m s go(3) failed(2) by (simp_all add: spawnRun_def Let_def)
      moreover have "newCalls w w3 =
          pre @ mp @ [(agentStart (a_task args) ?child idem prompt, Inl err)]"
        using f1(3) go(1) failed(1) by (simp add: newCalls_def)
      ultimately show ?thesis
        using start_failed[of pre mp ?child idem prompt err ma mw] f1 f2 f3 go(2) by simp
    next
      case started
      let ?reg = "registerSubagentRun (registry w3) (registered opts args cx rid)"
      let ?w4 = "w3\<lparr>registry := ?reg,
                     registryOps := registryOps w3 @ [Register (registered opts args cx rid)]\<rparr>"
      let ?ms = "if truthy (a_model args) then Some ma else None"
      have c3: "calls w3 = calls w @ pre @ mp @
                  [(agentStart (a_task args) ?child idem prompt, Inr response)]"
        using f1(3) go(1) started(1) by simp
      have reg3: "registry w3 = registry w" using f1 f2 f3 by simp
      have det3: "detached w3 = detached w" using f1 f2 f3 by simp
      show ?thesis
      proof (cases "?ts = 0")
        case True
        have "out = Inr \<lparr>res_status = ''accepted'', res_error = None,
                  res_childSessionKey = Some ?child,
                  res_runId = Some rid, res_reply = None,
                  res_modelApplied = ?ms, res_warning = mw\<rparr>"
          and "w' = ?w4"
          using run p m s go(3) started(2) True
          by (simp_all add: spawnRun_def Let_def registered_def)
        moreover have "newCalls w ?w4 = pre @ mp @
                  [(agentStart (a_task args) ?child idem prompt, Inr response)]"
          using c3 by (simp add: newCalls_def)
        ultimately show ?thesis
          using accepted[of pre mp cx idem prompt response ma mw rid] True reg3 det3 go(2) f1(4)
          by simp
      next
        case False
        obtain r5 w5 where a: "spawnAwait env ?child rid (dbl (?ts * 1000)) ?w4 = (r5, w5)"
          by (cases "spawnAwait env ?child rid (dbl (?ts * 1000)) ?w4")
        from spawnAwait_effect[OF a] have
          f5: "registry w5 = ?reg" "detached w5 = detached w" using det3 by simp_all
        have cl5: "claimed (registry w5) = claimed (registry w)"
          using f5(1) reg3 by (simp add: registerSubagentRun_def)
        from spawnAwait_effect[OF a] consider
          (answered) ans where
            "calls w5 = calls ?w4 @ [(agentWaitFor rid (dbl (?ts * 1000)), Inr ans)]"
            "r5 = Inr \<lparr>wi_status = asString (getProp ans ''status''),
                       wi_error = asString (getProp ans ''error''),
                       wi_startedAt = asNumber (getProp ans ''startedAt''),
                       wi_endedAt = asNumber (getProp ans ''endedAt'')\<rparr>"
        | (broke) err where
            "calls w5 = calls ?w4 @ [(agentWaitFor rid (dbl (?ts * 1000)), Inl err)]"
            "r5 = Inl \<lparr>res_status =
                         (if includesStr (messageText err) ''gateway timeout'' then ''timeout''
                          else ''error''),
                       res_error = Some (messageText err),
                       res_childSessionKey = Some ?child, res_runId = Some rid,
                       res_reply = None, res_modelApplied = None, res_warning = None\<rparr>"
          by blast
        then show ?thesis
        proof cases
          case broke
          have "out = Inr \<lparr>res_status =
                         (if includesStr (messageText err) ''gateway timeout'' then ''timeout''
                          else ''error''),
                       res_error = Some (messageText err),
                       res_childSessionKey = Some ?child, res_runId = Some rid,
                       res_reply = None, res_modelApplied = None, res_warning = None\<rparr>"
            and "w' = w5"
            using run p m s go(3) started(2) False a broke(2)
            by (simp_all add: spawnRun_def Let_def registered_def)
          moreover have "newCalls w w5 = pre @ mp @
                  [(agentStart (a_task args) ?child idem prompt, Inr response),
                   (agentWaitFor rid (dbl (?ts * 1000)), Inl err)]"
            using c3 broke(1) by (simp add: newCalls_def)
          ultimately show ?thesis
            using wait_failed[of pre mp ?child idem prompt response rid err ma mw]
              False cl5 f5(2) go(2) f1(4) by simp
        next
          case answered
          let ?wi = "\<lparr>wi_status = asString (getProp ans ''status''),
                       wi_error = asString (getProp ans ''error''),
                       wi_startedAt = asNumber (getProp ans ''startedAt''),
                       wi_endedAt = asNumber (getProp ans ''endedAt'')\<rparr>"
          have c5: "calls w5 = calls w @ pre @ mp @
                  [(agentStart (a_task args) ?child idem prompt, Inr response),
                   (agentWaitFor rid (dbl (?ts * 1000)), Inr ans)]"
            using c3 answered(1) by simp
          have fin: "spawnComplete env opts cx (a_task args) (cleanupOf (a_cleanup args)) ?ms mw
                       rid ?wi w5 = (out, w')"
            using run p m s go(3) started(2) False a answered(2)
            by (simp add: spawnRun_def Let_def registered_def)
          from spawnComplete_effect[OF fin] consider
            (t) oc where "asString (getProp ans ''status'') = Some ''timeout''"
              "calls w' = calls w5 @ [(chatAbort ?child rid, oc)]"
              "registry w' = registry w5" "detached w' = detached w5"
              "out = Inr \<lparr>res_status = ''timeout'', res_error = asString (getProp ans ''error''),
                   res_childSessionKey = Some ?child,
                   res_runId = Some rid, res_reply = None,
                   res_modelApplied = ?ms, res_warning = mw\<rparr>"
          | (e) "asString (getProp ans ''status'') = Some ''error''"
              "calls w' = calls w5" "registry w' = registry w5" "detached w' = detached w5"
              "out = Inr \<lparr>res_status = ''error'',
                  res_error = (case asString (getProp ans ''error'') of
                                 Some e \<Rightarrow> Some e | None \<Rightarrow> Some ''agent error''),
                  res_childSessionKey = Some ?child, res_runId = Some rid, res_reply = None,
                  res_modelApplied = ?ms, res_warning = mw\<rparr>"
          | (x) err where "asString (getProp ans ''status'') \<noteq> Some ''timeout''"
              "asString (getProp ans ''status'') \<noteq> Some ''error''"
              "calls w' = calls w5" "registry w' = registry w5" "detached w' = detached w5"
              "out = Inl err"
          | (k) replyText where "asString (getProp ans ''status'') \<noteq> Some ''timeout''"
              "asString (getProp ans ''status'') \<noteq> Some ''error''"
              "calls w' = calls w5"
              "claimed (registry w') = insert rid (claimed (registry w5))"
              "detached w' = detached w5
               \<or> (\<exists>p. detached w' = detached w5 @ [p] \<and> ap_childRunId p = rid
                     \<and> rid \<notin> claimed (registry w5))"
              "out = Inr \<lparr>res_status = ''ok'', res_error = None,
                        res_childSessionKey = Some ?child,
                        res_runId = Some rid, res_reply = replyText,
                        res_modelApplied = ?ms, res_warning = mw\<rparr>"
            by auto
          then show ?thesis
          proof cases
            case t
            have "newCalls w w' = pre @ mp @
                  [(agentStart (a_task args) ?child idem prompt, Inr response),
                   (agentWaitFor rid (dbl (?ts * 1000)), Inr ans), (chatAbort ?child rid, oc)]"
              using c5 t(2) by (simp add: newCalls_def)
            then show ?thesis
              using timed_out[of pre mp ?child idem prompt response rid ans oc ma mw]
                False t cl5 f5(2) go(2) f1(4) by simp
          next
            case e
            have "newCalls w w' = pre @ mp @
                  [(agentStart (a_task args) ?child idem prompt, Inr response),
                   (agentWaitFor rid (dbl (?ts * 1000)), Inr ans)]"
              using c5 e(2) by (simp add: newCalls_def)
            then show ?thesis
              using run_error[of pre mp ?child idem prompt response rid ans ma mw]
                False e cl5 f5(2) go(2) f1(4) by simp
          next
            case x
            have "newCalls w w' = pre @ mp @
                  [(agentStart (a_task args) ?child idem prompt, Inr response),
                   (agentWaitFor rid (dbl (?ts * 1000)), Inr ans)]"
              using c5 x(3) by (simp add: newCalls_def)
            then show ?thesis
              using reply_threw[of pre mp ?child idem prompt response rid ans ma mw err]
                False x cl5 f5(2) go(2) f1(4) by simp
          next
            case k
            have "newCalls w w' = pre @ mp @
                  [(agentStart (a_task args) ?child idem prompt, Inr response),
                   (agentWaitFor rid (dbl (?ts * 1000)), Inr ans)]"
              using c5 k(3) by (simp add: newCalls_def)
            then show ?thesis
              using ok[of pre mp ?child idem prompt response rid ans ma mw replyText]
                False k cl5 f5(2) go(2) f1(4) by simp
          qed
        qed
      qed
    qed
  qed
qed


lemma request_methods [simp]:
  "rq_method (spawnedByPatch c k) = ''sessions.patch''"
  "rq_method (modelPatch c m) = ''sessions.patch''"
  "rq_method (agentStart t c i p) = ''agent''"
  "rq_method (agentWaitFor r d) = ''agent.wait''"
  "rq_method (agentWait r ms) = ''agent.wait''"
  "rq_method (chatAbort c r) = ''chat.abort''"
  "rq_method (sendMessage tg msg i) = ''send''"
  "rq_method (sessionsDelete c) = ''sessions.delete''"
  by (simp_all add: spawnedByPatch_def modelPatch_def agentStart_def agentWait_def
        agentWaitFor_def chatAbort_def sendMessage_def sessionsDelete_def)

lemma isModelPatch_simps [simp]:
  "\<not> isModelPatch (spawnedByPatch c k)"
  "isModelPatch (modelPatch c m)"
  "\<not> isModelPatch (agentStart t c i p)"
  "\<not> isModelPatch (agentWaitFor r d)"
  "\<not> isModelPatch (agentWait r ms)"
  "\<not> isModelPatch (chatAbort c r)"
  by (simp_all add: isModelPatch_def spawnedByPatch_def modelPatch_def agentStart_def
        agentWait_def agentWaitFor_def chatAbort_def)

lemma prepCalls_mem:
  "prepCalls pre \<Longrightarrow> c \<in> set pre \<Longrightarrow>
     rq_method (fst c) = ''sessions.patch'' \<and> \<not> isModelPatch (fst c)"
  by (auto simp: prepCalls_def)

lemma modelCalls_mem:
  "modelCalls model child mp ma mw \<Longrightarrow> c \<in> set mp \<Longrightarrow>
     mp = [c] \<and> (\<exists>m. model = Some m \<and> m \<noteq> [] \<and> fst c = modelPatch child m)
     \<and> (case snd c of
           Inr ack \<Rightarrow> ma \<and> mw = None
         | Inl err \<Rightarrow> recoverable (messageText err) \<and> \<not> ma \<and> mw = Some (messageText err))"
  by (auto simp: modelCalls_def)

lemma modelCalls_truthy:
  "modelCalls (Some m) child mp ma mw \<Longrightarrow> m \<noteq> [] \<Longrightarrow> \<exists>oc. mp = [(modelPatch child m, oc)]"
  by (auto simp: modelCalls_def)

lemma execute_cases:
  assumes "execute env opts args w = (out, w')"
  shows "(out = Inr forbiddenResult \<and> w' = w) \<or> spawnRun env opts args w = (out, w')"
  using assms by (auto simp: execute_def split: if_splits)

lemma newCalls_self [simp]: "newCalls w w = []"
  by (simp add: newCalls_def)

lemma unique_split:
  assumes "xs @ c # ys = xs' @ c' # ys'" and "P c" and "P c'"
      and "\<forall>a\<in>set xs'. \<not> P a" and "\<forall>a\<in>set ys'. \<not> P a"
  shows "xs = xs' \<and> c = c' \<and> ys = ys'"
  using assms
proof (induction xs arbitrary: xs')
  case Nil
  then show ?case by (cases xs') auto
next
  case (Cons x xs)
  show ?case
  proof (cases xs')
    case Nil
    then show ?thesis using Cons.prems by auto
  next
    case (Cons a as)
    then show ?thesis using Cons.IH[of as] Cons.prems by auto
  qed
qed

lemma timeoutSecondsOf_jsInt [simp]: "timeoutSecondsOf (jsInt n) = max 0 n"
  by (simp add: timeoutSecondsOf_def jsInt_def)

lemma execute_timeoutSeconds_cong:
  "timeoutSecondsOf v = timeoutSecondsOf v' \<Longrightarrow>
     execute env opts (args\<lparr>a_timeoutSeconds := v\<rparr>) w
       = execute env opts (args\<lparr>a_timeoutSeconds := v'\<rparr>) w"
  by (simp add: execute_def spawnRun_def)

lemma agentWait_fields:
  "map_of (rq_params (agentWaitFor rid t)) ''timeoutMs'' = Some (JNum t)"
  "rq_timeoutMs (agentWaitFor rid t) = jsAddInt t 2000"
  by (simp_all add: agentWaitFor_def)

lemma roundNat_exact: "a < 2 ^ 53 \<Longrightarrow> roundNat a = Some a"
  by (simp add: roundNat_def)

lemma dbl_exact: "\<bar>n\<bar> < 2 ^ 53 \<Longrightarrow> dbl n = Finite (of_int n)"
proof -
  assume a: "\<bar>n\<bar> < 2 ^ 53"
  then have "nat \<bar>n\<bar> < 2 ^ 53"
    by (metis abs_ge_zero nat_less_numeral_power_cancel_iff)
  from roundNat_exact[OF this] show ?thesis by (simp add: dbl_def)
qed

lemma agentWaitFor_exact:
  assumes "0 \<le> n" and "n + 2000 < 2 ^ 53"
  shows "agentWaitFor rid (dbl n) = agentWait rid n
       \<and> map_of (rq_params (agentWait rid n)) ''timeoutMs'' = Some (jsInt n)
       \<and> rq_timeoutMs (agentWait rid n) = Finite (of_int (n + 2000))"
proof -
  have "\<bar>n\<bar> < 2 ^ 53" and "\<bar>n + 2000\<bar> < 2 ^ 53" using assms by simp_all
  then have "dbl n = Finite (of_int n)" and "dbl (n + 2000) = Finite (of_int (n + 2000))"
    by (simp_all only: dbl_exact)
  then show ?thesis
    by (simp add: agentWait_def agentWaitFor_def jsAddInt_def jsInt_def)
qed

lemma dbl_rounds:
  "dbl ((2 ^ 53 - 1) * 1000) = Finite 9007199254740990976
   \<and> dbl (2 ^ 53 + 1) = Finite (2 ^ 53)"
  by (simp add: dbl_def roundNat_def bitLength.simps Let_def)

lemma wait_call_in_log:
  assumes run: "execute env opts args w = (out, w')"
      and mem: "(wreq, oc) \<in> set (newCalls w w')" and meth: "rq_method wreq = ''agent.wait''"
  shows "timeoutSecondsOf (a_timeoutSeconds args) \<noteq> 0
       \<and> (\<exists>rid. wreq = agentWaitFor rid (dbl (timeoutSecondsOf (a_timeoutSeconds args) * 1000)))"
proof -
  from execute_cases[OF run] mem have sr: "spawnRun env opts args w = (out, w')"
    by auto
  from sr show ?thesis
    by (cases rule: spawnRun_paths)
       (use mem meth in \<open>auto dest: prepCalls_mem modelCalls_mem\<close>)
qed

lemma max0_nonzero: "max 0 (n::int) \<noteq> 0 \<Longrightarrow> 0 < n \<and> max 0 n = n"
  by arith

lemma methods_append [simp]: "methods (xs @ ys) = methods xs @ methods ys"
  by (simp add: methods_def)

lemma methods_Cons [simp]: "methods (c # cs) = rq_method (fst c) # methods cs"
  by (simp add: methods_def)

lemma methods_Nil [simp]: "methods [] = []"
  by (simp add: methods_def)

lemma prepCalls_methods: "prepCalls pre \<Longrightarrow> set (methods pre) \<subseteq> {''sessions.patch''}"
  by (auto simp: prepCalls_def)

lemma modelCalls_methods:
  "modelCalls model child mp ma mw \<Longrightarrow> set (methods mp) \<subseteq> {''sessions.patch''}"
  by (auto simp: modelCalls_def)

text \<open>The tool on raw parameters, and the registry operations of a run.\<close>

lemma sessions_spawn_cases:
  assumes "sessions_spawn env opts params w = (out, w')"
  shows "(\<exists>err. out = Inl err \<and> w' = w
            \<and> (readArgs env params = Inl err
                \<or> (\<exists>args. readArgs env params = Inr args) \<and> loadConfig env (ext w) = Some err))
       \<or> (\<exists>args. readArgs env params = Inr args \<and> loadConfig env (ext w) = None
            \<and> execute env opts args w = (out, w'))"
  using assms by (auto simp: sessions_spawn_def split: sum.splits option.splits)

lemma readArgs_cases:
  "readArgs env params =
     (case readRequiredStringParam env params ''task'' of
        Inl err \<Rightarrow> Inl err
      | Inr task \<Rightarrow>
          (case readStringParam env params ''model'' of
             Inl err \<Rightarrow> Inl err
           | Inr model \<Rightarrow>
               Inr \<lparr>a_task = task, a_label = getProp (JObj params) ''label'', a_model = model,
                    a_timeoutSeconds = getProp (JObj params) ''timeoutSeconds'',
                    a_cleanup = getProp (JObj params) ''cleanup''\<rparr>))"
  by (simp add: readArgs_def)








lemma runDetached_Nil [simp]: "runDetached env [] w = w"
  by (simp add: runDetached_def)


lemma patches_not_send:
  "prepCalls pre \<Longrightarrow> ''send'' \<notin> set (methods pre)"
  "modelCalls model child mp ma mw \<Longrightarrow> ''send'' \<notin> set (methods mp)"
  using prepCalls_methods[of pre] modelCalls_methods[of model child mp ma mw] by auto

lemma execute_never_sends:
  assumes "execute env opts args w = (out, w')"
  shows "''send'' \<notin> set (methods (newCalls w w'))"
proof -
  from execute_cases[OF assms] show ?thesis
  proof
    assume "out = Inr forbiddenResult \<and> w' = w"
    then show ?thesis by simp
  next
    assume "spawnRun env opts args w = (out, w')"
    then show ?thesis
      by (cases rule: spawnRun_paths) (auto simp: patches_not_send)
  qed
qed

lemma started_paths:
  assumes run: "execute env opts args w = (out, w')"
      and started: "(areq, Inr response) \<in> set (newCalls w w')"
      and agent: "rq_method areq = ''agent''"
  shows "(timeoutSecondsOf (a_timeoutSeconds args) = 0
          \<and> (\<exists>res. out = Inr res \<and> res_status res = ''accepted'')
          \<and> ''agent.wait'' \<notin> set (methods (newCalls w w')))
       \<or> (timeoutSecondsOf (a_timeoutSeconds args) \<noteq> 0
          \<and> (\<exists>rid oc. (agentWaitFor rid (dbl (timeoutSecondsOf (a_timeoutSeconds args) * 1000)), oc)
                 \<in> set (newCalls w w')))"
proof -
  from execute_cases[OF run] started have sr: "spawnRun env opts args w = (out, w')"
    by auto
  from sr show ?thesis
  proof (cases rule: spawnRun_paths)
    case (patch_fatal child pre m err)
    then show ?thesis using started agent by (auto dest: prepCalls_mem)
  next
    case (start_failed child pre mp ma mw idem prompt err)
    then show ?thesis using started agent by (auto dest: prepCalls_mem modelCalls_mem)
  next
    case (accepted cx pre mp ma mw idem prompt response rid)
    then show ?thesis
      using prepCalls_methods[of pre]
        modelCalls_methods[of "a_model args" "cx_childSessionKey cx" mp ma mw]
      by auto
  qed auto
qed

section \<open>The stub, evaluated\<close>

lemmas spawn_defs = execute_def spawnRun_def spawnPrepare_def spawnApplyModel_def
  spawnStartRun_def spawnAwait_def spawnComplete_def gatewayCall_def outside_def
  beginSubagentAnnounce_def registerSubagentRun_def Let_def

lemmas stub_defs = stubEnv_def stubGateway_def world0_def mainOpts_def taskArgs_def
  agentWait_def dbl_def roundNat_def
  emptyRegistry_def labelOf_def cleanupOf_def scriptedEnv_def scriptedGateway_def
  stubChild_def stubStart_def stubAccepted_def stubRun_def stubResult_def stubWorld_def
  recoverable_def

lemma stub_task_read:
  "readRequiredStringParam stubEnv (taskParams v) ''task'' = Inr ''do thing''
   \<and> readStringParam stubEnv (taskParams v) ''model'' = Inr None
   \<and> readRequiredStringParam stubEnv [(''timeoutSeconds'', v)] ''task''
       = Inl (ErrorObject ''task required'')
   \<and> loadConfig stubEnv x = None
   \<and> isSubagentSessionKey stubEnv ''agent:main:subagent:0a1b''"
  by (simp add: stubEnv_def taskParams_def trim_def isWs1_def isWs2_def isWs3_def)

lemma accepted_run:
  "execute stubEnv mainOpts (taskArgs None JUndefined) world0
     = (Inr (stubResult ''accepted''), stubWorld [(stubStart, Inr stubAccepted)] 2)"
  by (simp add: spawn_defs stub_defs timeoutSecondsOf_def)

lemma bad_model_run:
  "execute (scriptedEnv (Inl (ErrorObject ''invalid model: bad-model''))
                        (Inr (JObj [(''status'', JStr ''ok'')])))
       mainOpts (taskArgs (Some ''bad-model'') (jsInt 1)) world0
     = (Inr ((stubResult ''ok'')\<lparr>res_reply := Some ''result'', res_modelApplied := Some False,
                                 res_warning := Some ''invalid model: bad-model''\<rparr>),
        (stubWorld [(modelPatch stubChild ''bad-model'',
                       Inl (ErrorObject ''invalid model: bad-model'')),
                    (stubStart, Inr stubAccepted),
                    (agentWait ''run-1'' 1000, Inr (JObj [(''status'', JStr ''ok'')]))] 2)
          \<lparr>registry := \<lparr>runs = [''run-1'' \<mapsto> stubRun], claimed = {''run-1''}\<rparr>,
           registryOps := [Register stubRun, ClaimAnnounce ''run-1''],
           detached := [\<lparr>ap_childSessionKey = stubChild, ap_childRunId = ''run-1'',
                          ap_requesterSessionKey = ''main'',
                          ap_requesterProvider = Some ''whatsapp'',
                          ap_requesterDisplayKey = ''main'', ap_task = ''do thing'',
                          ap_timeoutMs = 30000, ap_cleanup = Keep,
                          ap_roundOneReply = Some ''result'', ap_waitForCompletion = None,
                          ap_startedAt = None, ap_endedAt = None\<rparr>]\<rparr>)"
  by (simp add: spawn_defs stub_defs)

lemma fatal_patch_run:
  "execute (scriptedEnv (Inl (ErrorObject ''gateway closed'')) (Inr (JObj [])))
       mainOpts (taskArgs (Some ''bad-model'') (jsInt 1)) world0
     = (Inr \<lparr>res_status = ''error'', res_error = Some ''gateway closed'',
             res_childSessionKey = Some stubChild, res_runId = None, res_reply = None,
             res_modelApplied = None, res_warning = None\<rparr>,
        world0\<lparr>ext := 1,
               calls := [(modelPatch stubChild ''bad-model'',
                            Inl (ErrorObject ''gateway closed''))]\<rparr>)"
  by (simp add: spawn_defs stub_defs)

lemma bad_model_wait_broken_run:
  "execute (scriptedEnv (Inl (ErrorObject ''invalid model: bad-model''))
                        (Inl (ErrorObject ''gateway timeout after 3000ms'')))
       mainOpts (taskArgs (Some ''bad-model'') (jsInt 1)) world0
     = (Inr ((stubResult ''timeout'')\<lparr>res_error := Some ''gateway timeout after 3000ms''\<rparr>),
        stubWorld [(modelPatch stubChild ''bad-model'',
                      Inl (ErrorObject ''invalid model: bad-model'')),
                   (stubStart, Inr stubAccepted),
                   (agentWait ''run-1'' 1000,
                      Inl (ErrorObject ''gateway timeout after 3000ms''))] 2)"
  by (simp add: spawn_defs stub_defs)




lemma floor_five_halves: "\<lfloor>5 / 2 :: rat\<rfloor> = 2"
  using floor_divide_of_int_eq[of 5 2, where ?'a = rat] by simp

lemma fractional_run:
  "execute stubEnv mainOpts (taskArgs None (JNum (Finite (5 / 2)))) world0
     = (Inr ((stubResult ''ok'')\<lparr>res_reply := Some ''result''\<rparr>),
        (stubWorld [(stubStart, Inr stubAccepted),
                    (agentWait ''run-1'' 2000,
                       Inr (JObj [(''runId'', JStr ''run-1''), (''status'', JStr ''ok'')]))] 2)
          \<lparr>registry := \<lparr>runs = [''run-1'' \<mapsto> stubRun], claimed = {''run-1''}\<rparr>,
           registryOps := [Register stubRun, ClaimAnnounce ''run-1''],
           detached := [\<lparr>ap_childSessionKey = stubChild, ap_childRunId = ''run-1'',
                          ap_requesterSessionKey = ''main'',
                          ap_requesterProvider = Some ''whatsapp'',
                          ap_requesterDisplayKey = ''main'', ap_task = ''do thing'',
                          ap_timeoutMs = 30000, ap_cleanup = Keep,
                          ap_roundOneReply = Some ''result'', ap_waitForCompletion = None,
                          ap_startedAt = None, ap_endedAt = None\<rparr>]\<rparr>)"
  by (simp add: spawn_defs stub_defs timeoutSecondsOf_def floor_five_halves)

section \<open>Properties of the announce gate\<close>

text \<open>
  What \<open>execute\<close> does with the gate: it never releases a claim, and it starts at most
  one announce flow, for a \<open>runId\<close> that was unclaimed before and is claimed after.
\<close>

lemma execute_launch:
  assumes "execute env opts args w = (out, w')"
  shows "claimed (registry w) \<subseteq> claimed (registry w')
       \<and> (detached w' = detached w
           \<or> (\<exists>p. detached w' = detached w @ [p]
                 \<and> ap_childRunId p \<notin> claimed (registry w)
                 \<and> ap_childRunId p \<in> claimed (registry w')))"
proof -
  from execute_cases[OF assms] show ?thesis
  proof
    assume "out = Inr forbiddenResult \<and> w' = w"
    then show ?thesis by simp
  next
    assume "spawnRun env opts args w = (out, w')"
    then show ?thesis
    proof (cases rule: spawnRun_paths)
      case (accepted cx pre mp ma mw idem prompt response rid)
      then show ?thesis by (simp add: registerSubagentRun_def)
    next
      case (ok child pre mp ma mw idem prompt response rid ans replyText)
      then show ?thesis by auto
    qed simp_all
  qed
qed

text \<open>
  C1. For any \<open>runId\<close> and any interleaving of registry operations, made of however
  many claim calls and registrations in whatever order, the answers to the claim calls
  for that \<open>runId\<close> are: false every time when the gate was already claimed, and otherwise
  true for the first call and false for every later one; so the answer list holds at
  most one \<open>True\<close>. Consequently \<open>execute\<close> starts the announce flow at most once per
  \<open>runId\<close>: a run of it leaves every claim in place, and when it starts a flow, that
  flow's \<open>runId\<close> was unclaimed before the run and is claimed after it, so that no later
  run starts one for the same \<open>runId\<close>.
\<close>

theorem beginSubagentAnnounce_exactly_once:
  "answersFor runId (claimResults reg ops) =
     (if runId \<in> claimed reg then replicate (claimCalls runId ops) False
      else take (claimCalls runId ops) (True # replicate (claimCalls runId ops) False))
   \<and> length (filter (\<lambda>b. b) (answersFor runId (claimResults reg ops))) \<le> 1
   \<and> (\<forall>env opts args (w :: 'x world) out w'.
         execute env opts args w = (out, w') \<longrightarrow>
           claimed (registry w) \<subseteq> claimed (registry w')
           \<and> (detached w' = detached w
               \<or> (\<exists>p. detached w' = detached w @ [p]
                     \<and> ap_childRunId p \<notin> claimed (registry w)
                     \<and> ap_childRunId p \<in> claimed (registry w'))))"
proof -
  have a: "answersFor runId (claimResults reg ops) =
     (if runId \<in> claimed reg then replicate (claimCalls runId ops) False
      else take (claimCalls runId ops) (True # replicate (claimCalls runId ops) False))"
    using claimResults_claimed[of runId reg ops] claimResults_unclaimed[of runId reg ops]
    by simp
  have "length (filter (\<lambda>b. b) (replicate n False)) = 0" for n by simp
  moreover have "length (filter (\<lambda>b. b) (take n (True # replicate n False))) \<le> 1" for n
    by (cases n) (simp_all add: take_Cons_replicate)
  ultimately have b: "length (filter (\<lambda>b. b) (answersFor runId (claimResults reg ops))) \<le> 1"
    using a by (simp split: if_splits)
  from a b execute_launch show ?thesis by blast
qed

theorem beginSubagentAnnounce_exactly_once_witness:
  "answersFor ''run-1''
      (claimResults emptyRegistry
         [ClaimAnnounce ''run-1'', Register stubRun, ClaimAnnounce ''run-2'',
          ClaimAnnounce ''run-1'', ClaimAnnounce ''run-1''])
     = [True, False, False]
   \<and> detached (snd (execute stubEnv mainOpts (taskArgs None (JNum (Finite (5 / 2)))) world0))
       = [stubAnnounce Keep]
   \<and> claimed (registry (snd (execute stubEnv mainOpts (taskArgs None (JNum (Finite (5 / 2))))
        world0))) = {''run-1''}
   \<and> ap_childRunId (stubAnnounce Keep) \<notin> claimed (registry world0)"
proof -
  let ?ops = "[ClaimAnnounce ''run-1'', Register stubRun, ClaimAnnounce ''run-2'',
          ClaimAnnounce ''run-1'', ClaimAnnounce ''run-1'']"
  let ?w = "snd (execute stubEnv mainOpts (taskArgs None (JNum (Finite (5 / 2)))) world0)"
  note t = beginSubagentAnnounce_exactly_once[of "''run-1''" emptyRegistry ?ops,
      where ?'x = nat]
  have a: "answersFor ''run-1'' (claimResults emptyRegistry ?ops) = [True, False, False]"
    using t[THEN conjunct1] by (simp add: claimCalls_def emptyRegistry_def)
  have d: "detached ?w = [stubAnnounce Keep]"
    unfolding fractional_run by (simp add: stubAnnounce_def stubWorld_def)
  have c: "claimed (registry ?w) = {''run-1''}"
    unfolding fractional_run by simp
  have e: "execute stubEnv mainOpts (taskArgs None (JNum (Finite (5 / 2)))) world0
      = (fst (execute stubEnv mainOpts (taskArgs None (JNum (Finite (5 / 2)))) world0), ?w)"
    by simp
  from t[THEN conjunct2, THEN conjunct2, rule_format, OF e, THEN conjunct2]
  have "ap_childRunId (stubAnnounce Keep) \<notin> claimed (registry world0)"
    unfolding d by (simp add: world0_def)
  with a d c show ?thesis by (intro conjI)
qed

section \<open>Properties of the Spawn Orchestrator\<close>

text \<open>
  C2 (amended). When the requester session key is recognised as a sub-agent key, the
  tool leaves the world as it was, whatever its parameters: it makes no gateway call of
  any method, so the run-start method \<open>agent\<close> is never invoked. When the parameters
  \<open>task\<close> and \<open>model\<close> are read and the configuration is loaded without a throw, it
  returns (it does not throw) the result with status \<open>forbidden\<close>. When one of them
  throws, what was thrown leaves the tool: lines 52, 54 and 68 run before the guard of
  line 71.
\<close>

theorem spawn_forbidden_from_subagent:
  assumes key: "agentSessionKey opts = Some k" and sub: "isSubagentSessionKey env k"
  shows "snd (sessions_spawn env opts params w) = w
       \<and> newCalls w (snd (sessions_spawn env opts params w)) = []
       \<and> (\<forall>task model.
             readRequiredStringParam env params ''task'' = Inr task
             \<and> readStringParam env params ''model'' = Inr model
             \<and> loadConfig env (ext w) = None
           \<longrightarrow> fst (sessions_spawn env opts params w) = Inr forbiddenResult
               \<and> res_status forbiddenResult = ''forbidden'')
       \<and> (\<forall>err. readRequiredStringParam env params ''task'' = Inl err
           \<longrightarrow> fst (sessions_spawn env opts params w) = Inl err)
       \<and> (\<forall>task err.
             readRequiredStringParam env params ''task'' = Inr task
             \<and> readStringParam env params ''model'' = Inl err
           \<longrightarrow> fst (sessions_spawn env opts params w) = Inl err)
       \<and> (\<forall>task model err.
             readRequiredStringParam env params ''task'' = Inr task
             \<and> readStringParam env params ''model'' = Inr model
             \<and> loadConfig env (ext w) = Some err
           \<longrightarrow> fst (sessions_spawn env opts params w) = Inl err)"
proof -
  have guard: "execute env opts args w = (Inr forbiddenResult, w)" for args
    using key sub by (simp add: execute_def)
  have same: "snd (sessions_spawn env opts params w) = w"
    using guard by (simp add: sessions_spawn_def split: sum.splits option.splits)
  show ?thesis
    using same guard
    by (simp add: sessions_spawn_def readArgs_def forbiddenResult_def)
qed

theorem spawn_forbidden_from_subagent_witness:
  "agentSessionKey subagentOpts = Some ''agent:main:subagent:0a1b''
   \<and> isSubagentSessionKey stubEnv ''agent:main:subagent:0a1b''
   \<and> readRequiredStringParam stubEnv (taskParams (jsInt 1)) ''task'' = Inr ''do thing''
   \<and> readStringParam stubEnv (taskParams (jsInt 1)) ''model'' = Inr None
   \<and> loadConfig stubEnv (ext world0) = None
   \<and> sessions_spawn stubEnv subagentOpts (taskParams (jsInt 1)) world0
       = (Inr forbiddenResult, world0)
   \<and> res_status forbiddenResult = ''forbidden''
   \<and> newCalls world0 (snd (sessions_spawn stubEnv subagentOpts (taskParams (jsInt 1)) world0))
       = []"
proof -
  have k: "agentSessionKey subagentOpts = Some ''agent:main:subagent:0a1b''"
    by (simp add: subagentOpts_def)
  have s: "isSubagentSessionKey stubEnv ''agent:main:subagent:0a1b''"
    using stub_task_read by blast
  note t = spawn_forbidden_from_subagent[OF k s, of "taskParams (jsInt 1)" world0]
  have h: "readRequiredStringParam stubEnv (taskParams (jsInt 1)) ''task'' = Inr ''do thing''
      \<and> readStringParam stubEnv (taskParams (jsInt 1)) ''model'' = Inr None
      \<and> loadConfig stubEnv (ext world0) = None"
    using stub_task_read by blast
  from t[THEN conjunct2, THEN conjunct2, THEN conjunct1, rule_format, OF h]
  have r: "fst (sessions_spawn stubEnv subagentOpts (taskParams (jsInt 1)) world0)
        = Inr forbiddenResult" and f: "res_status forbiddenResult = ''forbidden''"
    by simp_all
  from r t[THEN conjunct1]
  have "sessions_spawn stubEnv subagentOpts (taskParams (jsInt 1)) world0
       = (Inr forbiddenResult, world0)"
    by (metis prod.collapse)
  with k s h f t[THEN conjunct2, THEN conjunct1] show ?thesis by (intro conjI) simp_all
qed

text \<open>
  The claim as first stated fails: for parameters without a \<open>task\<close>, requested from a
  sub-agent session, reading the required parameter throws at line 52, and the tool
  throws instead of returning the result with status \<open>forbidden\<close>.
\<close>

theorem spawn_throws_before_guard_counterexample:
  "agentSessionKey subagentOpts = Some ''agent:main:subagent:0a1b''
   \<and> isSubagentSessionKey stubEnv ''agent:main:subagent:0a1b''
   \<and> sessions_spawn stubEnv subagentOpts [(''timeoutSeconds'', jsInt 1)] world0
       = (Inl (ErrorObject ''task required''), world0)"
  using stub_task_read[of "jsInt 1"]
  by (simp add: sessions_spawn_def readArgs_def subagentOpts_def)

text \<open>
  C9. When \<open>timeoutSeconds\<close> is 0 and the run-start call \<open>agent\<close> succeeded, \<open>execute\<close>
  returns a result with status \<open>accepted\<close> at once: the run-start call is the last
  gateway call it made, no \<open>agent.wait\<close> call is in the log, the announce gate is not
  claimed, no announce flow is started, and the run is in the registry under the
  returned \<open>runId\<close>, with its child session key, task and cleanup policy.
\<close>

theorem fire_and_forget_accepted:
  assumes run: "execute env opts args w = (out, w')"
      and zero: "timeoutSecondsOf (a_timeoutSeconds args) = 0"
      and started: "(areq, Inr response) \<in> set (newCalls w w')"
      and agent: "rq_method areq = ''agent''"
  shows "\<exists>res rid. out = Inr res \<and> res_status res = ''accepted'' \<and> res_runId res = Some rid
           \<and> fst (last (newCalls w w')) = areq
           \<and> ''agent.wait'' \<notin> set (methods (newCalls w w'))
           \<and> claimed (registry w') = claimed (registry w)
           \<and> detached w' = detached w
           \<and> (\<exists>r. runs (registry w') rid = Some r \<and> run_runId r = rid
                  \<and> Some (run_childSessionKey r) = res_childSessionKey res
                  \<and> run_task r = a_task args
                  \<and> run_cleanup r = cleanupOf (a_cleanup args))"
proof -
  from execute_cases[OF run] started have sr: "spawnRun env opts args w = (out, w')"
    by auto
  from sr show ?thesis
  proof (cases rule: spawnRun_paths)
    case (patch_fatal child pre m err)
    then show ?thesis using started agent by (auto dest: prepCalls_mem)
  next
    case (start_failed child pre mp ma mw idem prompt err)
    then show ?thesis using started agent by (auto dest: prepCalls_mem modelCalls_mem)
  next
    case (accepted cx pre mp ma mw idem prompt response' rid)
    have "areq = agentStart (a_task args) (cx_childSessionKey cx) idem prompt"
      using accepted(2,3,4) started agent by (auto dest: prepCalls_mem modelCalls_mem)
    moreover have "''agent.wait'' \<notin> set (methods (newCalls w w'))"
      using accepted(2,3,4) by (auto simp: methods_def dest: prepCalls_mem modelCalls_mem)
    ultimately show ?thesis
      using accepted by (simp add: registerSubagentRun_def registered_def)
  qed (use zero in simp_all)
qed

theorem fire_and_forget_accepted_witness:
  "timeoutSecondsOf (a_timeoutSeconds (taskArgs None JUndefined)) = 0
   \<and> (stubStart, Inr stubAccepted)
        \<in> set (newCalls world0 (stubWorld [(stubStart, Inr stubAccepted)] (2::nat)))
   \<and> rq_method stubStart = ''agent''
   \<and> execute stubEnv mainOpts (taskArgs None JUndefined) world0
        = (Inr (stubResult ''accepted''), stubWorld [(stubStart, Inr stubAccepted)] 2)
   \<and> res_status (stubResult ''accepted'') = ''accepted''
   \<and> ''agent.wait'' \<notin> set (methods (newCalls world0 (stubWorld [(stubStart, Inr stubAccepted)] (2::nat))))
   \<and> claimed (registry (stubWorld [(stubStart, Inr stubAccepted)] (2::nat))) = claimed (registry world0)
   \<and> detached (stubWorld [(stubStart, Inr stubAccepted)] (2::nat)) = detached world0
   \<and> runs (registry (stubWorld [(stubStart, Inr stubAccepted)] (2::nat))) ''run-1'' = Some stubRun"
proof -
  let ?w = "stubWorld [(stubStart, Inr stubAccepted)] (2::nat)"
  have zero: "timeoutSecondsOf (a_timeoutSeconds (taskArgs None JUndefined)) = 0"
    by (simp add: taskArgs_def timeoutSecondsOf_def)
  have started: "(stubStart, Inr stubAccepted) \<in> set (newCalls world0 ?w)"
    by (simp add: newCalls_def world0_def stubWorld_def)
  have agent: "rq_method stubStart = ''agent''"
    by (simp add: stubStart_def)
  from fire_and_forget_accepted[OF accepted_run zero started agent]
  have "''agent.wait'' \<notin> set (methods (newCalls world0 ?w))
      \<and> claimed (registry ?w) = claimed (registry world0)
      \<and> detached ?w = detached world0"
    by blast
  moreover have "runs (registry ?w) ''run-1'' = Some stubRun"
    by (simp add: stubWorld_def registerSubagentRun_def stubRun_def)
  moreover have "res_status (stubResult ''accepted'') = ''accepted''"
    by (simp add: stubResult_def)
  ultimately show ?thesis using zero started agent accepted_run by blast
qed

text \<open>
  C10. The \<open>timeoutSeconds\<close> argument is coerced to \<open>max(0, floor(value))\<close>: a value
  that is missing or is not a finite number behaves exactly like 0, and a finite number
  \<open>q\<close> exactly like the whole number \<open>max 0 \<lfloor>q\<rfloor>\<close>, so a negative one like 0. Once the
  run has started: when the value is missing, is not a finite number or has \<open>\<lfloor>q\<rfloor> < 1\<close>,
  the result is \<open>accepted\<close> and no \<open>agent.wait\<close> call is made; when \<open>\<lfloor>q\<rfloor> \<ge> 1\<close>, an
  \<open>agent.wait\<close> call is made that asks for \<open>\<lfloor>q\<rfloor> * 1000\<close> milliseconds, the product
  being one of doubles, with an RPC timeout 2000 ms longer; below \<open>2^53\<close> ms these
  are the exact numbers. No other \<open>agent.wait\<close> call is made. The tool hands
  \<^verbatim>\<open>params.timeoutSeconds\<close> to these lines as it receives it, once the parameters
  are read and the configuration is loaded.
\<close>

theorem timeoutSeconds_coerced:
  "((\<forall>q. v \<noteq> JNum (Finite q)) \<longrightarrow>
       execute env opts (args\<lparr>a_timeoutSeconds := v\<rparr>) w
         = execute env opts (args\<lparr>a_timeoutSeconds := jsInt 0\<rparr>) w)
   \<and> execute env opts (args\<lparr>a_timeoutSeconds := JNum (Finite q)\<rparr>) w
         = execute env opts (args\<lparr>a_timeoutSeconds := jsInt (max 0 \<lfloor>q\<rfloor>)\<rparr>) w
   \<and> (\<forall>out w' areq response.
         execute env opts (args\<lparr>a_timeoutSeconds := v\<rparr>) w = (out, w')
         \<and> (areq, Inr response) \<in> set (newCalls w w') \<and> rq_method areq = ''agent''
         \<and> \<not> (\<exists>r. v = JNum (Finite r) \<and> 1 \<le> \<lfloor>r\<rfloor>)
         \<longrightarrow> (\<exists>res. out = Inr res \<and> res_status res = ''accepted'')
             \<and> ''agent.wait'' \<notin> set (methods (newCalls w w')))
   \<and> (\<forall>out w' areq response r.
         execute env opts (args\<lparr>a_timeoutSeconds := v\<rparr>) w = (out, w')
         \<and> (areq, Inr response) \<in> set (newCalls w w') \<and> rq_method areq = ''agent''
         \<and> v = JNum (Finite r) \<and> 1 \<le> \<lfloor>r\<rfloor>
         \<longrightarrow> (\<exists>rid oc. (agentWaitFor rid (dbl (\<lfloor>r\<rfloor> * 1000)), oc) \<in> set (newCalls w w')
                 \<and> (\<lfloor>r\<rfloor> * 1000 + 2000 < 2 ^ 53 \<longrightarrow>
                      agentWaitFor rid (dbl (\<lfloor>r\<rfloor> * 1000)) = agentWait rid (\<lfloor>r\<rfloor> * 1000)
                      \<and> map_of (rq_params (agentWait rid (\<lfloor>r\<rfloor> * 1000))) ''timeoutMs''
                          = Some (jsInt (\<lfloor>r\<rfloor> * 1000))
                      \<and> rq_timeoutMs (agentWait rid (\<lfloor>r\<rfloor> * 1000))
                          = Finite (of_int (\<lfloor>r\<rfloor> * 1000 + 2000)))))
   \<and> (\<forall>out w' wreq oc.
         execute env opts (args\<lparr>a_timeoutSeconds := v\<rparr>) w = (out, w')
         \<and> (wreq, oc) \<in> set (newCalls w w') \<and> rq_method wreq = ''agent.wait''
         \<longrightarrow> (\<exists>r rid. v = JNum (Finite r) \<and> 1 \<le> \<lfloor>r\<rfloor>
                  \<and> wreq = agentWaitFor rid (dbl (\<lfloor>r\<rfloor> * 1000))
                  \<and> map_of (rq_params wreq) ''timeoutMs'' = Some (JNum (dbl (\<lfloor>r\<rfloor> * 1000)))
                  \<and> rq_timeoutMs wreq = jsAddInt (dbl (\<lfloor>r\<rfloor> * 1000)) 2000))
   \<and> (\<forall>given. readArgs env params = Inr given \<and> loadConfig env (ext w) = None
         \<longrightarrow> a_timeoutSeconds given = getProp (JObj params) ''timeoutSeconds''
             \<and> sessions_spawn env opts params w = execute env opts given w)"
proof -
  have c1: "(\<forall>q. v \<noteq> JNum (Finite q)) \<longrightarrow>
       execute env opts (args\<lparr>a_timeoutSeconds := v\<rparr>) w
         = execute env opts (args\<lparr>a_timeoutSeconds := jsInt 0\<rparr>) w"
  proof
    assume "\<forall>q. v \<noteq> JNum (Finite q)"
    then have "timeoutSecondsOf v = 0"
      by (auto simp: timeoutSecondsOf_def split: jsval.splits jsnum.splits)
    then show "execute env opts (args\<lparr>a_timeoutSeconds := v\<rparr>) w
           = execute env opts (args\<lparr>a_timeoutSeconds := jsInt 0\<rparr>) w"
      by (intro execute_timeoutSeconds_cong) simp
  qed
  have c2: "execute env opts (args\<lparr>a_timeoutSeconds := JNum (Finite q)\<rparr>) w
         = execute env opts (args\<lparr>a_timeoutSeconds := jsInt (max 0 \<lfloor>q\<rfloor>)\<rparr>) w"
    by (intro execute_timeoutSeconds_cong) (simp add: timeoutSecondsOf_def jsInt_def)
  have c3: "\<forall>out w' areq response.
         execute env opts (args\<lparr>a_timeoutSeconds := v\<rparr>) w = (out, w')
         \<and> (areq, Inr response) \<in> set (newCalls w w') \<and> rq_method areq = ''agent''
         \<and> \<not> (\<exists>r. v = JNum (Finite r) \<and> 1 \<le> \<lfloor>r\<rfloor>)
         \<longrightarrow> (\<exists>res. out = Inr res \<and> res_status res = ''accepted'')
             \<and> ''agent.wait'' \<notin> set (methods (newCalls w w'))"
  proof (intro allI impI)
    fix out w' areq response
    assume a: "execute env opts (args\<lparr>a_timeoutSeconds := v\<rparr>) w = (out, w')
           \<and> (areq, Inr response) \<in> set (newCalls w w') \<and> rq_method areq = ''agent''
           \<and> \<not> (\<exists>r. v = JNum (Finite r) \<and> 1 \<le> \<lfloor>r\<rfloor>)"
    then have no: "\<And>r. v = JNum (Finite r) \<Longrightarrow> \<not> 1 \<le> \<lfloor>r\<rfloor>" by blast
    have z: "timeoutSecondsOf v = 0"
    proof (cases "\<exists>r. v = JNum (Finite r)")
      case True
      then obtain r where v: "v = JNum (Finite r)" by blast
      from no[OF v] have "max 0 \<lfloor>r\<rfloor> = 0" by linarith
      then show ?thesis unfolding v timeoutSecondsOf_def by simp
    next
      case False
      then show ?thesis
        by (auto simp: timeoutSecondsOf_def split: jsval.splits jsnum.splits)
    qed
    have run: "execute env opts (args\<lparr>a_timeoutSeconds := v\<rparr>) w = (out, w')"
      and st: "(areq, Inr response) \<in> set (newCalls w w')" and ag: "rq_method areq = ''agent''"
      using a by blast+
    from started_paths[OF run st ag] z
    show "(\<exists>res. out = Inr res \<and> res_status res = ''accepted'')
               \<and> ''agent.wait'' \<notin> set (methods (newCalls w w'))"
      by simp
  qed
  have c4: "\<forall>out w' areq response r.
         execute env opts (args\<lparr>a_timeoutSeconds := v\<rparr>) w = (out, w')
         \<and> (areq, Inr response) \<in> set (newCalls w w') \<and> rq_method areq = ''agent''
         \<and> v = JNum (Finite r) \<and> 1 \<le> \<lfloor>r\<rfloor>
         \<longrightarrow> (\<exists>rid oc. (agentWaitFor rid (dbl (\<lfloor>r\<rfloor> * 1000)), oc) \<in> set (newCalls w w')
                 \<and> (\<lfloor>r\<rfloor> * 1000 + 2000 < 2 ^ 53 \<longrightarrow>
                      agentWaitFor rid (dbl (\<lfloor>r\<rfloor> * 1000)) = agentWait rid (\<lfloor>r\<rfloor> * 1000)
                      \<and> map_of (rq_params (agentWait rid (\<lfloor>r\<rfloor> * 1000))) ''timeoutMs''
                          = Some (jsInt (\<lfloor>r\<rfloor> * 1000))
                      \<and> rq_timeoutMs (agentWait rid (\<lfloor>r\<rfloor> * 1000))
                          = Finite (of_int (\<lfloor>r\<rfloor> * 1000 + 2000))))"
  proof (intro allI impI)
    fix out w' areq response r
    assume a: "execute env opts (args\<lparr>a_timeoutSeconds := v\<rparr>) w = (out, w')
           \<and> (areq, Inr response) \<in> set (newCalls w w') \<and> rq_method areq = ''agent''
           \<and> v = JNum (Finite r) \<and> 1 \<le> \<lfloor>r\<rfloor>"
    then have v: "v = JNum (Finite r)" and pos: "1 \<le> \<lfloor>r\<rfloor>" by blast+
    have "timeoutSecondsOf v = max 0 \<lfloor>r\<rfloor>" unfolding v by (simp add: timeoutSecondsOf_def)
    with pos have ts: "timeoutSecondsOf v = \<lfloor>r\<rfloor>" by linarith
    from pos have nz: "\<lfloor>r\<rfloor> \<noteq> 0" by linarith
    have run: "execute env opts (args\<lparr>a_timeoutSeconds := v\<rparr>) w = (out, w')"
      and st: "(areq, Inr response) \<in> set (newCalls w w')" and ag: "rq_method areq = ''agent''"
      using a by blast+
    from started_paths[OF run st ag]
    have "timeoutSecondsOf v \<noteq> 0 \<and>
          (\<exists>rid oc. (agentWaitFor rid (dbl (timeoutSecondsOf v * 1000)), oc)
                      \<in> set (newCalls w w'))"
      using ts nz by simp
    then obtain rid oc where
      mem: "(agentWaitFor rid (dbl (\<lfloor>r\<rfloor> * 1000)), oc) \<in> set (newCalls w w')"
      unfolding ts by blast
    have "\<lfloor>r\<rfloor> * 1000 + 2000 < 2 ^ 53 \<longrightarrow>
            agentWaitFor rid (dbl (\<lfloor>r\<rfloor> * 1000)) = agentWait rid (\<lfloor>r\<rfloor> * 1000)
            \<and> map_of (rq_params (agentWait rid (\<lfloor>r\<rfloor> * 1000))) ''timeoutMs''
                = Some (jsInt (\<lfloor>r\<rfloor> * 1000))
            \<and> rq_timeoutMs (agentWait rid (\<lfloor>r\<rfloor> * 1000))
                = Finite (of_int (\<lfloor>r\<rfloor> * 1000 + 2000))"
      using agentWaitFor_exact[of "\<lfloor>r\<rfloor> * 1000" rid] pos by simp
    with mem show "\<exists>rid oc. (agentWaitFor rid (dbl (\<lfloor>r\<rfloor> * 1000)), oc) \<in> set (newCalls w w')
                   \<and> (\<lfloor>r\<rfloor> * 1000 + 2000 < 2 ^ 53 \<longrightarrow>
                        agentWaitFor rid (dbl (\<lfloor>r\<rfloor> * 1000)) = agentWait rid (\<lfloor>r\<rfloor> * 1000)
                        \<and> map_of (rq_params (agentWait rid (\<lfloor>r\<rfloor> * 1000))) ''timeoutMs''
                            = Some (jsInt (\<lfloor>r\<rfloor> * 1000))
                        \<and> rq_timeoutMs (agentWait rid (\<lfloor>r\<rfloor> * 1000))
                            = Finite (of_int (\<lfloor>r\<rfloor> * 1000 + 2000)))"
      by blast
  qed
  have c5: "\<forall>out w' wreq oc.
         execute env opts (args\<lparr>a_timeoutSeconds := v\<rparr>) w = (out, w')
         \<and> (wreq, oc) \<in> set (newCalls w w') \<and> rq_method wreq = ''agent.wait''
         \<longrightarrow> (\<exists>r rid. v = JNum (Finite r) \<and> 1 \<le> \<lfloor>r\<rfloor>
                  \<and> wreq = agentWaitFor rid (dbl (\<lfloor>r\<rfloor> * 1000))
                  \<and> map_of (rq_params wreq) ''timeoutMs'' = Some (JNum (dbl (\<lfloor>r\<rfloor> * 1000)))
                  \<and> rq_timeoutMs wreq = jsAddInt (dbl (\<lfloor>r\<rfloor> * 1000)) 2000)"
  proof (intro allI impI)
    fix out w' wreq oc
    assume a: "execute env opts (args\<lparr>a_timeoutSeconds := v\<rparr>) w = (out, w')
           \<and> (wreq, oc) \<in> set (newCalls w w') \<and> rq_method wreq = ''agent.wait''"
    from wait_call_in_log[of env opts "args\<lparr>a_timeoutSeconds := v\<rparr>" w out w' wreq oc] a
    obtain rid where nz: "timeoutSecondsOf v \<noteq> 0"
      and rq: "wreq = agentWaitFor rid (dbl (timeoutSecondsOf v * 1000))"
      by auto
    from nz obtain r where v: "v = JNum (Finite r)"
      by (auto simp: timeoutSecondsOf_def split: jsval.splits jsnum.splits)
    have m: "timeoutSecondsOf v = max 0 \<lfloor>r\<rfloor>" unfolding v by (simp add: timeoutSecondsOf_def)
    with nz have pos: "1 \<le> \<lfloor>r\<rfloor>" by linarith
    with m have ts: "timeoutSecondsOf v = \<lfloor>r\<rfloor>" by linarith
    have "map_of (rq_params wreq) ''timeoutMs'' = Some (JNum (dbl (\<lfloor>r\<rfloor> * 1000)))"
      and "rq_timeoutMs wreq = jsAddInt (dbl (\<lfloor>r\<rfloor> * 1000)) 2000"
      unfolding rq ts by (rule agentWait_fields)+
    with v pos rq ts show "\<exists>r rid. v = JNum (Finite r) \<and> 1 \<le> \<lfloor>r\<rfloor>
                    \<and> wreq = agentWaitFor rid (dbl (\<lfloor>r\<rfloor> * 1000))
                    \<and> map_of (rq_params wreq) ''timeoutMs'' = Some (JNum (dbl (\<lfloor>r\<rfloor> * 1000)))
                    \<and> rq_timeoutMs wreq = jsAddInt (dbl (\<lfloor>r\<rfloor> * 1000)) 2000"
      by auto
  qed
  have c6: "\<forall>given. readArgs env params = Inr given \<and> loadConfig env (ext w) = None
         \<longrightarrow> a_timeoutSeconds given = getProp (JObj params) ''timeoutSeconds''
             \<and> sessions_spawn env opts params w = execute env opts given w"
    by (auto simp: sessions_spawn_def readArgs_def split: sum.splits)
  from c1 c2 c3 c4 c5 c6 show ?thesis by (intro conjI)
qed

theorem timeoutSeconds_coerced_witness:
  "execute stubEnv mainOpts (taskArgs None JUndefined) world0
     = execute stubEnv mainOpts (taskArgs None (jsInt 0)) world0
   \<and> execute stubEnv mainOpts (taskArgs None (JNum (Finite (5 / 2)))) world0
     = execute stubEnv mainOpts (taskArgs None (jsInt 2)) world0
   \<and> execute stubEnv mainOpts (taskArgs None JUndefined) world0
     = (Inr (stubResult ''accepted''), stubWorld [(stubStart, Inr stubAccepted)] 2)
   \<and> res_status (stubResult ''accepted'') = ''accepted''
   \<and> ''agent.wait'' \<notin> set (methods (newCalls world0
         (stubWorld [(stubStart, Inr stubAccepted)] (2 :: nat))))
   \<and> (\<exists>rid oc. (agentWait rid 2000, oc)
          \<in> set (newCalls world0
               (snd (execute stubEnv mainOpts (taskArgs None (JNum (Finite (5 / 2)))) world0)))
        \<and> map_of (rq_params (agentWait rid 2000)) ''timeoutMs'' = Some (jsInt 2000)
        \<and> rq_timeoutMs (agentWait rid 2000) = Finite 4000)
   \<and> readArgs stubEnv (taskParams (JNum (Finite (5 / 2))))
       = Inr (taskArgs None (JNum (Finite (5 / 2))))
   \<and> sessions_spawn stubEnv mainOpts (taskParams (JNum (Finite (5 / 2)))) world0
       = execute stubEnv mainOpts (taskArgs None (JNum (Finite (5 / 2)))) world0"
proof -
  let ?args = "taskArgs None JNull"
  let ?frac = "execute stubEnv mainOpts (taskArgs None (JNum (Finite (5 / 2)))) world0"
  have upd: "?args\<lparr>a_timeoutSeconds := v\<rparr> = taskArgs None v" for v
    by (simp add: taskArgs_def)
  have undef: "\<forall>q. JUndefined \<noteq> JNum (Finite q)" by simp
  note a = timeoutSeconds_coerced[of JUndefined stubEnv mainOpts ?args world0 "5 / 2",
      unfolded upd]
  note b = timeoutSeconds_coerced[of "JNum (Finite (5 / 2))" stubEnv mainOpts ?args world0
      "5 / 2" "taskParams (JNum (Finite (5 / 2)))", unfolded upd]
  have first: "execute stubEnv mainOpts (taskArgs None JUndefined) world0
     = execute stubEnv mainOpts (taskArgs None (jsInt 0)) world0"
    using a[THEN conjunct1] undef by (rule mp)
  have second: "?frac = execute stubEnv mainOpts (taskArgs None (jsInt 2)) world0"
    using a[THEN conjunct2, THEN conjunct1] unfolding floor_five_halves by simp
  have started0: "(stubStart, Inr stubAccepted)
        \<in> set (newCalls world0 (stubWorld [(stubStart, Inr stubAccepted)] (2 :: nat)))
      \<and> rq_method stubStart = ''agent''"
    by (simp add: newCalls_def world0_def stubWorld_def stubStart_def)
  have h3: "execute stubEnv mainOpts (taskArgs None JUndefined) world0
        = (Inr (stubResult ''accepted''), stubWorld [(stubStart, Inr stubAccepted)] 2)
      \<and> (stubStart, Inr stubAccepted)
          \<in> set (newCalls world0 (stubWorld [(stubStart, Inr stubAccepted)] (2 :: nat)))
      \<and> rq_method stubStart = ''agent''
      \<and> \<not> (\<exists>r. JUndefined = JNum (Finite r) \<and> 1 \<le> \<lfloor>r\<rfloor>)"
    using accepted_run started0 by simp
  note third = a[THEN conjunct2, THEN conjunct2, THEN conjunct1, rule_format, OF h3]
  have started: "(stubStart, Inr stubAccepted) \<in> set (newCalls world0 (snd ?frac))
      \<and> rq_method stubStart = ''agent''"
    unfolding fractional_run by (simp add: newCalls_def world0_def stubWorld_def stubStart_def)
  have fl: "(1 :: int) \<le> \<lfloor>5 / 2 :: rat\<rfloor>" unfolding floor_five_halves by simp
  have h4: "?frac = (fst ?frac, snd ?frac)
      \<and> (stubStart, Inr stubAccepted) \<in> set (newCalls world0 (snd ?frac))
      \<and> rq_method stubStart = ''agent''
      \<and> JNum (Finite (5 / 2)) = JNum (Finite (5 / 2)) \<and> (1 :: int) \<le> \<lfloor>5 / 2 :: rat\<rfloor>"
    using started fl by simp
  from b[THEN conjunct2, THEN conjunct2, THEN conjunct2, THEN conjunct1, rule_format, OF h4]
  have fourth: "\<exists>rid oc. (agentWait rid 2000, oc) \<in> set (newCalls world0 (snd ?frac))
        \<and> map_of (rq_params (agentWait rid 2000)) ''timeoutMs'' = Some (jsInt 2000)
        \<and> rq_timeoutMs (agentWait rid 2000) = Finite 4000"
    unfolding floor_five_halves by (simp, metis)
  have st: "res_status (stubResult ''accepted'') = ''accepted''" by (simp add: stubResult_def)
  have rd: "readArgs stubEnv (taskParams (JNum (Finite (5 / 2))))
      = Inr (taskArgs None (JNum (Finite (5 / 2))))"
    using stub_task_read[of "JNum (Finite (5 / 2))"]
    by (simp add: readArgs_def taskArgs_def taskParams_def)
  have h6: "readArgs stubEnv (taskParams (JNum (Finite (5 / 2))))
        = Inr (taskArgs None (JNum (Finite (5 / 2))))
      \<and> loadConfig stubEnv (ext world0) = None"
    using rd stub_task_read by blast
  note sixth = b[THEN conjunct2, THEN conjunct2, THEN conjunct2, THEN conjunct2, THEN conjunct2,
      rule_format, OF h6]
  from first second accepted_run st third[THEN conjunct2] fourth rd sixth[THEN conjunct2]
  show ?thesis by (intro conjI)
qed

text \<open>
  C8. When a model override is requested, any \<open>agent\<close> run-start call in the log of
  \<open>execute\<close> comes right after the \<open>sessions.patch\<close> call that applies the model, and
  that call has settled by then, with success or with a recoverable failure; it is the
  only \<open>agent\<close> call, and no \<open>sessions.patch\<close> call follows it.
\<close>

theorem model_patch_before_run_start:
  assumes run: "execute env opts args w = (out, w')"
      and model: "a_model args = Some m" and nonempty: "m \<noteq> []"
      and split: "newCalls w w' = xs @ (areq, aoc) # ys" and agent: "rq_method areq = ''agent''"
  shows "xs \<noteq> [] \<and> (\<exists>child. fst (last xs) = modelPatch child m)
       \<and> (case snd (last xs) of Inr ack \<Rightarrow> True | Inl err \<Rightarrow> recoverable (messageText err))
       \<and> ''agent'' \<notin> set (methods xs)
       \<and> ''sessions.patch'' \<notin> set (methods ys)"
proof -
  let ?P = "\<lambda>c::gateway_call. rq_method (fst c) = ''agent''"
  have mem: "(areq, aoc) \<in> set (newCalls w w')" using split by simp
  from execute_cases[OF run] mem have sr: "spawnRun env opts args w = (out, w')"
    by auto
  have key: "xs \<noteq> [] \<and> (\<exists>child. fst (last xs) = modelPatch child m)
       \<and> (case snd (last xs) of Inr ack \<Rightarrow> True | Inl err \<Rightarrow> recoverable (messageText err))
       \<and> ''agent'' \<notin> set (methods xs)
       \<and> ''sessions.patch'' \<notin> set (methods ys)"
    if shape: "newCalls w w' = pre @ mp @ (agentStart t child idem prompt, oc) # rest"
      and pre: "prepCalls pre" and mc: "modelCalls (a_model args) child mp ma mw"
      and rest: "set (methods rest) \<subseteq> {''agent.wait'', ''chat.abort''}"
    for pre mp t child idem prompt oc rest ma mw
  proof -
    from modelCalls_truthy[of m child mp ma mw] mc model nonempty
    obtain poc where mp: "mp = [(modelPatch child m, poc)]" by auto
    have np: "\<forall>a\<in>set (pre @ mp). \<not> ?P a"
      using pre mp by (auto dest: prepCalls_mem)
    have nr: "\<forall>a\<in>set rest. \<not> ?P a"
      using rest by (auto simp: methods_def)
    have "xs @ (areq, aoc) # ys = (pre @ mp) @ (agentStart t child idem prompt, oc) # rest"
      using split shape by simp
    from unique_split[of xs "(areq, aoc)" ys "pre @ mp" _ rest ?P, OF this _ _ np nr] agent
    have eq: "xs = pre @ mp" "ys = rest" by simp_all
    have settled: "case poc of Inr ack \<Rightarrow> True | Inl err \<Rightarrow> recoverable (messageText err)"
      using modelCalls_mem[OF mc, of "(modelPatch child m, poc)"] mp
      by (auto split: sum.splits)
    show ?thesis
      using eq mp settled np rest by (auto simp: methods_def)
  qed
  from sr show ?thesis
  proof (cases rule: spawnRun_paths)
    case (patch_fatal child pre m err)
    then show ?thesis using mem agent by (auto dest: prepCalls_mem)
  next
    case (start_failed child pre mp ma mw idem prompt err)
    then show ?thesis using key[of pre mp _ child idem prompt _ "[]" ma mw]
      by (simp add: methods_def)
  next
    case (accepted cx pre mp ma mw idem prompt response rid)
    then show ?thesis using key[of pre mp _ "cx_childSessionKey cx" idem prompt _ "[]" ma mw]
      by (simp add: methods_def)
  next
    case (wait_failed child pre mp ma mw idem prompt response rid err)
    then show ?thesis
      using key[of pre mp _ child idem prompt _ "[(agentWaitFor rid _, Inl err)]" ma mw]
      by (simp add: methods_def)
  next
    case (timed_out child pre mp ma mw idem prompt response rid ans oc)
    then show ?thesis
      using key[of pre mp _ child idem prompt _
                  "[(agentWaitFor rid _, Inr ans), (chatAbort child rid, oc)]" ma mw]
      by (simp add: methods_def)
  next
    case (run_error child pre mp ma mw idem prompt response rid ans)
    then show ?thesis
      using key[of pre mp _ child idem prompt _ "[(agentWaitFor rid _, Inr ans)]" ma mw]
      by (simp add: methods_def)
  next
    case (reply_threw child pre mp ma mw idem prompt response rid ans err)
    then show ?thesis
      using key[of pre mp _ child idem prompt _ "[(agentWaitFor rid _, Inr ans)]" ma mw]
      by (simp add: methods_def)
  next
    case (ok child pre mp ma mw idem prompt response rid ans replyText)
    then show ?thesis
      using key[of pre mp _ child idem prompt _ "[(agentWaitFor rid _, Inr ans)]" ma mw]
      by (simp add: methods_def)
  qed
qed

theorem model_patch_before_run_start_witness:
  "a_model (taskArgs (Some ''bad-model'') (jsInt 1)) = Some ''bad-model''
   \<and> newCalls world0
        (snd (execute (scriptedEnv (Inl (ErrorObject ''invalid model: bad-model''))
                                   (Inr (JObj [(''status'', JStr ''ok'')])))
                mainOpts (taskArgs (Some ''bad-model'') (jsInt 1)) world0))
      = [(modelPatch stubChild ''bad-model'', Inl (ErrorObject ''invalid model: bad-model''))]
        @ (stubStart, Inr stubAccepted)
        # [(agentWait ''run-1'' 1000, Inr (JObj [(''status'', JStr ''ok'')]))]
   \<and> rq_method stubStart = ''agent''
   \<and> recoverable ''invalid model: bad-model''
   \<and> ''sessions.patch''
        \<notin> set (methods [(agentWait ''run-1'' 1000,
                              Inr (JObj [(''status'', JStr ''ok'')]) :: thrown + jsval)])"
proof -
  let ?env = "scriptedEnv (Inl (ErrorObject ''invalid model: bad-model''))
                          (Inr (JObj [(''status'', JStr ''ok'')]))"
  let ?args = "taskArgs (Some ''bad-model'') (jsInt 1)"
  let ?xs = "[(modelPatch stubChild ''bad-model'',
                Inl (ErrorObject ''invalid model: bad-model''))] :: gateway_call list"
  let ?ys = "[(agentWait ''run-1'' 1000,
                Inr (JObj [(''status'', JStr ''ok'')]))] :: gateway_call list"
  have run: "execute ?env mainOpts ?args world0
      = (fst (execute ?env mainOpts ?args world0), snd (execute ?env mainOpts ?args world0))"
    by simp
  have model: "a_model ?args = Some ''bad-model''" by (simp add: taskArgs_def)
  have ne: "''bad-model'' \<noteq> []" by simp
  have split: "newCalls world0 (snd (execute ?env mainOpts ?args world0))
      = ?xs @ (stubStart, Inr stubAccepted) # ?ys"
    unfolding bad_model_run by (simp add: newCalls_def world0_def stubWorld_def)
  have agent: "rq_method stubStart = ''agent''" by (simp add: stubStart_def)
  note t = model_patch_before_run_start[OF run model ne split agent]
  have "case snd (last ?xs) of Inr ack \<Rightarrow> True | Inl err \<Rightarrow> recoverable (messageText err)"
    using t[THEN conjunct2, THEN conjunct2, THEN conjunct1] .
  then have r: "recoverable ''invalid model: bad-model''" by simp
  have p: "''sessions.patch'' \<notin> set (methods ?ys)"
    using t[THEN conjunct2, THEN conjunct2, THEN conjunct2, THEN conjunct2] .
  from r p have "recoverable ''invalid model: bad-model''
      \<and> ''sessions.patch'' \<notin> set (methods ?ys)" ..
  with model split agent show ?thesis by blast
qed

text \<open>
  C3 (amended). When the \<open>sessions.patch\<close> call that applies the model fails: if its
  message contains ``invalid model'' or ``model not allowed'', the \<open>agent\<close> run-start
  call is still made, and every result returned while no \<open>agent\<close> or \<open>agent.wait\<close> call
  itself failed has \<open>modelApplied\<close> false and the message as \<open>warning\<close>; if the message
  is any other, \<open>execute\<close> returns an \<open>error\<close> result with that message and no \<open>agent\<close>
  call is made.
\<close>

theorem model_patch_failure:
  assumes run: "execute env opts args w = (out, w')"
      and failed: "(preq, Inl err) \<in> set (newCalls w w')"
      and patch: "isModelPatch preq"
  shows "(recoverable (messageText err) \<longrightarrow>
            ''agent'' \<in> set (methods (newCalls w w'))
          \<and> (\<forall>res. out = Inr res
                 \<and> (\<forall>c\<in>set (newCalls w w').
                        rq_method (fst c) \<in> {''agent'', ''agent.wait''} \<longrightarrow> \<not> isl (snd c))
                 \<longrightarrow> res_modelApplied res = Some False
                     \<and> res_warning res = Some (messageText err)))
       \<and> (\<not> recoverable (messageText err) \<longrightarrow>
            (\<exists>res. out = Inr res \<and> res_status res = ''error''
                 \<and> res_error res = Some (messageText err))
          \<and> ''agent'' \<notin> set (methods (newCalls w w')))"
proof -
  from execute_cases[OF run] failed have sr: "spawnRun env opts args w = (out, w')"
    by auto
  have inmp: "recoverable (messageText err) \<and> \<not> ma \<and> mw = Some (messageText err)
              \<and> truthy (a_model args)"
    if "prepCalls pre" and "modelCalls (a_model args) child mp ma mw"
      and "(preq, Inl err) \<in> set pre \<or> (preq, Inl err) \<in> set mp"
    for pre child mp ma mw
    using that patch
    by (auto dest!: prepCalls_mem modelCalls_mem)
  from sr show ?thesis
  proof (cases rule: spawnRun_paths)
    case (patch_fatal child pre m err')
    have "err' = err"
      using patch_fatal(1,2) failed patch by (auto dest: prepCalls_mem)
    then show ?thesis
      using patch_fatal prepCalls_methods[of pre] by auto
  next
    case (start_failed child pre mp ma mw idem prompt err')
    have "(preq, Inl err) \<in> set pre \<or> (preq, Inl err) \<in> set mp"
      using start_failed(1) failed patch by auto
    from inmp[OF start_failed(2,3) this] show ?thesis
      using start_failed(1) by auto
  next
    case (accepted cx pre mp ma mw idem prompt response rid)
    have "(preq, Inl err) \<in> set pre \<or> (preq, Inl err) \<in> set mp"
      using accepted(2) failed patch by auto
    from inmp[OF accepted(3,4) this] show ?thesis
      using accepted(2,5) by auto
  next
    case (wait_failed child pre mp ma mw idem prompt response rid err')
    have "(preq, Inl err) \<in> set pre \<or> (preq, Inl err) \<in> set mp"
      using wait_failed(2) failed patch by auto
    from inmp[OF wait_failed(3,4) this] show ?thesis
      using wait_failed(2) by auto
  next
    case (timed_out child pre mp ma mw idem prompt response rid ans oc)
    have "(preq, Inl err) \<in> set pre \<or> (preq, Inl err) \<in> set mp"
      using timed_out(2) failed patch by auto
    from inmp[OF timed_out(3,4) this] show ?thesis
      using timed_out(2,6) by auto
  next
    case (run_error child pre mp ma mw idem prompt response rid ans)
    have "(preq, Inl err) \<in> set pre \<or> (preq, Inl err) \<in> set mp"
      using run_error(2) failed patch by auto
    from inmp[OF run_error(3,4) this] show ?thesis
      using run_error(2,6) by auto
  next
    case (reply_threw child pre mp ma mw idem prompt response rid ans err')
    have "(preq, Inl err) \<in> set pre \<or> (preq, Inl err) \<in> set mp"
      using reply_threw(2) failed patch by auto
    from inmp[OF reply_threw(3,4) this] show ?thesis
      using reply_threw(2,7) by auto
  next
    case (ok child pre mp ma mw idem prompt response rid ans replyText)
    have "(preq, Inl err) \<in> set pre \<or> (preq, Inl err) \<in> set mp"
      using ok(2) failed patch by auto
    from inmp[OF ok(3,4) this] show ?thesis
      using ok(2,7) by auto
  qed
qed

theorem model_patch_failure_witness:
  "(modelPatch stubChild ''bad-model'', Inl (ErrorObject ''invalid model: bad-model''))
      \<in> set (newCalls world0
           (snd (execute (scriptedEnv (Inl (ErrorObject ''invalid model: bad-model''))
                                      (Inr (JObj [(''status'', JStr ''ok'')])))
                   mainOpts (taskArgs (Some ''bad-model'') (jsInt 1)) world0)))
   \<and> isModelPatch (modelPatch stubChild ''bad-model'')
   \<and> recoverable (messageText (ErrorObject ''invalid model: bad-model''))
   \<and> ''agent'' \<in> set (methods (newCalls world0
           (snd (execute (scriptedEnv (Inl (ErrorObject ''invalid model: bad-model''))
                                      (Inr (JObj [(''status'', JStr ''ok'')])))
                   mainOpts (taskArgs (Some ''bad-model'') (jsInt 1)) world0))))
   \<and> res_modelApplied ((stubResult ''ok'')\<lparr>res_reply := Some ''result'',
          res_modelApplied := Some False, res_warning := Some ''invalid model: bad-model''\<rparr>)
        = Some False
   \<and> (modelPatch stubChild ''bad-model'', Inl (ErrorObject ''gateway closed''))
      \<in> set (newCalls world0
           (snd (execute (scriptedEnv (Inl (ErrorObject ''gateway closed'')) (Inr (JObj [])))
                   mainOpts (taskArgs (Some ''bad-model'') (jsInt 1)) world0)))
   \<and> \<not> recoverable (messageText (ErrorObject ''gateway closed''))
   \<and> ''agent'' \<notin> set (methods (newCalls world0
           (snd (execute (scriptedEnv (Inl (ErrorObject ''gateway closed'')) (Inr (JObj [])))
                   mainOpts (taskArgs (Some ''bad-model'') (jsInt 1)) world0))))"
proof -
  let ?env = "scriptedEnv (Inl (ErrorObject ''invalid model: bad-model''))
                          (Inr (JObj [(''status'', JStr ''ok'')]))"
  let ?env' = "scriptedEnv (Inl (ErrorObject ''gateway closed'')) (Inr (JObj []))"
  let ?args = "taskArgs (Some ''bad-model'') (jsInt 1)"
  let ?res = "(stubResult ''ok'')\<lparr>res_reply := Some ''result'',
          res_modelApplied := Some False, res_warning := Some ''invalid model: bad-model''\<rparr>"
  have run: "execute ?env mainOpts ?args world0
      = (Inr ?res, snd (execute ?env mainOpts ?args world0))"
    unfolding bad_model_run by simp
  have failed: "(modelPatch stubChild ''bad-model'', Inl (ErrorObject ''invalid model: bad-model''))
      \<in> set (newCalls world0 (snd (execute ?env mainOpts ?args world0)))"
    unfolding bad_model_run by (simp add: newCalls_def world0_def stubWorld_def)
  have patch: "isModelPatch (modelPatch stubChild ''bad-model'')" by simp
  have rec: "recoverable (messageText (ErrorObject ''invalid model: bad-model''))"
    by (simp add: recoverable_def)
  have settled: "\<forall>c\<in>set (newCalls world0 (snd (execute ?env mainOpts ?args world0))).
        rq_method (fst c) \<in> {''agent'', ''agent.wait''} \<longrightarrow> \<not> isl (snd c)"
    unfolding bad_model_run
    by (simp add: newCalls_def world0_def stubWorld_def stubStart_def)
  note t = model_patch_failure[OF run failed patch, THEN conjunct1, rule_format, OF rec]
  have one: "''agent'' \<in> set (methods (newCalls world0 (snd (execute ?env mainOpts ?args world0))))"
    using t by (rule conjunct1)
  have two: "res_modelApplied ?res = Some False"
    using t[THEN conjunct2, rule_format, of ?res] settled by blast
  have run': "execute ?env' mainOpts ?args world0
      = (fst (execute ?env' mainOpts ?args world0), snd (execute ?env' mainOpts ?args world0))"
    by simp
  have failed': "(modelPatch stubChild ''bad-model'', Inl (ErrorObject ''gateway closed''))
      \<in> set (newCalls world0 (snd (execute ?env' mainOpts ?args world0)))"
    unfolding fatal_patch_run by (simp add: newCalls_def world0_def)
  have nrec: "\<not> recoverable (messageText (ErrorObject ''gateway closed''))"
    by (simp add: recoverable_def)
  note t' = model_patch_failure[OF run' failed' patch, THEN conjunct2, rule_format, OF nrec]
  have three: "''agent'' \<notin> set (methods (newCalls world0
      (snd (execute ?env' mainOpts ?args world0))))"
    using t' by (rule conjunct2)
  from failed patch rec one two failed' nrec three show ?thesis by blast
qed

text \<open>
  The claim as first stated fails: the patch fails with ``invalid model: bad-model'',
  the run starts, and the \<open>agent.wait\<close> call itself fails with a gateway timeout. The
  result built in that \<^verbatim>\<open>catch\<close> block (line 227) carries neither \<open>modelApplied\<close> nor
  \<open>warning\<close>.
\<close>

theorem warning_missing_counterexample:
  "recoverable (messageText (ErrorObject ''invalid model: bad-model''))
   \<and> execute (scriptedEnv (Inl (ErrorObject ''invalid model: bad-model''))
                         (Inl (ErrorObject ''gateway timeout after 3000ms'')))
       mainOpts (taskArgs (Some ''bad-model'') (jsInt 1)) world0
     = (Inr \<lparr>res_status = ''timeout'', res_error = Some ''gateway timeout after 3000ms'',
             res_childSessionKey = Some stubChild, res_runId = Some ''run-1'',
             res_reply = None, res_modelApplied = None, res_warning = None\<rparr>,
        stubWorld [(modelPatch stubChild ''bad-model'',
                      Inl (ErrorObject ''invalid model: bad-model'')),
                   (stubStart, Inr stubAccepted),
                   (agentWait ''run-1'' 1000,
                      Inl (ErrorObject ''gateway timeout after 3000ms''))] 2)
   \<and> rq_method stubStart = ''agent''"
  unfolding bad_model_wait_broken_run
  by (simp add: recoverable_def stubResult_def stubStart_def)




section \<open>Properties of the Usage Resolver\<close>

lemma readEntry_fields:
  "readEntry env sp key w = (r, w') \<Longrightarrow>
     calls w' = calls w \<and> steps w' = steps w \<and> timeline w' = timeline w @ [StoreRead sp]"
  by (auto simp: readEntry_def split: prod.splits)

lemma pause_fields [simp]:
  "calls (pause env ms w) = calls w" "steps (pause env ms w) = steps w"
  "timeline (pause env ms w) = timeline w @ [Delay ms]"
  by (simp_all add: pause_def)

lemma pollUsage_effect:
  "pollUsage env sp key attempt entry w = (r, w') \<Longrightarrow>
     calls w' = calls w \<and> steps w' = steps w
     \<and> (\<exists>k\<le>4 - attempt. timeline w' = timeline w @ concat (replicate k [Delay 200, StoreRead sp]))"
proof (induction env sp key attempt entry w rule: pollUsage.induct)
  case (1 env sp key attempt entry w)
  show ?case
  proof (cases "attempt < 4")
    case False
    then have "w' = w" using "1.prems" by (simp add: pollUsage.simps)
    then show ?thesis by (auto intro: exI[of _ 0])
  next
    case True
    obtain r1 w1 where rd: "readEntry env sp key (pause env 200 w) = (r1, w1)"
      by (cases "readEntry env sp key (pause env 200 w)")
    from readEntry_fields[OF rd] have
      f: "calls w1 = calls w" "steps w1 = steps w"
         "timeline w1 = timeline w @ [Delay 200, StoreRead sp]"
      by simp_all
    show ?thesis
    proof (cases r1)
      case (Inl err)
      then have "w' = w1" using "1.prems" True rd by (simp add: pollUsage.simps)
      then show ?thesis using f True by (auto intro!: exI[of _ 1])
    next
      case (Inr entry')
      show ?thesis
      proof (cases "hasTokens entry'")
        case yes: True
        then have "w' = w1" using "1.prems" True rd Inr by (simp add: pollUsage.simps)
        then show ?thesis using f True by (auto intro!: exI[of _ 1])
      next
        case no: False
        have rec: "pollUsage env sp key (attempt + 1) entry' w1 = (r, w')"
          using "1.prems" True rd Inr no by (simp add: pollUsage.simps)
        from "1.IH"[OF True rd[symmetric] Inr no rec] obtain k where
          k: "k \<le> 4 - (attempt + 1)" "calls w' = calls w1" "steps w' = steps w1"
             "timeline w' = timeline w1 @ concat (replicate k [Delay 200, StoreRead sp])"
          by blast
        have "timeline w' = timeline w @ concat (replicate (Suc k) [Delay 200, StoreRead sp])"
          using k(4) f(3) by simp
        moreover have "Suc k \<le> 4 - attempt" using k(1) True by simp
        ultimately show ?thesis using k(2,3) f(1,2)
          by (intro conjI exI[of _ "Suc k"]) simp_all
      qed
    qed
  qed
qed

lemma waitForSessionUsage_effect:
  assumes "waitForSessionUsage env key w = (r, w')"
  shows "calls w' = calls w \<and> steps w' = steps w
     \<and> ((\<exists>err. loadConfig env (ext w) = Some err \<and> r = Inl err \<and> w' = w)
        \<or> (loadConfig env (ext w) = None
            \<and> (\<exists>k\<le>4. timeline w' = timeline w @ StoreRead (storePathOf env key)
                  # concat (replicate k [Delay 200, StoreRead (storePathOf env key)]))))"
proof (cases "loadConfig env (ext w)")
  case (Some err)
  then show ?thesis using assms by (simp add: waitForSessionUsage_def)
next
  case cfg: None
  let ?sp = "storePathOf env key"
  obtain r0 w0 where rd: "readEntry env ?sp key w = (r0, w0)"
    by (cases "readEntry env ?sp key w")
  from readEntry_fields[OF rd] have
    f: "calls w0 = calls w" "steps w0 = steps w" "timeline w0 = timeline w @ [StoreRead ?sp]"
    by simp_all
  have stop: "w' = w0 \<Longrightarrow> ?thesis"
    using f cfg by (auto intro!: exI[of _ 0])
  show ?thesis
  proof (cases r0)
    case (Inl err)
    then have "w' = w0" using assms rd cfg by (simp add: waitForSessionUsage_def Let_def)
    then show ?thesis by (rule stop)
  next
    case (Inr entry)
    show ?thesis
    proof (cases "entry = None \<or> hasTokens entry")
      case True
      then have "w' = w0" using assms rd Inr cfg
        by (auto simp: waitForSessionUsage_def Let_def split: if_splits)
      then show ?thesis by (rule stop)
    next
      case False
      obtain r1 w1 where pl: "pollUsage env ?sp key 0 entry w0 = (r1, w1)"
        by (cases "pollUsage env ?sp key 0 entry w0")
      have "w' = w1" using assms rd Inr False pl cfg
        by (auto simp: waitForSessionUsage_def Let_def split: sum.splits)
      with pollUsage_effect[OF pl] f cfg show ?thesis by auto
    qed
  qed
qed

lemma buildSubagentStatsLine_effect:
  assumes "buildSubagentStatsLine env key s e w = (r, w')"
  shows "calls w' = calls w \<and> steps w' = steps w
     \<and> ((\<exists>err. loadConfig env (ext w) = Some err \<and> r = Inl err \<and> w' = w)
        \<or> (loadConfig env (ext w) = None
            \<and> (\<exists>k\<le>4. newTimeline w w' = StoreRead (storePathOf env key)
                  # concat (replicate k [Delay 200, StoreRead (storePathOf env key)]))))"
proof (cases "loadConfig env (ext w)")
  case (Some err)
  then show ?thesis using assms by (simp add: buildSubagentStatsLine_def)
next
  case cfg: None
  obtain r0 w0 where u: "waitForSessionUsage env key w = (r0, w0)"
    by (cases "waitForSessionUsage env key w")
  have "w' = w0" using assms u cfg
    by (auto simp: buildSubagentStatsLine_def split: sum.splits prod.splits)
  with waitForSessionUsage_effect[OF u] cfg show ?thesis
    by (auto simp: newTimeline_def)
qed

lemma includesStr_append: "includesStr (pre @ sub @ post) sub"
proof (induction pre)
  case Nil
  have t: "take (length sub) (sub @ post) = sub" by simp
  show ?case
  proof (cases "sub @ post")
    case Nil
    then show ?thesis by simp
  next
    case (Cons a list)
    then show ?thesis using t by simp
  qed
next
  case (Cons a pre)
  then show ?case by simp
qed

lemma joinWith_member:
  "p \<in> set parts \<Longrightarrow> \<exists>pre post. joinWith sep parts = pre @ p @ post"
proof (induction sep parts rule: joinWith.induct)
  case (1 sep)
  then show ?case by simp
next
  case (2 sep q)
  then show ?case by (auto intro: exI[of _ "[]"])
next
  case (3 sep q r ps)
  show ?case
  proof (cases "p = q")
    case True
    then show ?thesis
      by (intro exI[of _ "[]"] exI[of _ "sep @ joinWith sep (r # ps)"]) simp
  next
    case False
    then have "p \<in> set (r # ps)" using "3.prems" by auto
    from "3.IH"[OF this] obtain pre post where "joinWith sep (r # ps) = pre @ p @ post"
      by blast
    then have "joinWith sep (q # r # ps) = (q @ sep @ pre) @ p @ post" by simp
    then show ?thesis by blast
  qed
qed

lemma stats_line_includes:
  assumes "p \<in> set parts"
  shows "includesStr (''Stats: '' @ joinWith bullet parts) p"
proof -
  from joinWith_member[OF assms, of bullet] obtain pre post where
    "joinWith bullet parts = pre @ p @ post" by blast
  then have "''Stats: '' @ joinWith bullet parts = (''Stats: '' @ pre) @ p @ post" by simp
  then show ?thesis using includesStr_append[of "''Stats: '' @ pre" p post] by simp
qed

lemma tokensPart_in_statsParts:
  "tokensPart env (tokenTotal entry)
      (Option.bind entry se_inputTokens) (Option.bind entry se_outputTokens)
     \<in> set (statsParts env key s e entry sp)"
  by (simp add: statsParts_def Let_def)

lemma pollUsage_again:
  "attempt < 4 \<Longrightarrow> n = attempt + 1 \<Longrightarrow>
   readEntry env sp key (pause env 200 w) = (Inr r, w1) \<Longrightarrow> \<not> hasTokens r \<Longrightarrow>
     pollUsage env sp key attempt entry w = pollUsage env sp key n r w1"
  by (simp add: pollUsage.simps[of env sp key attempt])

lemma pollUsage_found:
  "attempt < 4 \<Longrightarrow> readEntry env sp key (pause env 200 w) = (Inr r, w1) \<Longrightarrow> hasTokens r \<Longrightarrow>
     pollUsage env sp key attempt entry w = (Inr r, w1)"
  by (simp add: pollUsage.simps[of env sp key attempt])

lemma pollUsage_exhausted: "pollUsage env sp key 4 entry w = (Inr entry, w)"
  by (simp add: pollUsage.simps[of env sp key 4])

text \<open>The loop, in terms of what the reads of the store find.\<close>

lemma poll_found:
  assumes "a < j" and "j \<le> 4"
      and "\<forall>i. a < i \<and> i < j \<longrightarrow> (\<exists>r. fst (storeRead env sp key i w) = Inr r \<and> \<not> hasTokens r)"
      and "fst (storeRead env sp key j w) = Inr rj" and "hasTokens rj"
  shows "pollUsage env sp key a entry (snd (storeRead env sp key a w))
           = (Inr rj, snd (storeRead env sp key j w))"
  using assms
proof (induction "j - a" arbitrary: a entry)
  case 0
  then show ?case by simp
next
  case (Suc d)
  let ?rd = "storeRead env sp key (Suc a) w"
  have a4: "a < 4" using Suc.prems by simp
  show ?case
  proof (cases "Suc a = j")
    case True
    have "readEntry env sp key (pause env 200 (snd (storeRead env sp key a w)))
            = (Inr rj, snd (storeRead env sp key j w))"
      using True Suc.prems(4) by (metis prod.collapse storeRead.simps(2))
    from pollUsage_found[OF a4 this Suc.prems(5)] show ?thesis .
  next
    case False
    then have lt: "Suc a < j" using Suc.prems(1) by simp
    with Suc.prems(3) obtain r where r: "fst ?rd = Inr r" "\<not> hasTokens r" by auto
    have rd: "readEntry env sp key (pause env 200 (snd (storeRead env sp key a w)))
            = (Inr r, snd ?rd)"
      using r(1) by (metis prod.collapse storeRead.simps(2))
    have step: "pollUsage env sp key a entry (snd (storeRead env sp key a w))
            = pollUsage env sp key (Suc a) r (snd ?rd)"
      by (rule pollUsage_again[OF a4 _ rd r(2)]) simp
    have d: "d = j - Suc a" using Suc.hyps(2) by simp
    have "\<forall>i. Suc a < i \<and> i < j \<longrightarrow>
            (\<exists>r. fst (storeRead env sp key i w) = Inr r \<and> \<not> hasTokens r)"
      using Suc.prems(3) by simp
    from Suc.hyps(1)[OF d lt Suc.prems(2) this Suc.prems(4,5)] step show ?thesis by simp
  qed
qed

lemma poll_exhausted:
  assumes "a \<le> 4"
      and "\<forall>i. a < i \<and> i \<le> 4 \<longrightarrow> (\<exists>r. fst (storeRead env sp key i w) = Inr r \<and> \<not> hasTokens r)"
      and "\<not> hasTokens entry"
  shows "\<exists>r. pollUsage env sp key a entry (snd (storeRead env sp key a w))
               = (Inr r, snd (storeRead env sp key 4 w)) \<and> \<not> hasTokens r"
  using assms
proof (induction "4 - a" arbitrary: a entry)
  case 0
  then have "a = 4" by simp
  then show ?case using "0.prems"(3) by (simp add: pollUsage_exhausted)
next
  case (Suc d)
  let ?rd = "storeRead env sp key (Suc a) w"
  have a4: "a < 4" using Suc.hyps(2) by simp
  with Suc.prems(2) obtain r where r: "fst ?rd = Inr r" "\<not> hasTokens r" by auto
  have rd: "readEntry env sp key (pause env 200 (snd (storeRead env sp key a w)))
          = (Inr r, snd ?rd)"
    using r(1) by (metis prod.collapse storeRead.simps(2))
  have step: "pollUsage env sp key a entry (snd (storeRead env sp key a w))
          = pollUsage env sp key (Suc a) r (snd ?rd)"
    by (rule pollUsage_again[OF a4 _ rd r(2)]) simp
  have d: "d = 4 - Suc a" using Suc.hyps(2) by simp
  have le: "Suc a \<le> 4" using a4 by simp
  have "\<forall>i. Suc a < i \<and> i \<le> 4 \<longrightarrow>
          (\<exists>r. fst (storeRead env sp key i w) = Inr r \<and> \<not> hasTokens r)"
    using Suc.prems(2) by simp
  from Suc.hyps(1)[OF d le this r(2)] step show ?case by simp
qed

lemma stats_after_wait:
  "loadConfig env (ext w) = None \<Longrightarrow>
   waitForSessionUsage env key w = (Inr (entry, sp), w') \<Longrightarrow>
     buildSubagentStatsLine env key startedAt endedAt w
       = (Inr (''Stats: '' @ joinWith bullet (statsParts env key startedAt endedAt entry sp)), w')"
  by (simp add: buildSubagentStatsLine_def)

lemma stats_line_tokens:
  assumes "loadConfig env (ext w) = None"
      and "waitForSessionUsage env key w = (Inr (entry, sp), w')"
  shows "\<exists>line. buildSubagentStatsLine env key startedAt endedAt w = (Inr line, w')
           \<and> includesStr line
                (tokensPart env (tokenTotal entry)
                   (Option.bind entry se_inputTokens) (Option.bind entry se_outputTokens))"
  using stats_after_wait[OF assms, of startedAt endedAt]
    stats_line_includes[OF tokensPart_in_statsParts[of env entry key startedAt endedAt sp]]
  by simp

lemma wait_found:
  assumes cfg: "loadConfig env (ext w) = None" and j: "j \<le> 4"
      and before: "\<forall>i<j. \<exists>r. fst (storeRead env (storePathOf env key) key i w) = Inr r
                      \<and> \<not> hasTokens r \<and> (i = 0 \<longrightarrow> r \<noteq> None)"
      and at: "fst (storeRead env (storePathOf env key) key j w) = Inr (Some e)"
      and tok: "hasTokens (Some e)"
  shows "waitForSessionUsage env key w
           = (Inr (Some e, storePathOf env key), snd (storeRead env (storePathOf env key) key j w))"
proof (cases j)
  case 0
  then have "readEntry env (storePathOf env key) key w
      = (Inr (Some e), snd (storeRead env (storePathOf env key) key j w))"
    using at by (metis prod.collapse storeRead.simps(1))
  then show ?thesis using cfg tok by (simp add: waitForSessionUsage_def Let_def)
next
  case (Suc n)
  let ?sp = "storePathOf env key"
  from before Suc obtain r0 where
    r0: "fst (storeRead env ?sp key 0 w) = Inr r0" "\<not> hasTokens r0" "r0 \<noteq> None"
    by auto
  have rd: "readEntry env ?sp key w = (Inr r0, snd (storeRead env ?sp key 0 w))"
    using r0(1) by (metis prod.collapse storeRead.simps(1))
  have "\<forall>i. 0 < i \<and> i < j \<longrightarrow> (\<exists>r. fst (storeRead env ?sp key i w) = Inr r \<and> \<not> hasTokens r)"
    using before by auto
  from poll_found[OF _ j this at tok, of r0] Suc
  have "pollUsage env ?sp key 0 r0 (snd (storeRead env ?sp key 0 w))
      = (Inr (Some e), snd (storeRead env ?sp key j w))"
    by simp
  then show ?thesis using cfg rd r0(2,3) by (simp add: waitForSessionUsage_def Let_def)
qed

lemma wait_exhausted:
  assumes cfg: "loadConfig env (ext w) = None"
      and first: "fst (storeRead env (storePathOf env key) key 0 w) = Inr (Some e0)"
      and none: "\<forall>i\<le>4. \<exists>r. fst (storeRead env (storePathOf env key) key i w) = Inr r
                      \<and> \<not> hasTokens r"
  shows "\<exists>r. waitForSessionUsage env key w
               = (Inr (r, storePathOf env key), snd (storeRead env (storePathOf env key) key 4 w))
             \<and> \<not> hasTokens r"
proof -
  let ?sp = "storePathOf env key"
  have rd: "readEntry env ?sp key w = (Inr (Some e0), snd (storeRead env ?sp key 0 w))"
    using first by (metis prod.collapse storeRead.simps(1))
  from none have "\<exists>r. fst (storeRead env ?sp key 0 w) = Inr r \<and> \<not> hasTokens r" by simp
  with first have no0: "\<not> hasTokens (Some e0)" by simp
  have "\<forall>i. 0 < i \<and> i \<le> 4 \<longrightarrow> (\<exists>r. fst (storeRead env ?sp key i w) = Inr r \<and> \<not> hasTokens r)"
    using none by auto
  from poll_exhausted[OF _ this no0] obtain r where
    "pollUsage env ?sp key 0 (Some e0) (snd (storeRead env ?sp key 0 w))
       = (Inr r, snd (storeRead env ?sp key 4 w))" and "\<not> hasTokens r"
    by auto
  then show ?thesis using cfg rd no0 by (simp add: waitForSessionUsage_def Let_def)
qed

lemma tokensPart_text:
  "tokensPart env (tokenTotal (Some e)) (se_inputTokens e) (se_outputTokens e)
     = (let inOut =
              '' (in ''
              @ (case se_inputTokens e of
                   Some i \<Rightarrow> formatTokenCount env (Finite (of_int i)) | None \<Rightarrow> ''n/a'')
              @ '' / out ''
              @ (case se_outputTokens e of
                   Some out \<Rightarrow> formatTokenCount env (Finite (of_int out)) | None \<Rightarrow> ''n/a'')
              @ '')''
        in case se_totalTokens e of
             Some t \<Rightarrow> ''tokens '' @ formatTokenCount env (Finite (of_int t)) @ inOut
           | None \<Rightarrow>
               (case (se_inputTokens e, se_outputTokens e) of
                  (Some i, Some out) \<Rightarrow> ''tokens '' @ formatTokenCount env (dbl (i + out)) @ inOut
                | _ \<Rightarrow> ''tokens n/a''))"
  by (simp add: tokensPart_def tokenTotal_def Let_def split: option.splits)

lemma tokensPart_none: "\<not> hasTokens r \<Longrightarrow>
    tokensPart env (tokenTotal r) (Option.bind r se_inputTokens) (Option.bind r se_outputTokens)
      = ''tokens n/a''"
  by (cases r) (simp_all add: hasTokens_def tokensPart_def tokenTotal_def)

text \<open>The stores of the stub, evaluated.\<close>

lemma concat_replicate_snoc: "concat (replicate k xs) @ xs = xs @ concat (replicate k xs)"
  by (induction k) simp_all

lemma scripted_store_path: "storePathOf (scriptedStoreEnv script) stubChild = stubStorePath"
  by (simp add: storePathOf_def scriptedStoreEnv_def stubEnv_def stubStorePath_def)

lemma scripted_store_config: "loadConfig (scriptedStoreEnv script) x = None"
  by (simp add: scriptedStoreEnv_def stubEnv_def)

lemma scripted_store_reads:
  "storeRead (scriptedStoreEnv script) stubStorePath stubChild k world0
     = (Inr (script k),
        pollWorld (Suc k)
          (StoreRead stubStorePath # concat (replicate k [Delay 200, StoreRead stubStorePath])))"
proof (induction k)
  case 0
  show ?case
    by (cases "script 0")
       (simp_all add: storeRead.simps readEntry_def scriptedStoreEnv_def stubEnv_def
          pollWorld_def world0_def)
next
  case (Suc k)
  have "concat (replicate k [Delay 200, StoreRead stubStorePath])
          @ [Delay 200, StoreRead stubStorePath]
        = [Delay 200, StoreRead stubStorePath]
          @ concat (replicate k [Delay 200, StoreRead stubStorePath])"
    by (rule concat_replicate_snoc)
  then show ?case
    using Suc
    by (cases "script (Suc k)")
       (simp_all add: storeRead.simps readEntry_def pause_def scriptedStoreEnv_def stubEnv_def
          pollWorld_def world0_def)
qed

lemma stub_entries:
  "\<not> hasTokens (Some bareEntry) \<and> hasTokens (Some countedEntry)
   \<and> hasTokens (Some inputOnlyEntry)
   \<and> se_totalTokens countedEntry = None
   \<and> se_inputTokens countedEntry = Some 100 \<and> se_outputTokens countedEntry = Some 20"
  by (simp add: hasTokens_def bareEntry_def countedEntry_def inputOnlyEntry_def)

lemma floor_add_half: "\<lfloor>(of_int i :: rat) + 1 / 2\<rfloor> = i"
  by linarith

lemma formatTokenCount_whole:
  "formatTokenCount env (Finite (of_int i))
     = (if i = 0 then ''0''
        else if i \<ge> 1000000 then toFixed env (of_int i / 1000000) 1 @ ''m''
        else if i \<ge> 1000 then toFixed env (of_int i / 1000) 1 @ ''k''
        else if i \<ge> - 9007199254740992 then showInt i
        else numberToString env (of_int i))"
proof -
  have "(1000000 \<le> (of_int i :: rat)) = (1000000 \<le> i)" by linarith
  moreover have "(1000 \<le> (of_int i :: rat)) = (1000 \<le> i)" by linarith
  moreover have "(- 9007199254740992 \<le> (of_int i :: rat)) = (- 9007199254740992 \<le> i)"
    by linarith
  ultimately show ?thesis by (simp add: formatTokenCount_def floor_add_half)
qed

lemma stub_token_counts:
  "formatTokenCount env (Finite 120) = ''120''
   \<and> formatTokenCount env (Finite 100) = ''100''
   \<and> formatTokenCount env (Finite 20) = ''20''
   \<and> dbl 120 = Finite 120"
  using formatTokenCount_whole[of env 120] formatTokenCount_whole[of env 100]
    formatTokenCount_whole[of env 20]
  by (simp add: showInt_def digits.simps dbl_def roundNat_def)

lemma stub_parts:
  "statsParts (scriptedStoreEnv script) stubChild None None None stubStorePath
     = [''runtime n/a'', ''tokens n/a'', ''sessionKey '' @ stubChild]
   \<and> statsParts (scriptedStoreEnv script) stubChild None None (Some inputOnlyEntry) stubStorePath
     = [''runtime n/a'', ''tokens n/a'', ''sessionKey '' @ stubChild, ''sessionId sess-1'',
        ''transcript /state/sess-1.jsonl'']"
  by (simp add: statsParts_def tokensPart_def tokenTotal_def formatDurationShort_def
        formatUsd_def resolveModelCost_def inputOnlyEntry_def bareEntry_def scriptedStoreEnv_def
        stubEnv_def stubStorePath_def)

text \<open>
  C4 (amended). When the configuration loads, the usage resolver reads the store
  once and then at most 4 more times, each re-poll 200 ms after the read before it.
  It re-polls only when the first read finds the entry with none of its three counts a
  number, and it stops at the first read that finds a count: the summary is built from
  the entry found there, after exactly that many re-polls, and its token part is
  \<open>tokens T (in I / out O)\<close>, where \<open>T\<close> is the entry's \<open>totalTokens\<close>, or else the sum of
  its \<open>inputTokens\<close> and \<open>outputTokens\<close> when both are numbers, and \<open>I\<close> and \<open>O\<close> are \<open>n/a\<close>
  when missing; without such a \<open>T\<close> the token part is \<open>tokens n/a\<close>. So an entry whose
  \<open>inputTokens\<close> and \<open>outputTokens\<close> appear at the second re-poll gives a summary with
  those counts and their sum. When none of the 5 reads finds a count, the summary is
  built after the fourth re-poll and says \<open>tokens n/a\<close>. When the first read finds no
  entry at all, the summary is built at once, with no re-poll, and says \<open>tokens n/a\<close>.
  In each of these cases the summary is returned: nothing is thrown.
\<close>

theorem usage_polling_bounded:
  "(loadConfig env (ext w) = None \<longrightarrow>
      (\<exists>k\<le>4. newTimeline w (snd (buildSubagentStatsLine env key startedAt endedAt w))
               = StoreRead (storePathOf env key)
                 # concat (replicate k [Delay 200, StoreRead (storePathOf env key)])))
   \<and> (\<forall>j e. loadConfig env (ext w) = None \<and> j \<le> 4
          \<and> (\<forall>i<j. \<exists>r. fst (storeRead env (storePathOf env key) key i w) = Inr r
                       \<and> \<not> hasTokens r \<and> (i = 0 \<longrightarrow> r \<noteq> None))
          \<and> fst (storeRead env (storePathOf env key) key j w) = Inr (Some e)
          \<and> hasTokens (Some e)
        \<longrightarrow> (\<exists>line. buildSubagentStatsLine env key startedAt endedAt w
                       = (Inr line, snd (storeRead env (storePathOf env key) key j w))
               \<and> includesStr line
                  (let inOut =
                         '' (in ''
                         @ (case se_inputTokens e of
                              Some i \<Rightarrow> formatTokenCount env (Finite (of_int i))
                            | None \<Rightarrow> ''n/a'')
                         @ '' / out ''
                         @ (case se_outputTokens e of
                              Some out \<Rightarrow> formatTokenCount env (Finite (of_int out))
                            | None \<Rightarrow> ''n/a'')
                         @ '')''
                   in case se_totalTokens e of
                        Some t \<Rightarrow> ''tokens '' @ formatTokenCount env (Finite (of_int t)) @ inOut
                      | None \<Rightarrow>
                          (case (se_inputTokens e, se_outputTokens e) of
                             (Some i, Some out) \<Rightarrow>
                               ''tokens '' @ formatTokenCount env (dbl (i + out)) @ inOut
                           | _ \<Rightarrow> ''tokens n/a''))))
   \<and> (\<forall>e0. loadConfig env (ext w) = None
          \<and> fst (storeRead env (storePathOf env key) key 0 w) = Inr (Some e0)
          \<and> (\<forall>i\<le>4. \<exists>r. fst (storeRead env (storePathOf env key) key i w) = Inr r
                       \<and> \<not> hasTokens r)
        \<longrightarrow> (\<exists>line. buildSubagentStatsLine env key startedAt endedAt w
                       = (Inr line, snd (storeRead env (storePathOf env key) key 4 w))
               \<and> includesStr line ''tokens n/a''))
   \<and> (loadConfig env (ext w) = None
        \<and> fst (storeRead env (storePathOf env key) key 0 w) = Inr None
        \<longrightarrow> (\<exists>line. buildSubagentStatsLine env key startedAt endedAt w
                       = (Inr line, snd (storeRead env (storePathOf env key) key 0 w))
               \<and> includesStr line ''tokens n/a''))"
proof (intro conjI allI impI)
  assume cfg: "loadConfig env (ext w) = None"
  show "\<exists>k\<le>4. newTimeline w (snd (buildSubagentStatsLine env key startedAt endedAt w))
               = StoreRead (storePathOf env key)
                 # concat (replicate k [Delay 200, StoreRead (storePathOf env key)])"
    using buildSubagentStatsLine_effect[of env key startedAt endedAt w
        "fst (buildSubagentStatsLine env key startedAt endedAt w)"
        "snd (buildSubagentStatsLine env key startedAt endedAt w)"] cfg
    by simp
next
  fix j e
  let ?sp = "storePathOf env key"
  assume a: "loadConfig env (ext w) = None \<and> j \<le> 4
          \<and> (\<forall>i<j. \<exists>r. fst (storeRead env ?sp key i w) = Inr r
                       \<and> \<not> hasTokens r \<and> (i = 0 \<longrightarrow> r \<noteq> None))
          \<and> fst (storeRead env ?sp key j w) = Inr (Some e)
          \<and> hasTokens (Some e)"
  then have cfg: "loadConfig env (ext w) = None" and j: "j \<le> 4"
    and before: "\<forall>i<j. \<exists>r. fst (storeRead env ?sp key i w) = Inr r
                       \<and> \<not> hasTokens r \<and> (i = 0 \<longrightarrow> r \<noteq> None)"
    and at: "fst (storeRead env ?sp key j w) = Inr (Some e)"
    and tok: "hasTokens (Some e)"
    by simp_all
  note u = wait_found[OF cfg j before at tok]
  from stats_line_tokens[OF cfg u, of startedAt endedAt]
  show "\<exists>line. buildSubagentStatsLine env key startedAt endedAt w
                       = (Inr line, snd (storeRead env ?sp key j w))
               \<and> includesStr line
                  (let inOut =
                         '' (in ''
                         @ (case se_inputTokens e of
                              Some i \<Rightarrow> formatTokenCount env (Finite (of_int i))
                            | None \<Rightarrow> ''n/a'')
                         @ '' / out ''
                         @ (case se_outputTokens e of
                              Some out \<Rightarrow> formatTokenCount env (Finite (of_int out))
                            | None \<Rightarrow> ''n/a'')
                         @ '')''
                   in case se_totalTokens e of
                        Some t \<Rightarrow> ''tokens '' @ formatTokenCount env (Finite (of_int t)) @ inOut
                      | None \<Rightarrow>
                          (case (se_inputTokens e, se_outputTokens e) of
                             (Some i, Some out) \<Rightarrow>
                               ''tokens '' @ formatTokenCount env (dbl (i + out)) @ inOut
                           | _ \<Rightarrow> ''tokens n/a''))"
    using tokensPart_text[of env e] by simp
next
  fix e0
  let ?sp = "storePathOf env key"
  assume a: "loadConfig env (ext w) = None
          \<and> fst (storeRead env ?sp key 0 w) = Inr (Some e0)
          \<and> (\<forall>i\<le>4. \<exists>r. fst (storeRead env ?sp key i w) = Inr r \<and> \<not> hasTokens r)"
  then have cfg: "loadConfig env (ext w) = None"
    and first: "fst (storeRead env ?sp key 0 w) = Inr (Some e0)"
    and none: "\<forall>i\<le>4. \<exists>r. fst (storeRead env ?sp key i w) = Inr r \<and> \<not> hasTokens r"
    by simp_all
  from wait_exhausted[OF cfg first none] obtain r where
    u: "waitForSessionUsage env key w = (Inr (r, ?sp), snd (storeRead env ?sp key 4 w))"
    and no: "\<not> hasTokens r" by blast
  from stats_line_tokens[OF cfg u, of startedAt endedAt] tokensPart_none[OF no, of env]
  show "\<exists>line. buildSubagentStatsLine env key startedAt endedAt w
                       = (Inr line, snd (storeRead env ?sp key 4 w))
               \<and> includesStr line ''tokens n/a''"
    by simp
next
  let ?sp = "storePathOf env key"
  assume a: "loadConfig env (ext w) = None \<and> fst (storeRead env ?sp key 0 w) = Inr None"
  then have cfg: "loadConfig env (ext w) = None" by simp
  from a have "readEntry env ?sp key w = (Inr None, snd (storeRead env ?sp key 0 w))"
    by (metis prod.collapse storeRead.simps(1))
  then have u: "waitForSessionUsage env key w
      = (Inr (None, ?sp), snd (storeRead env ?sp key 0 w))"
    using cfg by (simp add: waitForSessionUsage_def Let_def)
  have no: "\<not> hasTokens None" by (simp add: hasTokens_def)
  from stats_line_tokens[OF cfg u, of startedAt endedAt] tokensPart_none[OF no, of env]
  show "\<exists>line. buildSubagentStatsLine env key startedAt endedAt w
                       = (Inr line, snd (storeRead env ?sp key 0 w))
               \<and> includesStr line ''tokens n/a''"
    by simp
qed

theorem usage_polling_bounded_witness:
  "(\<exists>line. buildSubagentStatsLine (lateStoreEnv 2) stubChild None None world0
        = (Inr line,
           pollWorld 3 [StoreRead stubStorePath, Delay 200, StoreRead stubStorePath,
                        Delay 200, StoreRead stubStorePath])
      \<and> includesStr line ''tokens 120 (in 100 / out 20)'')
   \<and> (\<exists>line. buildSubagentStatsLine (lateStoreEnv 5) stubChild None None world0
        = (Inr line,
           pollWorld 5 [StoreRead stubStorePath, Delay 200, StoreRead stubStorePath,
                        Delay 200, StoreRead stubStorePath, Delay 200, StoreRead stubStorePath,
                        Delay 200, StoreRead stubStorePath])
      \<and> includesStr line ''tokens n/a'')
   \<and> (\<exists>line. buildSubagentStatsLine absentStoreEnv stubChild None None world0
        = (Inr line, pollWorld 1 [StoreRead stubStorePath])
      \<and> includesStr line ''tokens n/a'')"
proof -
  note a = usage_polling_bounded[where w = world0 and env = "lateStoreEnv 2"
      and key = stubChild and startedAt = None and endedAt = None,
      unfolded lateStoreEnv_def scripted_store_path scripted_store_reads scripted_store_config]
  note b = usage_polling_bounded[where w = world0 and env = "lateStoreEnv 5"
      and key = stubChild and startedAt = None and endedAt = None,
      unfolded lateStoreEnv_def scripted_store_path scripted_store_reads scripted_store_config]
  note c = usage_polling_bounded[where w = world0 and env = absentStoreEnv
      and key = stubChild and startedAt = None and endedAt = None,
      unfolded absentStoreEnv_def scripted_store_path scripted_store_reads
        scripted_store_config]
  have ha: "None = (None :: thrown option) \<and> (2 :: nat) \<le> 4
      \<and> (\<forall>i<2. \<exists>r. fst (Inr (Some (if i < 2 then bareEntry else countedEntry)) :: thrown + _,
                          pollWorld (Suc i) (StoreRead stubStorePath
                            # concat (replicate i [Delay 200, StoreRead stubStorePath]))) = Inr r
                   \<and> \<not> hasTokens r \<and> (i = 0 \<longrightarrow> r \<noteq> None))
      \<and> fst (Inr (Some (if (2 :: nat) < 2 then bareEntry else countedEntry)) :: thrown + _,
              pollWorld (Suc 2) (StoreRead stubStorePath
                # concat (replicate 2 [Delay 200, StoreRead stubStorePath])))
          = Inr (Some countedEntry)
      \<and> hasTokens (Some countedEntry)"
    by (simp add: stub_entries)
  have hb: "None = (None :: thrown option)
      \<and> fst (Inr (Some (if (0 :: nat) < 5 then bareEntry else countedEntry)) :: thrown + _,
              pollWorld (Suc 0) (StoreRead stubStorePath
                # concat (replicate 0 [Delay 200, StoreRead stubStorePath])))
          = Inr (Some bareEntry)
      \<and> (\<forall>i\<le>4. \<exists>r. fst (Inr (Some (if i < 5 then bareEntry else countedEntry)) :: thrown + _,
                          pollWorld (Suc i) (StoreRead stubStorePath
                            # concat (replicate i [Delay 200, StoreRead stubStorePath]))) = Inr r
                   \<and> \<not> hasTokens r)"
    by (simp add: stub_entries)
  have hc: "None = (None :: thrown option)
      \<and> fst (Inr (if (0 :: nat) < 2 then None else Some countedEntry) :: thrown + _,
              pollWorld (Suc 0) (StoreRead stubStorePath
                # concat (replicate 0 [Delay 200, StoreRead stubStorePath])))
          = Inr None"
    by simp
  from a[THEN conjunct2, THEN conjunct1, rule_format, OF ha]
  have "\<exists>line. buildSubagentStatsLine (lateStoreEnv 2) stubChild None None world0
        = (Inr line,
           pollWorld 3 [StoreRead stubStorePath, Delay 200, StoreRead stubStorePath,
                        Delay 200, StoreRead stubStorePath])
      \<and> includesStr line ''tokens 120 (in 100 / out 20)''"
    by (simp add: lateStoreEnv_def stub_entries stub_token_counts numeral_2_eq_2
          numeral_3_eq_3)
  moreover from b[THEN conjunct2, THEN conjunct2, THEN conjunct1, rule_format, OF hb]
  have "\<exists>line. buildSubagentStatsLine (lateStoreEnv 5) stubChild None None world0
        = (Inr line,
           pollWorld 5 [StoreRead stubStorePath, Delay 200, StoreRead stubStorePath,
                        Delay 200, StoreRead stubStorePath, Delay 200, StoreRead stubStorePath,
                        Delay 200, StoreRead stubStorePath])
      \<and> includesStr line ''tokens n/a''"
    by (simp add: lateStoreEnv_def eval_nat_numeral)
  moreover from c[THEN conjunct2, THEN conjunct2, THEN conjunct2, rule_format, OF hc]
  have "\<exists>line. buildSubagentStatsLine absentStoreEnv stubChild None None world0
        = (Inr line, pollWorld 1 [StoreRead stubStorePath])
      \<and> includesStr line ''tokens n/a''"
    by (simp add: absentStoreEnv_def)
  ultimately show ?thesis by (intro conjI)
qed

text \<open>
  The claim as first stated fails on two counts. In the absent store the entry with its
  counts appears at the second re-poll, had there been one: the first read finds no
  entry, line 411 returns at once, the store is read once and the summary says
  \<open>tokens n/a\<close>. In the input-only store the entry has \<open>inputTokens = 100\<close> from the second
  re-poll on: the loop stops there, since one count is a number, and the summary says
  \<open>tokens n/a\<close>, since there is neither a total nor an output count.
\<close>

theorem usage_not_polled_counterexample:
  "buildSubagentStatsLine absentStoreEnv stubChild None None world0
     = (Inr (''Stats: runtime n/a'' @ bullet @ ''tokens n/a'' @ bullet
              @ ''sessionKey '' @ stubChild),
        pollWorld 1 [StoreRead stubStorePath])
   \<and> fst (storeRead absentStoreEnv stubStorePath stubChild 2 world0) = Inr (Some countedEntry)
   \<and> se_inputTokens countedEntry = Some 100 \<and> se_outputTokens countedEntry = Some 20
   \<and> buildSubagentStatsLine inputOnlyStoreEnv stubChild None None world0
     = (Inr (''Stats: runtime n/a'' @ bullet @ ''tokens n/a'' @ bullet
              @ ''sessionKey '' @ stubChild @ bullet @ ''sessionId sess-1'' @ bullet
              @ ''transcript /state/sess-1.jsonl''),
        pollWorld 3 [StoreRead stubStorePath, Delay 200, StoreRead stubStorePath,
                     Delay 200, StoreRead stubStorePath])
   \<and> fst (storeRead inputOnlyStoreEnv stubStorePath stubChild 2 world0)
       = Inr (Some inputOnlyEntry)
   \<and> se_inputTokens inputOnlyEntry = Some 100"
proof -
  have cfg: "loadConfig (scriptedStoreEnv script) (ext world0) = None" for script
    by (rule scripted_store_config)
  have "readEntry absentStoreEnv stubStorePath stubChild world0
      = (Inr None, pollWorld 1 [StoreRead stubStorePath])"
    using scripted_store_reads[of "\<lambda>n. if n < 2 then None else Some countedEntry" 0]
    by (simp add: absentStoreEnv_def storeRead.simps)
  then have "waitForSessionUsage absentStoreEnv stubChild world0
      = (Inr (None, stubStorePath), pollWorld 1 [StoreRead stubStorePath])"
    using cfg scripted_store_path
    by (simp add: waitForSessionUsage_def Let_def absentStoreEnv_def)
  from stats_after_wait[OF _ this, of None None] cfg
  have a: "buildSubagentStatsLine absentStoreEnv stubChild None None world0
     = (Inr (''Stats: runtime n/a'' @ bullet @ ''tokens n/a'' @ bullet
              @ ''sessionKey '' @ stubChild),
        pollWorld 1 [StoreRead stubStorePath])"
    using stub_parts by (simp add: absentStoreEnv_def)
  have b: "fst (storeRead absentStoreEnv stubStorePath stubChild 2 world0)
      = Inr (Some countedEntry)"
    by (simp add: absentStoreEnv_def scripted_store_reads)
  let ?script = "\<lambda>n :: nat. Some (if n < 2 then bareEntry else inputOnlyEntry)"
  have "\<forall>i<2. \<exists>r. fst (storeRead (scriptedStoreEnv ?script)
                          (storePathOf (scriptedStoreEnv ?script) stubChild) stubChild i world0)
                       = Inr r \<and> \<not> hasTokens r \<and> (i = 0 \<longrightarrow> r \<noteq> None)"
    by (simp add: scripted_store_path scripted_store_reads stub_entries)
  moreover have "fst (storeRead (scriptedStoreEnv ?script)
                          (storePathOf (scriptedStoreEnv ?script) stubChild) stubChild 2 world0)
                   = Inr (Some inputOnlyEntry)"
    by (simp add: scripted_store_path scripted_store_reads)
  ultimately have "waitForSessionUsage (scriptedStoreEnv ?script) stubChild world0
      = (Inr (Some inputOnlyEntry, storePathOf (scriptedStoreEnv ?script) stubChild),
         snd (storeRead (scriptedStoreEnv ?script)
                (storePathOf (scriptedStoreEnv ?script) stubChild) stubChild 2 world0))"
    using stub_entries by (intro wait_found[OF cfg]) simp_all
  from stats_after_wait[OF cfg this, of None None]
  have c: "buildSubagentStatsLine inputOnlyStoreEnv stubChild None None world0
     = (Inr (''Stats: runtime n/a'' @ bullet @ ''tokens n/a'' @ bullet
              @ ''sessionKey '' @ stubChild @ bullet @ ''sessionId sess-1'' @ bullet
              @ ''transcript /state/sess-1.jsonl''),
        pollWorld 3 [StoreRead stubStorePath, Delay 200, StoreRead stubStorePath,
                     Delay 200, StoreRead stubStorePath])"
    using stub_parts
    by (simp add: inputOnlyStoreEnv_def scripted_store_path scripted_store_reads
          numeral_2_eq_2 numeral_3_eq_3)
  have d: "fst (storeRead inputOnlyStoreEnv stubStorePath stubChild 2 world0)
       = Inr (Some inputOnlyEntry)"
    by (simp add: inputOnlyStoreEnv_def scripted_store_reads)
  have e: "se_inputTokens inputOnlyEntry = Some 100"
    by (simp add: inputOnlyEntry_def bareEntry_def)
  from a b c d e stub_entries show ?thesis by (intro conjI) simp_all
qed

section \<open>Properties of the Announce Flow\<close>
















text \<open>
  Replies that are suppressed in every environment: none, the empty one, and one of
  white space only.
\<close>

lemma blank_reply_suppressed:
  "suppressed env None \<and> suppressed env (Some [])
   \<and> suppressed env (Some [CHR '' '', CHR 0x09, CHR 0x0A])"
  by (simp add: suppressed_def trim_def isWs1_def)



end
